theory Spec2Isabelle
  imports Main "HOL-Library.Word"
begin

unbundle bit_operations_syntax

section \<open>Data model of xdev.c\<close>

text \<open>
  Pointers and \<^verbatim>\<open>unsigned long\<close> device handles are 64-bit words; the null pointer is 0.
  A device handle is the address of the \<^verbatim>\<open>struct xlnx_dma_dev\<close> it names.
\<close>

type_synonym addr = "64 word"

text \<open>
  Reading through a pointer that is null, or that points at no live object, is undefined
  in C. The model returns a fault there instead of a value.
\<close>

datatype fault = Null_pointer | Bad_pointer

text \<open>
  The fields of the kernel's \<^verbatim>\<open>struct pci_dev\<close> that xdev.c reads:
  \<^verbatim>\<open>pdev->bus->number\<close> (an unsigned char), \<^verbatim>\<open>pdev->devfn\<close> (an unsigned int),
  the vendor and device identifiers and \<^verbatim>\<open>dev_name(&pdev->dev)\<close>.
\<close>

record pci_dev =
  bus_number :: "8 word"
  devfn :: "32 word"
  vendor :: "16 word"
  device :: "16 word"
  dev_name :: string

text \<open>
  \<^verbatim>\<open>struct qdma_dev_conf\<close> is declared in a header that is not part of the sources at
  hand; the record holds the fields xdev.c reads or writes. The whole record is what
  \<^verbatim>\<open>memcpy(.., sizeof(*conf))\<close> copies.
\<close>

record qdma_dev_conf =
  pdev :: addr
  qsets_max :: "16 word"
  vf_max :: "8 word"
  name :: string
  bar_num_config :: int
  bar_num_user :: int
  bdf :: "32 word"
  idx :: "32 word"
  cur_cfg_state :: "32 word"

text \<open>
  \<^verbatim>\<open>struct xlnx_dma_dev\<close>, again restricted to the fields xdev.c touches.
  \<open>flag_offline\<close> is the bit \<^verbatim>\<open>XDEV_FLAG_OFFLINE\<close> that \<^verbatim>\<open>xdev_flag_set\<close> and
  \<^verbatim>\<open>xdev_flag_clear\<close> (declared in xdev.h) set and clear.
\<close>

record xlnx_dma_dev =
  conf :: qdma_dev_conf
  mod_name :: string
  regs :: addr
  stm_regs :: addr
  stm_en :: bool
  stm_rev :: "32 word"
  flr_prsnt :: bool
  st_mode_en :: bool
  mm_mode_en :: bool
  mm_channel_max :: "8 word"
  flag_offline :: bool

text \<open>
  Build-time choices and the constants that xdev.c takes from headers outside the
  sources at hand. Every theorem below holds for every value of them unless it says
  otherwise.
\<close>

record build =
  QDMA_VF :: bool
  CONFIG_PCI_IOV :: bool
  PCI_SHIFT_BUS :: nat
  PCI_SHIFT_DEV :: nat
  CFG_USER :: "32 word"
  QDMA_CONFIG_BAR :: int
  QDMA_MAX_BAR_LEN_MAPPED :: int
  STM_ENABLED_DEVICE :: "16 word"
  STM_BAR :: int
  STM_REG_BASE :: addr
  STM_REG_REV :: addr
  STM_REG_H2C_MODE :: addr
  STM_SUPPORTED_REV :: "32 word"
  STM_PORT_MAP :: "32 word"
  QDMA_DEV_NAME_MAXLEN :: nat
  QDMA_ERR_INVALID_INPUT_PARAM :: int
  QDMA_ERR_INVALID_PCI_DEV :: int
  QDMA_ERR_PCI_DEVICE_ALREADY_ATTACHED :: int
  QDMA_ERR_INTERFACE_NOT_ENABLED_IN_DEVICE :: int

text \<open>
  Modelled from the spec: \<^verbatim>\<open>enum cfg_state\<close> is declared outside the sources at hand.
  The spec orders it \<open>UNCONFIGURED < USER\<close> with \<open>UNCONFIGURED\<close> the lowest value; a C
  enumeration without negative enumerators is an unsigned int, its first enumerator 0.
\<close>

definition CFG_UNCONFIGURED :: "32 word" where
  "CFG_UNCONFIGURED = 0"

definition EINVAL :: int where
  "EINVAL = 22"

definition QDMA_OPERATION_SUCCESSFUL :: int where
  "QDMA_OPERATION_SUCCESSFUL = 0"

text \<open>The calls xdev.c makes into the kernel and into the rest of the driver, in order.\<close>

datatype call =
  Pci_request_regions addr
  | Pci_release_regions addr
  | Pci_enable_device addr
  | Pci_disable_device addr
  | Pci_enable_relaxed_ordering addr
  | Pci_set_master addr
  | Pci_set_dma_mask addr nat
  | Pci_set_consistent_dma_mask addr nat
  | Kzalloc
  | Kfree addr
  | Pci_iomap addr int int
  | Pci_iounmap addr addr
  | Readl addr
  | Writel "32 word" addr
  | Qdma_device_attributes_get addr
  | Qdma_device_init addr
  | Qdma_device_cleanup addr
  | Qdma_mbox_init addr
  | Qdma_mbox_start addr
  | Qdma_mbox_cleanup addr
  | Xdev_sriov_vf_online addr
  | Xdev_sriov_vf_offline addr
  | Xdev_sriov_enable addr "8 word"
  | Xdev_sriov_disable addr

text \<open>
  The state the functions of xdev.c work on.
  \<^item> \<open>xdev_list\<close>: the static list \<^verbatim>\<open>xdev_list\<close> in list order; each entry is the address
    of a device object and the object's contents. The device objects of the driver are
    live exactly while they are linked, so the list is also the store the handles point
    into.
  \<^item> \<open>xdev_mutex\<close>: how often \<^verbatim>\<open>mutex_lock(&xdev_mutex)\<close> has run.
  \<^item> \<open>pci_devs\<close>: the kernel's \<^verbatim>\<open>struct pci_dev\<close> objects by address.
  \<^item> \<open>claimed\<close>: the bus devices whose regions are held (\<^verbatim>\<open>pci_request_regions\<close>).
  \<^item> \<open>iomapped\<close>: the live mappings (\<^verbatim>\<open>pci_iomap\<close> cookies).
  \<^item> \<open>calls\<close>: the calls made so far, oldest first.
\<close>

record driver =
  xdev_list :: "(addr \<times> xlnx_dma_dev) list"
  xdev_mutex :: nat
  pci_devs :: "(addr \<times> pci_dev) list"
  claimed :: "addr set"
  iomapped :: "addr set"
  calls :: "call list"

definition pci_deref :: "driver \<Rightarrow> addr \<Rightarrow> fault + pci_dev" where
  "pci_deref s p =
     (if p = 0 then Inl Null_pointer
      else case map_of (pci_devs s) p of None \<Rightarrow> Inl Bad_pointer | Some pd \<Rightarrow> Inr pd)"

definition xdev_deref :: "driver \<Rightarrow> addr \<Rightarrow> fault + xlnx_dma_dev" where
  "xdev_deref s h =
     (if h = 0 then Inl Null_pointer
      else case map_of (xdev_list s) h of None \<Rightarrow> Inl Bad_pointer | Some x \<Rightarrow> Inr x)"

text \<open>A store through a device pointer: the object at that address is replaced.\<close>

definition xdev_store :: "addr \<Rightarrow> (xlnx_dma_dev \<Rightarrow> xlnx_dma_dev) \<Rightarrow> driver \<Rightarrow> driver" where
  "xdev_store h f s =
     s\<lparr>xdev_list := map (\<lambda>(a, x). if a = h then (a, f x) else (a, x)) (xdev_list s)\<rparr>"

definition mutex_lock :: "driver \<Rightarrow> driver" where
  "mutex_lock s = s\<lparr>xdev_mutex := xdev_mutex s + 1\<rparr>"

definition log_call :: "call \<Rightarrow> driver \<Rightarrow> driver" where
  "log_call c s = s\<lparr>calls := calls s @ [c]\<rparr>"

text \<open>The kernel's macros \<^verbatim>\<open>PCI_SLOT\<close> and \<^verbatim>\<open>PCI_FUNC\<close>.\<close>

definition PCI_SLOT :: "32 word \<Rightarrow> 32 word" where
  "PCI_SLOT d = drop_bit 3 d AND 0x1f"

definition PCI_FUNC :: "32 word \<Rightarrow> 32 word" where
  "PCI_FUNC d = d AND 0x07"

section \<open>The device list\<close>

subsection \<open>xdev\_list\_add\<close>

text \<open>
  One pass of the loop of \<^verbatim>\<open>xdev_list_add\<close>. The loop state is
  \<open>(xdev->conf.idx, last_bus, last_dev)\<close>; \<open>npd\<close> is the bus device of the device being
  added (\<^verbatim>\<open>xdev\<close>), \<open>x\<close> the list member visited (\<^verbatim>\<open>_xdev\<close>). The counter written is the
  added device's, and \<open>last_dev\<close> is taken from the added device.
\<close>

definition xdev_list_add_step ::
  "build \<Rightarrow> driver \<Rightarrow> pci_dev \<Rightarrow> xlnx_dma_dev \<Rightarrow> 32 word \<times> 32 word \<times> 32 word
     \<Rightarrow> fault + (32 word \<times> 32 word \<times> 32 word)" where
  "xdev_list_add_step B s npd x st =
     (case st of (i, last_bus, last_dev) \<Rightarrow>
        (case pci_deref s (pdev (conf x)) of
           Inl e \<Rightarrow> Inl e
         | Inr pd \<Rightarrow>
             let differs =
                   (if QDMA_VF B then last_bus \<noteq> ucast (bus_number pd)
                    else last_bus \<noteq> ucast (bus_number pd) \<or> last_dev \<noteq> PCI_SLOT (devfn pd));
                 i0 = (if differs then 0 else i)
             in Inr (i0 + 1, ucast (bus_number pd), PCI_SLOT (devfn npd))))"

fun xdev_list_add_loop ::
  "build \<Rightarrow> driver \<Rightarrow> pci_dev \<Rightarrow> (addr \<times> xlnx_dma_dev) list \<Rightarrow> 32 word \<times> 32 word \<times> 32 word
     \<Rightarrow> fault + (32 word \<times> 32 word \<times> 32 word)" where
  "xdev_list_add_loop B s npd [] st = Inr st"
| "xdev_list_add_loop B s npd (e # rest) st =
     (case xdev_list_add_step B s npd (snd e) st of
        Inl f \<Rightarrow> Inl f
      | Inr st' \<Rightarrow> xdev_list_add_loop B s npd rest st')"

definition xdev_list_add :: "build \<Rightarrow> addr \<Rightarrow> xlnx_dma_dev \<Rightarrow> driver \<Rightarrow> fault + driver" where
  "xdev_list_add B a x s =
     (let s1 = mutex_lock s in
      case pci_deref s1 (pdev (conf x)) of
        Inl e \<Rightarrow> Inl e
      | Inr npd \<Rightarrow>
          let b = push_bit (PCI_SHIFT_BUS B) (ucast (bus_number npd))
                    OR push_bit (PCI_SHIFT_DEV B) (PCI_SLOT (devfn npd))
                    OR PCI_FUNC (devfn npd);
              x1 = x\<lparr>conf := (conf x)\<lparr>bdf := b\<rparr>\<rparr>;
              l1 = xdev_list s1 @ [(a, x1)]
          in (case xdev_list_add_loop B s1 npd l1 (idx (conf x1), 0, 0) of
                Inl e \<Rightarrow> Inl e
              | Inr (i, last_bus, last_dev) \<Rightarrow>
                  Inr (s1\<lparr>xdev_list := xdev_list s1 @
                         [(a, x1\<lparr>conf := (conf x1)\<lparr>idx := i, cur_cfg_state := CFG_UNCONFIGURED\<rparr>\<rparr>)]\<rparr>)))"

text \<open>Adding several devices one after the other, stopping at the first fault.\<close>

fun xdev_list_add_all :: "build \<Rightarrow> (addr \<times> xlnx_dma_dev) list \<Rightarrow> driver \<Rightarrow> fault + driver" where
  "xdev_list_add_all B [] s = Inr s"
| "xdev_list_add_all B (e # rest) s =
     (case xdev_list_add B (fst e) (snd e) s of
        Inl f \<Rightarrow> Inl f
      | Inr s' \<Rightarrow> xdev_list_add_all B rest s')"


subsection \<open>xdev\_list\_dump\<close>

text \<open>
  \<^verbatim>\<open>sprintf\<close> conversions: \<open>printf_0x w n\<close> is what \<^verbatim>\<open>%0wx\<close> prints for the unsigned
  value \<open>n\<close>: lower-case hexadecimal, padded with zeros to at least \<open>w\<close> characters.
\<close>

definition hex_digit :: "nat \<Rightarrow> char" where
  "hex_digit d = ''0123456789abcdef'' ! d"

fun hex_of :: "nat \<Rightarrow> string" where
  "hex_of n = (if n < 16 then [hex_digit n] else hex_of (n div 16) @ [hex_digit (n mod 16)])"

declare hex_of.simps [simp del]

definition printf_0x :: "nat \<Rightarrow> nat \<Rightarrow> string" where
  "printf_0x w n = replicate (w - length (hex_of n)) CHR ''0'' @ hex_of n"

text \<open>The line \<^verbatim>\<open>"qdma%05x\t%02x:%02x.%02x\n"\<close> of one device.\<close>

definition dump_line :: "xlnx_dma_dev \<Rightarrow> pci_dev \<Rightarrow> string" where
  "dump_line x pd =
     ''qdma'' @ printf_0x 5 (unat (bdf (conf x))) @ [CHR 0x09]
       @ printf_0x 2 (unat (bus_number pd)) @ '':''
       @ printf_0x 2 (unat (PCI_SLOT (devfn pd))) @ ''.''
       @ printf_0x 2 (unat (PCI_FUNC (devfn pd))) @ [CHR 0x0A]"

text \<open>
  The loop of \<^verbatim>\<open>xdev_list_dump\<close>. \<open>out\<close> is what has been written to \<^verbatim>\<open>buf\<close> so far, so
  \<^verbatim>\<open>len\<close> is its length. Each line is written in full by \<^verbatim>\<open>sprintf\<close>; \<^verbatim>\<open>buflen\<close> is compared
  only afterwards.
\<close>

fun xdev_list_dump_loop ::
  "driver \<Rightarrow> (addr \<times> xlnx_dma_dev) list \<Rightarrow> int \<Rightarrow> string \<Rightarrow> fault + string" where
  "xdev_list_dump_loop s [] buflen out = Inr out"
| "xdev_list_dump_loop s (e # rest) buflen out =
     (case pci_deref s (pdev (conf (snd e))) of
        Inl f \<Rightarrow> Inl f
      | Inr pd \<Rightarrow>
          let out' = out @ dump_line (snd e) pd
          in if int (length out') \<ge> buflen then Inr out'
             else xdev_list_dump_loop s rest buflen out')"

text \<open>
  \<^verbatim>\<open>xdev_list_dump\<close> returns \<^verbatim>\<open>len\<close>; the second component is every byte it has stored
  at \<^verbatim>\<open>buf\<close>, from \<^verbatim>\<open>buf[0]\<close> up to and including the final \<^verbatim>\<open>buf[len] = '\0'\<close>.
\<close>

definition xdev_list_dump :: "int \<Rightarrow> driver \<Rightarrow> fault + (int \<times> string \<times> driver)" where
  "xdev_list_dump buflen s =
     (let s1 = mutex_lock s in
      case xdev_list_dump_loop s1 (xdev_list s1) buflen [] of
        Inl f \<Rightarrow> Inl f
      | Inr out \<Rightarrow> Inr (int (length out), out @ [CHR 0x00], s1))"

subsection \<open>xdev\_list\_remove, xdev\_find\_by\_pdev, xdev\_check\_hndl\<close>

definition xdev_list_remove :: "addr \<Rightarrow> driver \<Rightarrow> driver" where
  "xdev_list_remove a s =
     (mutex_lock s)\<lparr>xdev_list := filter (\<lambda>e. fst e \<noteq> a) (xdev_list s)\<rparr>"

text \<open>
  \<^verbatim>\<open>xdev_find_by_pdev\<close> returns a pointer to the first list member whose \<^verbatim>\<open>conf.pdev\<close> is
  \<open>p\<close>, or NULL. The model returns the member (its address and contents), or \<open>None\<close>.
\<close>

definition xdev_find_by_pdev ::
  "addr \<Rightarrow> driver \<Rightarrow> (addr \<times> xlnx_dma_dev) option \<times> driver" where
  "xdev_find_by_pdev p s = (find (\<lambda>e. pdev (conf (snd e)) = p) (xdev_list s), mutex_lock s)"

definition xdev_check_hndl :: "addr \<Rightarrow> addr \<Rightarrow> driver \<Rightarrow> int \<times> driver" where
  "xdev_check_hndl p hndl s =
     (if p = 0 then (- EINVAL, s)
      else case xdev_find_by_pdev p s of
        (None, s1) \<Rightarrow> (- EINVAL, s1)
      | (Some e, s1) \<Rightarrow>
          if fst e \<noteq> hndl then (- EINVAL, s1)
          else if pdev (conf (snd e)) \<noteq> p then (- EINVAL, s1)
          else (0, s1))"

section \<open>Calls into the kernel and the rest of the driver\<close>

text \<open>
  What the kernel and the other parts of the driver answer during one call into xdev.c.
  Every theorem quantifies over all answers unless it says otherwise.
\<close>

record env =
  request_regions_rv :: int
  enable_device_rv :: int
  set_dma_mask_64_rv :: int
  set_dma_mask_32_rv :: int
  kzalloc_ret :: addr
  resource_len_config :: int
  iomap_config :: addr
  readl_id :: "32 word"
  resource_len_stm :: int
  iomap_stm :: addr
  readl_stm_rev :: "32 word"
  readl_h2c_mode :: "32 word"
  attr_flr_prsnt :: bool
  attr_st_mode_en :: bool
  attr_mm_mode_en :: bool
  attr_mm_channel_max :: "8 word"
  device_init_rv :: int
  sriov_vf_online_rv :: int
  sriov_enable_rv :: int

definition pci_request_regions :: "env \<Rightarrow> addr \<Rightarrow> driver \<Rightarrow> driver" where
  "pci_request_regions E p s =
     log_call (Pci_request_regions p)
       (if request_regions_rv E = 0 then s\<lparr>claimed := insert p (claimed s)\<rparr> else s)"

definition pci_release_regions :: "addr \<Rightarrow> driver \<Rightarrow> driver" where
  "pci_release_regions p s = log_call (Pci_release_regions p) (s\<lparr>claimed := claimed s - {p}\<rparr>)"

definition pci_iomap :: "addr \<Rightarrow> int \<Rightarrow> int \<Rightarrow> addr \<Rightarrow> driver \<Rightarrow> driver" where
  "pci_iomap p bar maxlen cookie s =
     log_call (Pci_iomap p bar maxlen)
       (if cookie = 0 then s else s\<lparr>iomapped := insert cookie (iomapped s)\<rparr>)"

definition pci_iounmap :: "addr \<Rightarrow> addr \<Rightarrow> driver \<Rightarrow> driver" where
  "pci_iounmap p cookie s = log_call (Pci_iounmap p cookie) (s\<lparr>iomapped := iomapped s - {cookie}\<rparr>)"

text \<open>
  \<^verbatim>\<open>qdma_device_attributes_get\<close> reads the capabilities of the hardware into the device
  object: the four fields \<^verbatim>\<open>xdev_alloc\<close> presets.
\<close>

definition qdma_device_attributes_get :: "env \<Rightarrow> addr \<Rightarrow> driver \<Rightarrow> driver" where
  "qdma_device_attributes_get E h s =
     log_call (Qdma_device_attributes_get h)
       (xdev_store h (\<lambda>x. x\<lparr>flr_prsnt := attr_flr_prsnt E, st_mode_en := attr_st_mode_en E,
                               mm_mode_en := attr_mm_mode_en E,
                               mm_channel_max := attr_mm_channel_max E\<rparr>) s)"

section \<open>PCI-level functions\<close>

definition xdev_unmap_bars :: "addr \<Rightarrow> addr \<Rightarrow> driver \<Rightarrow> fault + driver" where
  "xdev_unmap_bars h p s =
     (case xdev_deref s h of
        Inl f \<Rightarrow> Inl f
      | Inr x \<Rightarrow>
          let s1 = (if regs x \<noteq> 0
                    then xdev_store h (\<lambda>x. x\<lparr>regs := 0\<rparr>) (pci_iounmap p (regs x) s)
                    else s);
              s2 = (if stm_regs x \<noteq> 0
                    then xdev_store h (\<lambda>x. x\<lparr>stm_regs := 0\<rparr>) (pci_iounmap p (stm_regs x) s1)
                    else s1)
          in Inr s2)"

text \<open>The test of the STM revision word: the bytes \<open>'S'\<close>, \<open>'T'\<close>, \<open>'M'\<close> and a revision.\<close>

definition stm_rev_ok :: "build \<Rightarrow> 32 word \<Rightarrow> bool" where
  "stm_rev_ok B r =
     (drop_bit 24 r = 0x53 \<and> (drop_bit 16 r AND 0xFF) = 0x54
        \<and> (drop_bit 8 r AND 0xFF) = 0x4D \<and> (r AND 0xFF) \<le> STM_SUPPORTED_REV B)"

text \<open>
  \<^verbatim>\<open>int map_len = pci_resource_len(..)\<close>: the length of a region, a \<^verbatim>\<open>resource_size_t\<close>, is cut
  to the 32 bits of an \<^verbatim>\<open>int\<close>; \<^verbatim>\<open>pci_iomap\<close> then takes \<^verbatim>\<open>map_len\<close> as an \<^verbatim>\<open>unsigned long\<close>.
\<close>

definition int_of_resource_len :: "int \<Rightarrow> int" where
  "int_of_resource_len n = sint (word_of_int n :: 32 word)"

definition ulong_of_int :: "int \<Rightarrow> int" where
  "ulong_of_int n = uint (word_of_int n :: 64 word)"

definition xdev_map_bars :: "build \<Rightarrow> env \<Rightarrow> addr \<Rightarrow> addr \<Rightarrow> driver \<Rightarrow> fault + (int \<times> driver)" where
  "xdev_map_bars B E h p s =
     (case xdev_deref s h of
        Inl f \<Rightarrow> Inl f
      | Inr x \<Rightarrow>
     (case pci_deref s p of
        Inl f \<Rightarrow> Inl f
      | Inr pd \<Rightarrow>
          let s1 = xdev_store h (\<lambda>x. x\<lparr>conf := (conf x)\<lparr>bar_num_config := QDMA_CONFIG_BAR B\<rparr>\<rparr>) s;
              map_len = (if int_of_resource_len (resource_len_config E) > QDMA_MAX_BAR_LEN_MAPPED B
                         then QDMA_MAX_BAR_LEN_MAPPED B
                         else int_of_resource_len (resource_len_config E));
              s2 = xdev_store h (\<lambda>x. x\<lparr>regs := iomap_config E\<rparr>)
                     (pci_iomap p (QDMA_CONFIG_BAR B) (ulong_of_int map_len) (iomap_config E) s1)
          in if iomap_config E = 0 then Inr (- EINVAL, s2)
             else
               let s3 = (if QDMA_VF B then s2 else log_call (Readl (iomap_config E)) s2)
               in if \<not> QDMA_VF B \<and> (readl_id E AND 0xFFFF0000) \<noteq> 0x1FD30000
                  then (case xdev_unmap_bars h p s3 of
                          Inl f \<Rightarrow> Inl f
                        | Inr s4 \<Rightarrow> Inr (- EINVAL, s4))
                  else if device pd = STM_ENABLED_DEVICE B
                  then
                    let s4 = xdev_store h (\<lambda>x. x\<lparr>stm_regs := iomap_stm E\<rparr>)
                               (pci_iomap p (STM_BAR B)
                                  (ulong_of_int (int_of_resource_len (resource_len_stm E)))
                                  (iomap_stm E) s3)
                    in if iomap_stm E = 0 then Inr (- EINVAL, s4)
                       else
                         let s5 = log_call (Readl (iomap_stm E + STM_REG_BASE B + STM_REG_REV B)) s4
                         in if \<not> stm_rev_ok B (readl_stm_rev E)
                            then (case xdev_unmap_bars h p s5 of
                                    Inl f \<Rightarrow> Inl f
                                  | Inr s6 \<Rightarrow> Inr (- EINVAL, s6))
                            else Inr (0, xdev_store h
                                   (\<lambda>x. x\<lparr>stm_en := True, stm_rev := readl_stm_rev E AND 0xFF\<rparr>) s5)
                  else Inr (0, xdev_store h (\<lambda>x. x\<lparr>stm_en := False\<rparr>) s3)))"

text \<open>
  \<^verbatim>\<open>xdev_alloc\<close>: \<^verbatim>\<open>kzalloc\<close> answers with the address of a zeroed object, or NULL.
  The result is the new object (not yet linked into the list), or \<open>None\<close>.
\<close>

definition xdev_zeroed :: xlnx_dma_dev where
  "xdev_zeroed =
     \<lparr>conf = \<lparr>pdev = 0, qsets_max = 0, vf_max = 0, name = [], bar_num_config = 0,
              bar_num_user = 0, bdf = 0, idx = 0, cur_cfg_state = 0\<rparr>,
      mod_name = [], regs = 0, stm_regs = 0, stm_en = False, stm_rev = 0, flr_prsnt = False,
      st_mode_en = False, mm_mode_en = False, mm_channel_max = 0, flag_offline = False\<rparr>"

definition xdev_alloc ::
  "env \<Rightarrow> qdma_dev_conf \<Rightarrow> driver \<Rightarrow> (addr \<times> xlnx_dma_dev) option \<times> driver" where
  "xdev_alloc E c s =
     (let s1 = log_call Kzalloc s
      in if kzalloc_ret E = 0 then (None, s1)
         else (Some (kzalloc_ret E,
                     xdev_zeroed\<lparr>conf := c, flr_prsnt := True, st_mode_en := True,
                                  mm_mode_en := True, mm_channel_max := 1\<rparr>), s1))"

definition pci_dma_mask_set :: "env \<Rightarrow> addr \<Rightarrow> driver \<Rightarrow> int \<times> driver" where
  "pci_dma_mask_set E p s =
     (let s1 = log_call (Pci_set_dma_mask p 64) s
      in if set_dma_mask_64_rv E = 0
         then (0, log_call (Pci_set_consistent_dma_mask p 32) s1)
         else
           let s2 = log_call (Pci_set_dma_mask p 32) s1
           in if set_dma_mask_32_rv E = 0
              then (0, log_call (Pci_set_consistent_dma_mask p 32) s2)
              else (- EINVAL, s2))"


section \<open>Online, offline, open and close\<close>

definition qdma_device_offline :: "build \<Rightarrow> addr \<Rightarrow> addr \<Rightarrow> driver \<Rightarrow> fault + driver" where
  "qdma_device_offline B p dev_hndl s =
     (if dev_hndl = 0 then Inr s
      else case xdev_check_hndl p dev_hndl s of
        (rv, s1) \<Rightarrow>
          if rv < 0 then Inr s1
          else (case xdev_deref s1 dev_hndl of
                  Inl f \<Rightarrow> Inl f
                | Inr x \<Rightarrow>
                    let s2 = xdev_store dev_hndl (\<lambda>x. x\<lparr>flag_offline := True\<rparr>) s1;
                        s3 = (if QDMA_VF B then log_call (Xdev_sriov_vf_offline dev_hndl) s2
                              else if CONFIG_PCI_IOV B then log_call (Xdev_sriov_disable dev_hndl) s2
                              else s2);
                        s4 = log_call (Qdma_device_cleanup dev_hndl) s3
                    in Inr (log_call (Qdma_mbox_cleanup dev_hndl) s4)))"

definition qdma_device_online ::
  "build \<Rightarrow> env \<Rightarrow> addr \<Rightarrow> addr \<Rightarrow> driver \<Rightarrow> fault + (int \<times> driver)" where
  "qdma_device_online B E p dev_hndl s =
     (if dev_hndl = 0 then Inr (- EINVAL, s)
      else case xdev_check_hndl p dev_hndl s of
        (rv0, s1) \<Rightarrow>
          if rv0 < 0 then Inr (- EINVAL, s1)
          else (case xdev_deref s1 dev_hndl of
                  Inl f \<Rightarrow> Inl f
                | Inr x \<Rightarrow>
                    let s2 = log_call (Qdma_device_init dev_hndl) s1
                    in if device_init_rv E < 0
                       then Inr (device_init_rv E, log_call (Qdma_device_cleanup dev_hndl) s2)
                       else
                         let s3 = xdev_store dev_hndl (\<lambda>x. x\<lparr>flag_offline := False\<rparr>) s2;
                             s4 = log_call (Qdma_mbox_init dev_hndl) s3
                         in if QDMA_VF B
                            then
                              let s5 = log_call (Xdev_sriov_vf_online dev_hndl)
                                         (log_call (Qdma_mbox_start dev_hndl) s4)
                              in if sriov_vf_online_rv E < 0
                                 then Inr (sriov_vf_online_rv E,
                                           log_call (Qdma_device_cleanup dev_hndl) s5)
                                 else Inr (0, s5)
                            else if CONFIG_PCI_IOV B \<and> vf_max (conf x) \<noteq> 0
                            then
                              let s5 = log_call (Xdev_sriov_enable dev_hndl (vf_max (conf x))) s4
                              in if sriov_enable_rv E < 0
                                 then Inr (sriov_enable_rv E,
                                           log_call (Qdma_device_cleanup dev_hndl) s5)
                                 else Inr (0, s5)
                            else Inr (0, s4)))"

text \<open>
  \<^verbatim>\<open>qdma_device_open\<close> returns its \<^verbatim>\<open>int\<close>, what it leaves in the caller's \<^verbatim>\<open>*conf\<close> and
  in \<^verbatim>\<open>*dev_hndl\<close>, and the state. The labels at its end fall through into each other;
  each is a function that ends in the next.
\<close>

type_synonym open_result = "int \<times> qdma_dev_conf \<times> addr \<times> driver"

definition open_release_regions :: "addr \<Rightarrow> int \<Rightarrow> qdma_dev_conf \<Rightarrow> driver \<Rightarrow> open_result" where
  "open_release_regions p rv c s = (rv, c, 0, pci_release_regions p s)"

definition open_disable_device :: "addr \<Rightarrow> int \<Rightarrow> qdma_dev_conf \<Rightarrow> driver \<Rightarrow> open_result" where
  "open_disable_device p rv c s =
     open_release_regions p rv c (log_call (Pci_disable_device p) s)"

definition open_unmap_bars ::
  "addr \<Rightarrow> addr \<Rightarrow> int \<Rightarrow> qdma_dev_conf \<Rightarrow> driver \<Rightarrow> fault + open_result" where
  "open_unmap_bars h p rv c s =
     (case xdev_unmap_bars h p s of
        Inl f \<Rightarrow> Inl f
      | Inr s1 \<Rightarrow>
          Inr (open_disable_device p rv c (log_call (Kfree h) (xdev_list_remove h s1))))"

definition open_cleanup_qdma ::
  "build \<Rightarrow> addr \<Rightarrow> addr \<Rightarrow> int \<Rightarrow> qdma_dev_conf \<Rightarrow> driver \<Rightarrow> fault + open_result" where
  "open_cleanup_qdma B h p rv c s =
     (case qdma_device_offline B p h s of
        Inl f \<Rightarrow> Inl f
      | Inr s1 \<Rightarrow> open_unmap_bars h p rv c s1)"

text \<open>
  From the STM port map to the end of \<^verbatim>\<open>qdma_device_open\<close>: the device \<open>h\<close> is linked and
  its regions are mapped.
\<close>

definition open_bring_online ::
  "build \<Rightarrow> env \<Rightarrow> addr \<Rightarrow> addr \<Rightarrow> qdma_dev_conf \<Rightarrow> driver \<Rightarrow> fault + open_result" where
  "open_bring_online B E h p c s =
     (case xdev_deref s h of
        Inl f \<Rightarrow> Inl f
      | Inr x \<Rightarrow>
          let s1 = (if stm_en x
                    then log_call
                           (Writel ((readl_h2c_mode E AND 0x0000FFFF) OR push_bit 16 (STM_PORT_MAP B))
                              (stm_regs x + STM_REG_BASE B + STM_REG_H2C_MODE B))
                           (log_call (Readl (stm_regs x + STM_REG_BASE B + STM_REG_H2C_MODE B)) s)
                    else s);
              s2 = (if QDMA_VF B then s1 else qdma_device_attributes_get E h s1)
          in (case xdev_deref s2 h of
                Inl f \<Rightarrow> Inl f
              | Inr x2 \<Rightarrow>
                  if \<not> QDMA_VF B \<and> \<not> mm_mode_en x2 \<and> \<not> st_mode_en x2
                  then open_unmap_bars h p (QDMA_ERR_INTERFACE_NOT_ENABLED_IN_DEVICE B) c s2
                  else (case qdma_device_online B E p h s2 of
                          Inl f \<Rightarrow> Inl f
                        | Inr (rv, s3) \<Rightarrow>
                            if rv < 0 then open_cleanup_qdma B h p rv (conf x2) s3
                            else Inr (QDMA_OPERATION_SUCCESSFUL, conf x2, h, s3))))"

text \<open>
  From \<^verbatim>\<open>strncpy\<close> to \<^verbatim>\<open>xdev_list_add\<close>: the new object \<open>x\<close> at address \<open>a\<close> gets the module
  name and the offline flag and is linked into the list.
\<close>

definition open_register ::
  "build \<Rightarrow> string \<Rightarrow> addr \<Rightarrow> xlnx_dma_dev \<Rightarrow> driver \<Rightarrow> fault + driver" where
  "open_register B m a x s =
     xdev_list_add B a
       (x\<lparr>mod_name := take (QDMA_DEV_NAME_MAXLEN B - 1) m, flag_offline := True\<rparr>) s"

text \<open>From \<^verbatim>\<open>strncpy\<close> to the end of \<^verbatim>\<open>qdma_device_open\<close>.\<close>

definition open_attach ::
  "build \<Rightarrow> env \<Rightarrow> string \<Rightarrow> addr \<Rightarrow> addr \<Rightarrow> xlnx_dma_dev \<Rightarrow> qdma_dev_conf \<Rightarrow> driver
     \<Rightarrow> fault + open_result" where
  "open_attach B E m p a x c s =
     (case open_register B m a x s of
        Inl f \<Rightarrow> Inl f
      | Inr s1 \<Rightarrow>
     (case xdev_deref s1 a of
        Inl f \<Rightarrow> Inl f
      | Inr x1 \<Rightarrow>
     (case pci_deref s1 (pdev (conf x1)) of
        Inl f \<Rightarrow> Inl f
      | Inr pd \<Rightarrow>
          let s2 = xdev_store a
                     (\<lambda>x. x\<lparr>conf := (conf x)\<lparr>name := ''qdma'' @ printf_0x 5 (unat (bdf (conf x1)))
                                                     @ ''-p'' @ dev_name pd\<rparr>\<rparr>) s1
          in (case xdev_map_bars B E a p s2 of
                Inl f \<Rightarrow> Inl f
              | Inr (rv, s3) \<Rightarrow>
                  if rv \<noteq> 0 then open_unmap_bars a p rv c s3
                  else open_bring_online B E a p c s3))))"

definition qdma_device_open ::
  "build \<Rightarrow> env \<Rightarrow> string option \<Rightarrow> qdma_dev_conf option \<Rightarrow> driver \<Rightarrow> fault + open_result" where
  "qdma_device_open B E mod_name_ptr conf_ptr s =
     (case conf_ptr of
        None \<Rightarrow> Inl Null_pointer
      | Some c0 \<Rightarrow>
     (case mod_name_ptr of
        None \<Rightarrow> Inr (QDMA_ERR_INVALID_INPUT_PARAM B, c0, 0, s)
      | Some m \<Rightarrow>
          if pdev c0 = 0 then Inr (QDMA_ERR_INVALID_PCI_DEV B, c0, 0, s)
          else
            let c = c0\<lparr>bar_num_config := - 1, bar_num_user := - 1\<rparr>
            in (case pci_deref s (pdev c0) of
                  Inl f \<Rightarrow> Inl f
                | Inr pd \<Rightarrow>
               (case xdev_find_by_pdev (pdev c0) s of
                  (Some e, s1) \<Rightarrow> Inr (QDMA_ERR_PCI_DEVICE_ALREADY_ATTACHED B, c, 0, s1)
                | (None, s1) \<Rightarrow>
                    let s2 = pci_request_regions E (pdev c0) s1
                    in if request_regions_rv E \<noteq> 0 then Inr (request_regions_rv E, c, 0, s2)
                       else
                         let s3 = log_call (Pci_enable_device (pdev c0)) s2
                         in if enable_device_rv E \<noteq> 0
                            then Inr (open_release_regions (pdev c0) (enable_device_rv E) c s3)
                            else
                              let s4 = log_call (Pci_set_master (pdev c0))
                                         (log_call (Pci_enable_relaxed_ordering (pdev c0)) s3)
                              in (case pci_dma_mask_set E (pdev c0) s4 of
                                    (rv, s5) \<Rightarrow>
                                      if rv \<noteq> 0 then Inr (open_disable_device (pdev c0) rv c s5)
                                      else (case xdev_alloc E c s5 of
                                              (None, s6) \<Rightarrow>
                                                Inr (open_disable_device (pdev c0) rv c s6)
                                            | (Some (a, x), s6) \<Rightarrow>
                                                open_attach B E m (pdev c0) a x c s6))))))"

definition qdma_device_close :: "build \<Rightarrow> addr \<Rightarrow> addr \<Rightarrow> driver \<Rightarrow> fault + driver" where
  "qdma_device_close B p dev_hndl s =
     (if dev_hndl = 0 then Inr s
      else case xdev_check_hndl p dev_hndl s of
        (rv, s1) \<Rightarrow>
          if rv < 0 then Inr s1
          else (case qdma_device_offline B p dev_hndl s1 of
                  Inl f \<Rightarrow> Inl f
                | Inr s2 \<Rightarrow>
               (case xdev_unmap_bars dev_hndl p s2 of
                  Inl f \<Rightarrow> Inl f
                | Inr s3 \<Rightarrow>
                    Inr (log_call (Kfree dev_hndl)
                           (xdev_list_remove dev_hndl
                              (log_call (Pci_disable_device p) (pci_release_regions p s3)))))))"

section \<open>Configuration access\<close>

text \<open>
  The three functions read \<^verbatim>\<open>xdev->conf.pdev\<close> through the handle before the handle has
  been checked. \<open>conf_ptr\<close> is the caller's \<^verbatim>\<open>conf\<close> (\<open>None\<close> for NULL); the result holds what
  is in it afterwards.
\<close>

definition qdma_device_get_config ::
  "addr \<Rightarrow> qdma_dev_conf option \<Rightarrow> driver \<Rightarrow> fault + (int \<times> qdma_dev_conf option \<times> driver)" where
  "qdma_device_get_config dev_hndl conf_ptr s =
     (case xdev_deref s dev_hndl of
        Inl f \<Rightarrow> Inl f
      | Inr x \<Rightarrow>
          (case xdev_check_hndl (pdev (conf x)) dev_hndl s of
             (rv, s1) \<Rightarrow>
               if rv < 0 then Inr (- EINVAL, conf_ptr, s1)
               else (case conf_ptr of
                       None \<Rightarrow> Inl Null_pointer
                     | Some c \<Rightarrow> Inr (0, Some (conf x), s1))))"

definition qdma_device_set_config ::
  "addr \<Rightarrow> qdma_dev_conf option \<Rightarrow> driver \<Rightarrow> fault + (int \<times> driver)" where
  "qdma_device_set_config dev_hndl conf_ptr s =
     (case conf_ptr of
        None \<Rightarrow> Inr (- EINVAL, s)
      | Some c \<Rightarrow>
          (case xdev_deref s dev_hndl of
             Inl f \<Rightarrow> Inl f
           | Inr x \<Rightarrow>
               (case xdev_check_hndl (pdev (conf x)) dev_hndl s of
                  (rv, s1) \<Rightarrow>
                    if rv < 0 then Inr (- EINVAL, s1)
                    else Inr (0, xdev_store dev_hndl (\<lambda>x. x\<lparr>conf := c\<rparr>) s1))))"

definition qdma_device_set_cfg_state ::
  "build \<Rightarrow> addr \<Rightarrow> 32 word \<Rightarrow> driver \<Rightarrow> fault + (int \<times> driver)" where
  "qdma_device_set_cfg_state B dev_hndl new_cfg_state s =
     (if new_cfg_state > CFG_USER B then Inr (- EINVAL, s)
      else case xdev_deref s dev_hndl of
        Inl f \<Rightarrow> Inl f
      | Inr x \<Rightarrow>
          (case xdev_check_hndl (pdev (conf x)) dev_hndl s of
             (rv, s1) \<Rightarrow>
               if rv < 0 then Inr (- EINVAL, s1)
               else Inr (0, xdev_store dev_hndl
                              (\<lambda>x. x\<lparr>conf := (conf x)\<lparr>cur_cfg_state := new_cfg_state\<rparr>\<rparr>) s1)))"


section \<open>Notions used in the statements\<close>

text \<open>
  \<open>on_card B s b sl x\<close>: the bus device that \<open>x\<close> stores is live and sits on the card
  \<open>(b, sl)\<close>: on bus \<open>b\<close> and, unless the build is the one for virtual functions, in
  slot \<open>sl\<close>.
\<close>

definition on_card :: "build \<Rightarrow> driver \<Rightarrow> 8 word \<Rightarrow> 32 word \<Rightarrow> xlnx_dma_dev \<Rightarrow> bool" where
  "on_card B s b sl x =
     (case pci_deref s (pdev (conf x)) of
        Inl e \<Rightarrow> False
      | Inr pd \<Rightarrow> bus_number pd = b \<and> (QDMA_VF B \<or> PCI_SLOT (devfn pd) = sl))"


subsection \<open>Example builds, devices and states\<close>

text \<open>
  A build for physical functions and one for virtual functions, a bus with four devices
  (two functions in slot 1 of bus 3, one in slot 2 of bus 3, one on bus 4), and device
  objects as a caller hands them to the driver.
\<close>

definition pf_build :: build where
  "pf_build = \<lparr>QDMA_VF = False, CONFIG_PCI_IOV = True, PCI_SHIFT_BUS = 12, PCI_SHIFT_DEV = 4,
     CFG_USER = 2, QDMA_CONFIG_BAR = 0, QDMA_MAX_BAR_LEN_MAPPED = 0x4000000,
     STM_ENABLED_DEVICE = 0x6aa0, STM_BAR = 2, STM_REG_BASE = 0x2000000, STM_REG_REV = 0x18,
     STM_REG_H2C_MODE = 0x30, STM_SUPPORTED_REV = 4, STM_PORT_MAP = 0xE1E1,
     QDMA_DEV_NAME_MAXLEN = 32,
     QDMA_ERR_INVALID_INPUT_PARAM = -4, QDMA_ERR_INVALID_PCI_DEV = -5,
     QDMA_ERR_PCI_DEVICE_ALREADY_ATTACHED = -2,
     QDMA_ERR_INTERFACE_NOT_ENABLED_IN_DEVICE = -9\<rparr>"

definition vf_build :: build where
  "vf_build = pf_build\<lparr>QDMA_VF := True, CONFIG_PCI_IOV := False\<rparr>"

definition pci_dev_at :: "8 word \<Rightarrow> 32 word \<Rightarrow> pci_dev" where
  "pci_dev_at b d = \<lparr>bus_number = b, devfn = d, vendor = 0x10ee, device = 0x9038,
     dev_name = ''0000:00:00.0''\<rparr>"

definition conf_of :: "addr \<Rightarrow> qdma_dev_conf" where
  "conf_of p = \<lparr>pdev = p, qsets_max = 0, vf_max = 0, name = [], bar_num_config = 0,
     bar_num_user = 0, bdf = 0, idx = 0, cur_cfg_state = 0\<rparr>"

definition xdev_of :: "qdma_dev_conf \<Rightarrow> xlnx_dma_dev" where
  "xdev_of c = \<lparr>conf = c, mod_name = [], regs = 0, stm_regs = 0, stm_en = False, stm_rev = 0,
     flr_prsnt = True, st_mode_en = True, mm_mode_en = True, mm_channel_max = 1,
     flag_offline = True\<rparr>"

definition bus_example :: driver where
  "bus_example = \<lparr>xdev_list = [], xdev_mutex = 0,
     pci_devs = [(0x100, pci_dev_at 3 8), (0x200, pci_dev_at 3 9), (0x300, pci_dev_at 3 16),
                 (0x400, pci_dev_at 4 8)],
     claimed = {}, iomapped = {}, calls = []\<rparr>"

text \<open>The indices of the listed devices, in list order.\<close>

definition indices_of :: "fault + driver \<Rightarrow> fault + 32 word list" where
  "indices_of r = map_sum id (\<lambda>s. map (\<lambda>e. idx (conf (snd e))) (xdev_list s)) r"


text \<open>
  \<open>first_storing s p a x\<close>: the device \<open>x\<close> at address \<open>a\<close> is the first one in the list
  that stores the bus reference \<open>p\<close>.
\<close>

definition first_storing :: "driver \<Rightarrow> addr \<Rightarrow> addr \<Rightarrow> xlnx_dma_dev \<Rightarrow> bool" where
  "first_storing s p a x =
     (\<exists>pre post. xdev_list s = pre @ (a, x) # post \<and> pdev (conf x) = p
        \<and> (\<forall>e\<in>set pre. pdev (conf (snd e)) \<noteq> p))"


text \<open>A state with two attached devices, both functions in slot 1 of bus 3.\<close>

definition two_devices :: driver where
  "two_devices = bus_example\<lparr>xdev_list :=
     [(0x1000, xdev_of (conf_of 0x100)), (0x2000, xdev_of (conf_of 0x200))],
     claimed := {0x100, 0x200}\<rparr>"

text \<open>
  \<open>stored_ahead p h s\<close>: a device listed ahead of the device at address \<open>h\<close> stores the
  bus reference \<open>p\<close>.
\<close>

definition stored_ahead :: "addr \<Rightarrow> addr \<Rightarrow> driver \<Rightarrow> bool" where
  "stored_ahead p h s =
     (\<exists>e\<in>set (takeWhile (\<lambda>e. fst e \<noteq> h) (xdev_list s)). pdev (conf (snd e)) = p)"

text \<open>
  \<^verbatim>\<open>qdma_device_set_config\<close> followed by \<^verbatim>\<open>qdma_device_get_config\<close> on the same handle: the two
  return values and what the second call leaves in the caller's \<^verbatim>\<open>conf\<close>, which held \<open>c0\<close>.
\<close>

definition set_config_then_get_config ::
  "addr \<Rightarrow> qdma_dev_conf \<Rightarrow> qdma_dev_conf \<Rightarrow> driver
     \<Rightarrow> fault + (int \<times> int \<times> qdma_dev_conf option)" where
  "set_config_then_get_config h c c0 s =
     (case qdma_device_set_config h (Some c) s of
        Inl f \<Rightarrow> Inl f
      | Inr (rv1, s1) \<Rightarrow>
          (case qdma_device_get_config h (Some c0) s1 of
             Inl f \<Rightarrow> Inl f
           | Inr (rv2, out, s2) \<Rightarrow> Inr (rv1, rv2, out)))"

text \<open>The return value of a call, and an observation of the state after a
  \<^verbatim>\<open>qdma_device_set_config\<close>.\<close>

definition rv_of :: "fault + (int \<times> 'a) \<Rightarrow> fault + int" where
  "rv_of r = map_sum id fst r"

definition after_set_config ::
  "addr \<Rightarrow> qdma_dev_conf \<Rightarrow> driver \<Rightarrow> (driver \<Rightarrow> 'a) \<Rightarrow> fault + (int \<times> 'a)" where
  "after_set_config h c s obs =
     (case qdma_device_set_config h (Some c) s of
        Inl f \<Rightarrow> Inl f
      | Inr (rv, s1) \<Rightarrow> Inr (rv, obs s1))"

text \<open>
  \<^verbatim>\<open>xdev_list_add\<close> followed by \<^verbatim>\<open>xdev_list_dump\<close>: the length returned and the bytes stored
  at \<^verbatim>\<open>buf\<close>.
\<close>

definition dump_after_add ::
  "build \<Rightarrow> addr \<Rightarrow> xlnx_dma_dev \<Rightarrow> int \<Rightarrow> driver \<Rightarrow> fault + (int \<times> string)" where
  "dump_after_add B a x buflen s =
     (case xdev_list_add B a x s of
        Inl f \<Rightarrow> Inl f
      | Inr s1 \<Rightarrow>
          (case xdev_list_dump buflen s1 of
             Inl f \<Rightarrow> Inl f
           | Inr (len, bytes, s2) \<Rightarrow> Inr (len, bytes)))"

text \<open>Answers of the kernel and the rest of the driver with which every step succeeds.\<close>

definition env_ok :: env where
  "env_ok = \<lparr>request_regions_rv = 0, enable_device_rv = 0, set_dma_mask_64_rv = 0,
     set_dma_mask_32_rv = 0, kzalloc_ret = 0x3000, resource_len_config = 0x80000,
     iomap_config = 0xA0000, readl_id = 0x1FD30001, resource_len_stm = 0x20000,
     iomap_stm = 0xB0000, readl_stm_rev = 0x53544D04, readl_h2c_mode = 0,
     attr_flr_prsnt = True, attr_st_mode_en = True, attr_mm_mode_en = True,
     attr_mm_channel_max = 1, device_init_rv = 0, sriov_vf_online_rv = 0,
     sriov_enable_rv = 0\<rparr>"

text \<open>
  The offline flag of every listed device, and \<^verbatim>\<open>qdma_device_online\<close> observed through it.
\<close>

definition offline_flags :: "driver \<Rightarrow> (addr \<times> bool) list" where
  "offline_flags s = map (\<lambda>e. (fst e, flag_offline (snd e))) (xdev_list s)"

definition online_flags ::
  "build \<Rightarrow> env \<Rightarrow> addr \<Rightarrow> addr \<Rightarrow> driver \<Rightarrow> fault + (int \<times> (addr \<times> bool) list)" where
  "online_flags B E p h s =
     (case qdma_device_online B E p h s of
        Inl f \<Rightarrow> Inl f
      | Inr (rv, s') \<Rightarrow> Inr (rv, offline_flags s'))"

subsection \<open>Notions for open and close\<close>

text \<open>
  A listed device stores the bus reference \<open>p\<close>.
\<close>

definition attached :: "driver \<Rightarrow> addr \<Rightarrow> bool" where
  "attached s p \<longleftrightarrow> (\<exists>e\<in>set (xdev_list s). pdev (conf (snd e)) = p)"

text \<open>
  Every listed device stores a bus reference that points at a live \<^verbatim>\<open>struct pci_dev\<close>.
\<close>

definition pdevs_live :: "driver \<Rightarrow> bool" where
  "pdevs_live s \<longleftrightarrow> (\<forall>e\<in>set (xdev_list s). \<not> isl (pci_deref s (pdev (conf (snd e)))))"

text \<open>
  A call of \<^verbatim>\<open>qdma_device_open\<close> for the bus reference \<open>p\<close> that gets the address \<open>a\<close> from
  \<^verbatim>\<open>kzalloc\<close>: the address is not null and names no listed device, and no listed device stores
  \<open>p\<close>, which is not null.
\<close>

definition fresh_attach :: "driver \<Rightarrow> addr \<Rightarrow> addr \<Rightarrow> bool" where
  "fresh_attach s0 p a \<longleftrightarrow>
     a \<noteq> 0 \<and> a \<notin> fst ` set (xdev_list s0) \<and> p \<noteq> 0
     \<and> (\<forall>e\<in>set (xdev_list s0). pdev (conf (snd e)) \<noteq> p)"

text \<open>
  The states between \<^verbatim>\<open>xdev_list_add\<close> and the end of such a call, seen from the state \<open>s0\<close> it
  started in: the new device \<open>x\<close> is the last of the list and stores \<open>p\<close>, the regions of \<open>p\<close>
  are claimed, and nothing is mapped beyond what was mapped in \<open>s0\<close> and what the registers
  of \<open>x\<close> point at.
\<close>

definition attaching :: "driver \<Rightarrow> addr \<Rightarrow> addr \<Rightarrow> xlnx_dma_dev \<Rightarrow> driver \<Rightarrow> bool" where
  "attaching s0 p a x s \<longleftrightarrow>
     xdev_list s = xdev_list s0 @ [(a, x)] \<and> pdev (conf x) = p \<and> pci_devs s = pci_devs s0
     \<and> claimed s = insert p (claimed s0)
     \<and> iomapped s \<subseteq> iomapped s0 \<union> ({regs x, stm_regs x} - {0})
     \<and> (\<exists>cs. calls s = calls s0 @ cs)"

text \<open>
  The calls \<^verbatim>\<open>xdev_unmap_bars\<close> makes for a device \<open>x\<close>, and the calls \<^verbatim>\<open>qdma_device_offline\<close>
  makes once the handle is accepted.
\<close>

definition unmap_calls :: "addr \<Rightarrow> xlnx_dma_dev \<Rightarrow> call list" where
  "unmap_calls p x =
     (if regs x \<noteq> 0 then [Pci_iounmap p (regs x)] else [])
       @ (if stm_regs x \<noteq> 0 then [Pci_iounmap p (stm_regs x)] else [])"

definition offline_calls :: "build \<Rightarrow> addr \<Rightarrow> call list" where
  "offline_calls B h =
     (if QDMA_VF B then [Xdev_sriov_vf_offline h]
      else if CONFIG_PCI_IOV B then [Xdev_sriov_disable h] else [])
       @ [Qdma_device_cleanup h, Qdma_mbox_cleanup h]"

text \<open>
  The calls from the label \<^verbatim>\<open>unmap_bars\<close> on, after the regions are unmapped.
\<close>

definition unwind_calls :: "addr \<Rightarrow> addr \<Rightarrow> call list" where
  "unwind_calls a p = [Kfree a, Pci_disable_device p, Pci_release_regions p]"

text \<open>
  The calls \<^verbatim>\<open>xdev_unmap_bars\<close> makes after \<^verbatim>\<open>xdev_map_bars\<close> has succeeded.
\<close>

definition mapped_unmap_calls :: "build \<Rightarrow> env \<Rightarrow> addr \<Rightarrow> pci_dev \<Rightarrow> call list" where
  "mapped_unmap_calls B E p pd =
     [Pci_iounmap p (iomap_config E)]
       @ (if device pd = STM_ENABLED_DEVICE B then [Pci_iounmap p (iomap_stm E)] else [])"

text \<open>
  What \<^verbatim>\<open>qdma_device_online\<close> returns once the handle is accepted: the first negative answer
  among \<^verbatim>\<open>qdma_device_init\<close> and the role-specific step, else 0.
\<close>

definition online_rv :: "build \<Rightarrow> env \<Rightarrow> qdma_dev_conf \<Rightarrow> int" where
  "online_rv B E c =
     (if device_init_rv E < 0 then device_init_rv E
      else if QDMA_VF B then (if sriov_vf_online_rv E < 0 then sriov_vf_online_rv E else 0)
      else if CONFIG_PCI_IOV B \<and> vf_max c \<noteq> 0 \<and> sriov_enable_rv E < 0 then sriov_enable_rv E
      else 0)"

text \<open>
  The answers with which \<^verbatim>\<open>pci_dma_mask_set\<close> succeeds.
\<close>

definition mask_ok :: "env \<Rightarrow> bool" where
  "mask_ok E \<longleftrightarrow> set_dma_mask_64_rv E = 0 \<or> set_dma_mask_32_rv E = 0"

text \<open>
  The answers with which \<^verbatim>\<open>xdev_map_bars\<close> succeeds for the bus device \<open>pd\<close>.
\<close>

definition map_ok :: "build \<Rightarrow> env \<Rightarrow> pci_dev \<Rightarrow> bool" where
  "map_ok B E pd \<longleftrightarrow>
     iomap_config E \<noteq> 0
     \<and> (QDMA_VF B \<or> (readl_id E AND 0xFFFF0000) = 0x1FD30000)
     \<and> (device pd = STM_ENABLED_DEVICE B \<longrightarrow> iomap_stm E \<noteq> 0 \<and> stm_rev_ok B (readl_stm_rev E))"

text \<open>
  The answers with which the interface check of \<^verbatim>\<open>qdma_device_open\<close> passes.
\<close>

definition interface_ok :: "build \<Rightarrow> env \<Rightarrow> bool" where
  "interface_ok B E \<longleftrightarrow> QDMA_VF B \<or> attr_mm_mode_en E \<or> attr_st_mode_en E"

text \<open>
  A state in which a failed \<^verbatim>\<open>qdma_device_open\<close> for \<open>p\<close> has left nothing behind: the list is
  the one of \<open>s0\<close>, the regions of \<open>p\<close> are not claimed, and nothing is mapped that was not
  mapped in \<open>s0\<close>.
\<close>

definition no_trace :: "driver \<Rightarrow> addr \<Rightarrow> driver \<Rightarrow> bool" where
  "no_trace s0 p s' \<longleftrightarrow>
     xdev_list s' = xdev_list s0 \<and> claimed s' = claimed s0 - {p} \<and> iomapped s' \<subseteq> iomapped s0"

text \<open>
  What a call of \<^verbatim>\<open>qdma_device_open\<close> returns and leaves: its return value, the handle, the
  calls made and the claimed regions.
\<close>

definition open_observed :: "fault + open_result \<Rightarrow> fault + (int \<times> addr \<times> call list \<times> addr set)" where
  "open_observed r =
     map_sum id (\<lambda>r. (fst r, fst (snd (snd r)), calls (snd (snd (snd r))),
                       claimed (snd (snd (snd r))))) r"

section \<open>Properties of the device list\<close>

subsection \<open>Index assignment in xdev\_list\_add\<close>

lemma unat_ucast_8_32: "unat (ucast (a::8 word) :: 32 word) = unat a"
proof -
  have "unat a < 2 ^ 8" using unsigned_less [of a] by simp
  then have "unat a < 2 ^ 32" by simp
  then show ?thesis by (simp add: unsigned_ucast_eq take_bit_nat_eq_self)
qed

lemma ucast_8_32_inj: "(ucast (a::8 word) :: 32 word) = ucast b \<longleftrightarrow> a = b"
  by (metis unat_ucast_8_32 word_unat_eq_iff)

lemma ucast_8_32_zero: "(0 :: 32 word) = ucast (a::8 word) \<longleftrightarrow> a = 0"
  using ucast_8_32_inj [of 0 a] by simp

lemma pci_deref_cong: "pci_devs s' = pci_devs s \<Longrightarrow> pci_deref s' p = pci_deref s p"
  by (simp add: pci_deref_def)

lemma pci_deref_mutex_lock [simp]: "pci_deref (mutex_lock s) p = pci_deref s p"
  by (simp add: pci_deref_def mutex_lock_def)

lemma xdev_list_add_loop_append:
  "xdev_list_add_loop B s npd (xs @ ys) st =
     (case xdev_list_add_loop B s npd xs st of
        Inl f \<Rightarrow> Inl f
      | Inr st' \<Rightarrow> xdev_list_add_loop B s npd ys st')"
  by (induction xs arbitrary: st) (auto split: sum.splits)

lemma xdev_list_add_step_same:
  assumes "on_card B s b sl x" and "QDMA_VF B \<or> PCI_SLOT (devfn npd) = sl"
  shows "xdev_list_add_step B s npd x (i, ucast b, PCI_SLOT (devfn npd))
           = Inr (i + 1, ucast b, PCI_SLOT (devfn npd))"
  using assms by (auto simp: on_card_def xdev_list_add_step_def split: sum.splits)

lemma xdev_list_add_step_first:
  assumes "on_card B s b sl x" and "i = 0 \<or> b \<noteq> 0 \<or> (\<not> QDMA_VF B \<and> sl \<noteq> 0)"
  shows "xdev_list_add_step B s npd x (i, 0, 0) = Inr (1, ucast b, PCI_SLOT (devfn npd))"
  using assms
  by (auto simp: on_card_def xdev_list_add_step_def ucast_8_32_zero split: sum.splits)

lemma xdev_list_add_step_other_bus:
  assumes "on_card B s b' sl' x" and "b' \<noteq> b"
  shows "xdev_list_add_step B s npd x (i, ucast b, ld) = Inr (1, ucast b', PCI_SLOT (devfn npd))"
  using assms
  by (auto simp: on_card_def xdev_list_add_step_def ucast_8_32_inj split: sum.splits)

lemma xdev_list_add_loop_same:
  assumes "\<forall>e\<in>set L. on_card B s b sl (snd e)" and "QDMA_VF B \<or> PCI_SLOT (devfn npd) = sl"
  shows "xdev_list_add_loop B s npd L (i, ucast b, PCI_SLOT (devfn npd))
           = Inr (i + of_nat (length L), ucast b, PCI_SLOT (devfn npd))"
  using assms
proof (induction L arbitrary: i)
  case Nil
  then show ?case by simp
next
  case (Cons e L)
  then show ?case
    by (simp add: xdev_list_add_step_same [where b = b and sl = sl] add.assoc)
qed

lemma xdev_list_add_loop_card:
  assumes "\<forall>e\<in>set L. on_card B s b sl (snd e)" and "QDMA_VF B \<or> PCI_SLOT (devfn npd) = sl"
    and "i = 0 \<or> b \<noteq> 0 \<or> (\<not> QDMA_VF B \<and> sl \<noteq> 0)" and "L \<noteq> []"
  shows "xdev_list_add_loop B s npd L (i, 0, 0)
           = Inr (of_nat (length L), ucast b, PCI_SLOT (devfn npd))"
proof (cases L)
  case Nil
  with assms show ?thesis by simp
next
  case (Cons e L')
  with assms have "on_card B s b sl (snd e)" and "\<forall>e\<in>set L'. on_card B s b sl (snd e)"
    by simp_all
  with assms Cons show ?thesis
    by (simp add: xdev_list_add_step_first [where b = b and sl = sl]
          xdev_list_add_loop_same [where b = b and sl = sl])
qed


lemma on_card_cong: "pci_devs s' = pci_devs s \<Longrightarrow> on_card B s' b sl x = on_card B s b sl x"
  by (simp add: on_card_def pci_deref_def)

lemma on_card_mutex_lock [simp]: "on_card B (mutex_lock s) b sl x = on_card B s b sl x"
  by (simp add: on_card_def)

lemma on_card_bdf [simp]:
  "on_card B s b sl (x\<lparr>conf := (conf x)\<lparr>bdf := v\<rparr>\<rparr>) = on_card B s b sl x"
  by (simp add: on_card_def)

lemma xdev_list_add_step_ok:
  assumes "on_card B s b sl x"
  shows "\<exists>j. xdev_list_add_step B s npd x st = Inr (j, ucast b, PCI_SLOT (devfn npd))"
  using assms
  by (cases st) (auto simp: on_card_def xdev_list_add_step_def Let_def split: sum.splits)

lemma xdev_list_add_loop_last_bus:
  assumes "\<forall>e\<in>set L. on_card B s b sl (snd e)" and "L \<noteq> []"
  shows "\<exists>j. xdev_list_add_loop B s npd L st = Inr (j, ucast b, PCI_SLOT (devfn npd))"
  using assms
proof (induction L arbitrary: st)
  case Nil
  then show ?case by simp
next
  case (Cons e L)
  from Cons.prems obtain j where j:
    "xdev_list_add_step B s npd (snd e) st = Inr (j, ucast b, PCI_SLOT (devfn npd))"
    using xdev_list_add_step_ok [of B s b sl "snd e" npd st] by auto
  show ?case
  proof (cases L)
    case Nil
    with j show ?thesis by simp
  next
    case (Cons e' L')
    with Cons.IH [of "(j, ucast b, PCI_SLOT (devfn npd))"] Cons.prems j show ?thesis
      by simp
  qed
qed

lemma xdev_list_add_frame:
  assumes "xdev_list_add B a x s = Inr s'"
  shows "\<exists>b i. s' = s\<lparr>xdev_mutex := xdev_mutex s + 1,
           xdev_list := xdev_list s @
             [(a, x\<lparr>conf := (conf x)\<lparr>bdf := b, idx := i, cur_cfg_state := CFG_UNCONFIGURED\<rparr>\<rparr>)]\<rparr>"
  using assms
  by (auto simp: xdev_list_add_def Let_def mutex_lock_def split: sum.splits)

lemma xdev_list_add_same_card:
  assumes reg: "\<forall>e\<in>set (xdev_list s). on_card B s b sl (snd e)"
    and x: "on_card B s b sl x"
    and nz: "idx (conf x) = 0 \<or> b \<noteq> 0 \<or> (\<not> QDMA_VF B \<and> sl \<noteq> 0)"
  shows "\<exists>s' x'. xdev_list_add B a x s = Inr s' \<and> pci_devs s' = pci_devs s
           \<and> xdev_list s' = xdev_list s @ [(a, x')] \<and> pdev (conf x') = pdev (conf x)
           \<and> idx (conf x') = of_nat (Suc (length (xdev_list s)))"
proof -
  from x obtain npd where npd: "pci_deref s (pdev (conf x)) = Inr npd"
    and card: "QDMA_VF B \<or> PCI_SLOT (devfn npd) = sl"
    by (auto simp: on_card_def split: sum.splits)
  define b' where "b' = push_bit (PCI_SHIFT_BUS B) (ucast (bus_number npd))
                    OR push_bit (PCI_SHIFT_DEV B) (PCI_SLOT (devfn npd))
                    OR PCI_FUNC (devfn npd)"
  define x1 where "x1 = x\<lparr>conf := (conf x)\<lparr>bdf := b'\<rparr>\<rparr>"
  have all: "\<forall>e\<in>set (xdev_list s @ [(a, x1)]). on_card B (mutex_lock s) b sl (snd e)"
    using reg x by (auto simp: x1_def)
  have loop: "xdev_list_add_loop B (mutex_lock s) npd (xdev_list s @ [(a, x1)]) (idx (conf x1), 0, 0)
           = Inr (of_nat (length (xdev_list s @ [(a, x1)])), ucast b, PCI_SLOT (devfn npd))"
    using nz by (intro xdev_list_add_loop_card [OF all card]) (simp_all add: x1_def)
  show ?thesis
    using npd loop
    by (simp add: xdev_list_add_def Let_def b'_def [symmetric] x1_def [symmetric])
       (simp add: mutex_lock_def x1_def)
qed

lemma xdev_list_add_other_bus:
  assumes reg: "\<forall>e\<in>set (xdev_list s). on_card B s b sl (snd e)"
    and ne: "xdev_list s \<noteq> []"
    and y: "on_card B s b' sl' y" and diff: "b' \<noteq> b"
  shows "\<exists>s' y'. xdev_list_add B a y s = Inr s' \<and> xdev_list s' = xdev_list s @ [(a, y')]
           \<and> idx (conf y') = 1"
proof -
  from y obtain npd where npd: "pci_deref s (pdev (conf y)) = Inr npd"
    by (auto simp: on_card_def split: sum.splits)
  define b0 where "b0 = push_bit (PCI_SHIFT_BUS B) (ucast (bus_number npd))
                    OR push_bit (PCI_SHIFT_DEV B) (PCI_SLOT (devfn npd))
                    OR PCI_FUNC (devfn npd)"
  define y1 where "y1 = y\<lparr>conf := (conf y)\<lparr>bdf := b0\<rparr>\<rparr>"
  have reg': "\<forall>e\<in>set (xdev_list s). on_card B (mutex_lock s) b sl (snd e)"
    using reg by simp
  have y1: "on_card B (mutex_lock s) b' sl' y1"
    using y by (simp add: y1_def)
  from xdev_list_add_loop_last_bus [OF reg' ne, of npd "(idx (conf y1), 0, 0)"]
  obtain j where j: "xdev_list_add_loop B (mutex_lock s) npd (xdev_list s) (idx (conf y1), 0, 0)
      = Inr (j, ucast b, PCI_SLOT (devfn npd))" by blast
  have loop: "xdev_list_add_loop B (mutex_lock s) npd (xdev_list s @ [(a, y1)]) (idx (conf y1), 0, 0)
           = Inr (1, ucast b', PCI_SLOT (devfn npd))"
    using j xdev_list_add_step_other_bus [OF y1 diff, of npd j "PCI_SLOT (devfn npd)"]
    by (simp add: xdev_list_add_loop_append)
  show ?thesis
    using npd loop
    by (simp add: xdev_list_add_def Let_def b0_def [symmetric] y1_def [symmetric])
       (simp add: mutex_lock_def y1_def)
qed


lemma on_card_pdev_cong:
  "pdev (conf x') = pdev (conf x) \<Longrightarrow> on_card B s b sl x' = on_card B s b sl x"
  by (simp add: on_card_def)

lemma xdev_list_add_all_same_card:
  assumes "\<forall>e\<in>set (xdev_list s). on_card B s b sl (snd e)"
    and "\<forall>e\<in>set devs. on_card B s b sl (snd e)
           \<and> (idx (conf (snd e)) = 0 \<or> b \<noteq> 0 \<or> (\<not> QDMA_VF B \<and> sl \<noteq> 0))"
  shows "\<exists>s' new. xdev_list_add_all B devs s = Inr s' \<and> pci_devs s' = pci_devs s
           \<and> xdev_list s' = xdev_list s @ new \<and> map fst new = map fst devs
           \<and> (\<forall>k<length new. idx (conf (snd (new ! k))) = of_nat (length (xdev_list s) + Suc k))
           \<and> (\<forall>e\<in>set new. on_card B s b sl (snd e))"
  using assms
proof (induction devs arbitrary: s)
  case Nil
  then show ?case by simp
next
  case (Cons d devs)
  from Cons.prems have d: "on_card B s b sl (snd d)"
    and nz: "idx (conf (snd d)) = 0 \<or> b \<noteq> 0 \<or> (\<not> QDMA_VF B \<and> sl \<noteq> 0)"
    by simp_all
  from xdev_list_add_same_card [OF Cons.prems(1) d nz, of "fst d"]
  obtain s1 x' where s1: "xdev_list_add B (fst d) (snd d) s = Inr s1"
    and pci: "pci_devs s1 = pci_devs s"
    and l1: "xdev_list s1 = xdev_list s @ [(fst d, x')]"
    and p1: "pdev (conf x') = pdev (conf (snd d))"
    and i1: "idx (conf x') = of_nat (Suc (length (xdev_list s)))"
    by blast
  have x': "on_card B s b sl x'"
    using d by (simp add: on_card_pdev_cong [OF p1])
  have reg1: "\<forall>e\<in>set (xdev_list s1). on_card B s1 b sl (snd e)"
    using Cons.prems(1) x' by (auto simp: l1 on_card_cong [OF pci])
  have devs1: "\<forall>e\<in>set devs. on_card B s1 b sl (snd e)
           \<and> (idx (conf (snd e)) = 0 \<or> b \<noteq> 0 \<or> (\<not> QDMA_VF B \<and> sl \<noteq> 0))"
    using Cons.prems(2) by (simp add: on_card_cong [OF pci])
  from Cons.IH [OF reg1 devs1]
  obtain s' new where s': "xdev_list_add_all B devs s1 = Inr s'"
    and pci': "pci_devs s' = pci_devs s1"
    and l': "xdev_list s' = xdev_list s1 @ new"
    and f': "map fst new = map fst devs"
    and i': "\<forall>k<length new. idx (conf (snd (new ! k))) = of_nat (length (xdev_list s1) + Suc k)"
    and c': "\<forall>e\<in>set new. on_card B s1 b sl (snd e)"
    by blast
  have idx: "\<forall>k<length ((fst d, x') # new).
      idx (conf (snd (((fst d, x') # new) ! k))) = of_nat (length (xdev_list s) + Suc k)"
  proof (intro allI impI)
    fix k assume k: "k < length ((fst d, x') # new)"
    show "idx (conf (snd (((fst d, x') # new) ! k))) = of_nat (length (xdev_list s) + Suc k)"
    proof (cases k)
      case 0
      then show ?thesis using i1 by simp
    next
      case (Suc j)
      with k i' show ?thesis by (simp add: l1)
    qed
  qed
  have "xdev_list_add_all B (d # devs) s = Inr s'"
    using s1 s' by simp
  moreover have "pci_devs s' = pci_devs s"
    using pci pci' by simp
  moreover have "xdev_list s' = xdev_list s @ ((fst d, x') # new)"
    using l1 l' by simp
  moreover have "map fst ((fst d, x') # new) = map fst (d # devs)"
    using f' by simp
  moreover have "\<forall>e\<in>set ((fst d, x') # new). on_card B s b sl (snd e)"
    using x' c' by (simp add: on_card_cong [OF pci])
  ultimately show ?case using idx by blast
qed

lemma unat_of_nat_32: "n < 2 ^ 32 \<Longrightarrow> unat (of_nat n :: 32 word) = n"
  by (simp add: unat_of_nat)


text \<open>
  C1 (as amended). \<^verbatim>\<open>xdev_list_add\<close> takes the mutex once, appends the device and leaves
  every device already listed as it was: its pass over the list computes the index of the
  added device only, together with its \<open>bdf\<close> and configuration state. Starting from an
  empty list, adding \<open>N < 2^32\<close> devices of one card \<open>(b, sl)\<close> (each arriving with index 0,
  or the card not being bus 0, slot 0) returns, keeps the devices in insertion order and
  leaves them with the indices \<open>1..N\<close>. Adding one more device whose bus number differs
  from \<open>b\<close> gives that device index 1.
\<close>

theorem xdev_list_add_indices:
  assumes empty: "xdev_list s = []"
    and devs: "\<forall>e\<in>set devs. on_card B s b sl (snd e)
           \<and> (idx (conf (snd e)) = 0 \<or> b \<noteq> 0 \<or> (\<not> QDMA_VF B \<and> sl \<noteq> 0))"
    and len: "length devs < 2 ^ 32"
  shows "(\<forall>s0 s1. xdev_list_add B a x s0 = Inr s1 \<longrightarrow>
            (\<exists>v i. s1 = s0\<lparr>xdev_mutex := xdev_mutex s0 + 1,
               xdev_list := xdev_list s0 @
                 [(a, x\<lparr>conf := (conf x)\<lparr>bdf := v, idx := i, cur_cfg_state := CFG_UNCONFIGURED\<rparr>\<rparr>)]\<rparr>))
       \<and> (\<exists>s'. xdev_list_add_all B devs s = Inr s'
            \<and> map fst (xdev_list s') = map fst devs
            \<and> map (\<lambda>e. unat (idx (conf (snd e)))) (xdev_list s') = [1..<Suc (length devs)]
            \<and> (devs \<noteq> [] \<and> on_card B s b' sl' y \<and> b' \<noteq> b \<longrightarrow>
                 (\<exists>s'' y'. xdev_list_add B c y s' = Inr s''
                    \<and> xdev_list s'' = xdev_list s' @ [(c, y')] \<and> idx (conf y') = 1)))"
proof (intro conjI allI impI)
  fix s0 s1 assume "xdev_list_add B a x s0 = Inr s1"
  then show "\<exists>v i. s1 = s0\<lparr>xdev_mutex := xdev_mutex s0 + 1,
               xdev_list := xdev_list s0 @
                 [(a, x\<lparr>conf := (conf x)\<lparr>bdf := v, idx := i, cur_cfg_state := CFG_UNCONFIGURED\<rparr>\<rparr>)]\<rparr>"
    by (rule xdev_list_add_frame)
next
  have reg: "\<forall>e\<in>set (xdev_list s). on_card B s b sl (snd e)"
    using empty by simp
  from xdev_list_add_all_same_card [OF reg devs]
  obtain s' new where s': "xdev_list_add_all B devs s = Inr s'"
    and pci: "pci_devs s' = pci_devs s"
    and l': "xdev_list s' = new"
    and f': "map fst new = map fst devs"
    and i': "\<forall>k<length new. idx (conf (snd (new ! k))) = of_nat (Suc k)"
    and c': "\<forall>e\<in>set new. on_card B s b sl (snd e)"
    using empty by auto
  have n: "length new = length devs"
    using f' by (metis length_map)
  have idx: "map (\<lambda>e. unat (idx (conf (snd e)))) new = [1..<Suc (length devs)]"
  proof (rule nth_equalityI)
    show "length (map (\<lambda>e. unat (idx (conf (snd e)))) new) = length [1..<Suc (length devs)]"
      using n by (simp del: upt_Suc)
  next
    fix k assume "k < length (map (\<lambda>e. unat (idx (conf (snd e)))) new)"
    then have k: "k < length devs" using n by simp
    then have "Suc k < 2 ^ 32" using len by simp
    then have "unat (of_nat (Suc k) :: 32 word) = Suc k"
      by (rule unat_of_nat_32)
    with k i' n show "map (\<lambda>e. unat (idx (conf (snd e)))) new ! k = [1..<Suc (length devs)] ! k"
      by (simp del: of_nat_Suc upt_Suc)
  qed
  have other: "\<exists>s'' y'. xdev_list_add B c y s' = Inr s''
                    \<and> xdev_list s'' = xdev_list s' @ [(c, y')] \<and> idx (conf y') = 1"
    if "devs \<noteq> [] \<and> on_card B s b' sl' y \<and> b' \<noteq> b"
  proof -
    have reg': "\<forall>e\<in>set (xdev_list s'). on_card B s' b sl (snd e)"
      using c' by (simp add: l' on_card_cong [OF pci])
    have ne: "xdev_list s' \<noteq> []"
      using that n l' by auto
    have y: "on_card B s' b' sl' y"
      using that by (simp add: on_card_cong [OF pci])
    from that have diff: "b' \<noteq> b" by simp
    show ?thesis
      by (rule xdev_list_add_other_bus [OF reg' ne y diff])
  qed
  show "\<exists>s'. xdev_list_add_all B devs s = Inr s'
            \<and> map fst (xdev_list s') = map fst devs
            \<and> map (\<lambda>e. unat (idx (conf (snd e)))) (xdev_list s') = [1..<Suc (length devs)]
            \<and> (devs \<noteq> [] \<and> on_card B s b' sl' y \<and> b' \<noteq> b \<longrightarrow>
                 (\<exists>s'' y'. xdev_list_add B c y s' = Inr s''
                    \<and> xdev_list s'' = xdev_list s' @ [(c, y')] \<and> idx (conf y') = 1))"
    using s' f' idx other by (auto simp: l')
qed


theorem xdev_list_add_indices_witness:
  "(\<exists>s'. xdev_list_add_all pf_build
       [(0x1000, xdev_of (conf_of 0x100)), (0x2000, xdev_of (conf_of 0x200))] bus_example = Inr s'
     \<and> map fst (xdev_list s') = [0x1000, 0x2000]
     \<and> map (\<lambda>e. unat (idx (conf (snd e)))) (xdev_list s') = [1, 2]
     \<and> (\<exists>s'' y'. xdev_list_add pf_build 0x3000 (xdev_of (conf_of 0x400)) s' = Inr s''
           \<and> xdev_list s'' = xdev_list s' @ [(0x3000, y')] \<and> idx (conf y') = 1))"
proof -
  define devs :: "(addr \<times> xlnx_dma_dev) list"
    where "devs = [(0x1000, xdev_of (conf_of 0x100)), (0x2000, xdev_of (conf_of 0x200))]"
  have c1: "on_card pf_build bus_example 3 1 (xdev_of (conf_of 0x100))"
    by (simp add: on_card_def pci_deref_def bus_example_def xdev_of_def conf_of_def
          pci_dev_at_def PCI_SLOT_def pf_build_def)
  have c2: "on_card pf_build bus_example 3 1 (xdev_of (conf_of 0x200))"
    by (simp add: on_card_def pci_deref_def bus_example_def xdev_of_def conf_of_def
          pci_dev_at_def PCI_SLOT_def pf_build_def)
  have c3: "on_card pf_build bus_example 4 1 (xdev_of (conf_of 0x400))"
    by (simp add: on_card_def pci_deref_def bus_example_def xdev_of_def conf_of_def
          pci_dev_at_def PCI_SLOT_def pf_build_def)
  have e: "xdev_list bus_example = []"
    by (simp add: bus_example_def)
  have d: "\<forall>e\<in>set devs. on_card pf_build bus_example 3 1 (snd e)
             \<and> (idx (conf (snd e)) = 0 \<or> (3 :: 8 word) \<noteq> 0
                  \<or> (\<not> QDMA_VF pf_build \<and> (1 :: 32 word) \<noteq> 0))"
    using c1 c2 by (simp add: devs_def)
  have l: "length devs < 2 ^ 32"
    by (simp add: devs_def)
  from xdev_list_add_indices [OF e d l, where b' = 4 and sl' = 1
      and y = "xdev_of (conf_of 0x400)" and c = "0x3000"]
  obtain s' where a: "xdev_list_add_all pf_build devs bus_example = Inr s'"
    and f: "map fst (xdev_list s') = map fst devs"
    and i: "map (\<lambda>e. unat (idx (conf (snd e)))) (xdev_list s') = [1..<Suc (length devs)]"
    and o: "devs \<noteq> [] \<and> on_card pf_build bus_example 4 1 (xdev_of (conf_of 0x400))
              \<and> (4 :: 8 word) \<noteq> 3 \<longrightarrow>
            (\<exists>s'' y'. xdev_list_add pf_build 0x3000 (xdev_of (conf_of 0x400)) s' = Inr s''
               \<and> xdev_list s'' = xdev_list s' @ [(0x3000, y')] \<and> idx (conf y') = 1)"
    by blast
  have f': "map fst (xdev_list s') = [0x1000, 0x2000]"
    using f by (simp add: devs_def)
  have "[1..<Suc (length devs)] = [1, 2]"
    by (simp add: devs_def upt_rec)
  with i have i': "map (\<lambda>e. unat (idx (conf (snd e)))) (xdev_list s') = [1, 2]"
    by simp
  have "devs \<noteq> []" by (simp add: devs_def)
  with o c3 have o': "\<exists>s'' y'. xdev_list_add pf_build 0x3000 (xdev_of (conf_of 0x400)) s' = Inr s''
               \<and> xdev_list s'' = xdev_list s' @ [(0x3000, y')] \<and> idx (conf y') = 1"
    by simp
  show ?thesis
    by (rule exI [of _ s'], intro conjI) (rule a [unfolded devs_def] f' i' o')+
qed


text \<open>
  C1 as stated fails twice. On a build for physical functions, a device in slot 2 of bus 3
  added after a device in slot 1 of bus 3 is on a different card and gets index 2, not 1.
  And a listed device whose index is 7 keeps it when a second device of its card is added:
  the pass does not recompute the indices of the devices already listed.
\<close>

theorem xdev_list_add_indices_counterexample:
  "indices_of (xdev_list_add_all pf_build
       [(0x1000, xdev_of (conf_of 0x100)), (0x2000, xdev_of (conf_of 0x300))] bus_example)
     = Inr [1, 2]
   \<and> indices_of (xdev_list_add pf_build 0x2000 (xdev_of (conf_of 0x200))
         (bus_example\<lparr>xdev_list := [(0x1000, xdev_of ((conf_of 0x100)\<lparr>idx := 7\<rparr>))]\<rparr>))
     = Inr [7, 2]"
  by (simp add: indices_of_def xdev_list_add_def xdev_list_add_step_def pci_deref_def
        mutex_lock_def pf_build_def bus_example_def xdev_of_def conf_of_def pci_dev_at_def
        PCI_SLOT_def PCI_FUNC_def CFG_UNCONFIGURED_def Let_def)

section \<open>Properties of handle validation\<close>

lemma find_first_storing:
  "find (\<lambda>e. pdev (conf (snd e)) = p) (xdev_list s) = Some (a, x) \<longleftrightarrow> first_storing s p a x"
proof
  assume "find (\<lambda>e. pdev (conf (snd e)) = p) (xdev_list s) = Some (a, x)"
  then obtain i where i: "i < length (xdev_list s)" "pdev (conf (snd (xdev_list s ! i))) = p"
    "(a, x) = xdev_list s ! i" "\<forall>j<i. pdev (conf (snd (xdev_list s ! j))) \<noteq> p"
    by (auto simp: find_Some_iff)
  have "xdev_list s = take i (xdev_list s) @ (a, x) # drop (Suc i) (xdev_list s)"
    using i by (simp add: id_take_nth_drop)
  moreover have "\<forall>e\<in>set (take i (xdev_list s)). pdev (conf (snd e)) \<noteq> p"
  proof
    fix e assume "e \<in> set (take i (xdev_list s))"
    then obtain j where "j < i" and "e = xdev_list s ! j"
      using i(1) by (auto simp: in_set_conv_nth)
    with i(4) show "pdev (conf (snd e)) \<noteq> p" by simp
  qed
  moreover have "pdev (conf x) = p"
    using i by (metis snd_conv)
  ultimately show "first_storing s p a x"
    unfolding first_storing_def by blast
next
  assume "first_storing s p a x"
  then obtain pre post where l: "xdev_list s = pre @ (a, x) # post" and p: "pdev (conf x) = p"
    and n: "\<forall>e\<in>set pre. pdev (conf (snd e)) \<noteq> p"
    unfolding first_storing_def by blast
  have "find (\<lambda>e. pdev (conf (snd e)) = p) (pre @ (a, x) # post) = Some (a, x)"
    using p n by (induction pre) auto
  then show "find (\<lambda>e. pdev (conf (snd e)) = p) (xdev_list s) = Some (a, x)"
    by (simp add: l)
qed

lemma find_none_storing:
  "find (\<lambda>e. pdev (conf (snd e)) = p) (xdev_list s) = None
     \<longleftrightarrow> (\<forall>e\<in>set (xdev_list s). pdev (conf (snd e)) \<noteq> p)"
  unfolding find_None_iff by fastforce

lemma find_Some_holds: "find P xs = Some y \<Longrightarrow> P y"
  by (auto simp: find_Some_iff)

lemma xdev_check_hndl_rv:
  "fst (xdev_check_hndl p h s) =
     (if p \<noteq> 0 \<and> (\<exists>x. find (\<lambda>e. pdev (conf (snd e)) = p) (xdev_list s) = Some (h, x))
      then 0 else - EINVAL)"
  by (auto simp: xdev_check_hndl_def xdev_find_by_pdev_def EINVAL_def
      split: option.splits dest: find_Some_holds)

lemma xdev_check_hndl_state:
  "snd (xdev_check_hndl p h s) = (if p = 0 then s else mutex_lock s)"
  by (auto simp: xdev_check_hndl_def xdev_find_by_pdev_def split: option.splits)


lemma EINVAL_neg: "- EINVAL < 0"
  by (simp add: EINVAL_def)

text \<open>
  C5 (as amended). \<^verbatim>\<open>xdev_check_hndl\<close> succeeds (returns 0) if and only if the bus reference
  is not null and the first listed device that stores it, the one \<^verbatim>\<open>xdev_find_by_pdev\<close> finds,
  is the device the handle names; a later device that stores the same reference does not
  count. Every other result is \<open>- EINVAL\<close>, a negative value. Each
  cause rejects on its own: a null bus reference; no listed device storing the reference;
  the device found not being the one the handle names; and, the addresses of the listed
  devices being distinct, the device the handle names storing another bus reference.
\<close>

theorem xdev_check_hndl_iff:
  "(fst (xdev_check_hndl p h s) = 0 \<longleftrightarrow> p \<noteq> 0 \<and> (\<exists>x. first_storing s p h x))
   \<and> (fst (xdev_check_hndl p h s) \<noteq> 0 \<longrightarrow>
        fst (xdev_check_hndl p h s) = - EINVAL \<and> fst (xdev_check_hndl p h s) < 0)
   \<and> (p = 0 \<longrightarrow> fst (xdev_check_hndl p h s) \<noteq> 0)
   \<and> ((\<forall>e\<in>set (xdev_list s). pdev (conf (snd e)) \<noteq> p) \<longrightarrow> fst (xdev_check_hndl p h s) \<noteq> 0)
   \<and> ((\<exists>a x. first_storing s p a x \<and> a \<noteq> h) \<longrightarrow> fst (xdev_check_hndl p h s) \<noteq> 0)
   \<and> (distinct (map fst (xdev_list s)) \<and> (\<exists>x. (h, x) \<in> set (xdev_list s) \<and> pdev (conf x) \<noteq> p)
        \<longrightarrow> fst (xdev_check_hndl p h s) \<noteq> 0)"
proof (intro conjI impI)
  show iff: "fst (xdev_check_hndl p h s) = 0 \<longleftrightarrow> p \<noteq> 0 \<and> (\<exists>x. first_storing s p h x)"
    by (simp add: xdev_check_hndl_rv find_first_storing EINVAL_def)
  show "fst (xdev_check_hndl p h s) = - EINVAL" if "fst (xdev_check_hndl p h s) \<noteq> 0"
    using that by (simp add: xdev_check_hndl_rv split: if_splits)
  show "fst (xdev_check_hndl p h s) < 0" if "fst (xdev_check_hndl p h s) \<noteq> 0"
    using that by (simp add: xdev_check_hndl_rv EINVAL_def split: if_splits)
  show "fst (xdev_check_hndl p h s) \<noteq> 0" if "p = 0"
    using that by (simp add: xdev_check_hndl_rv EINVAL_def)
  show "fst (xdev_check_hndl p h s) \<noteq> 0" if "\<forall>e\<in>set (xdev_list s). pdev (conf (snd e)) \<noteq> p"
    using that by (simp add: xdev_check_hndl_rv find_none_storing [THEN iffD2] EINVAL_def)
  show "fst (xdev_check_hndl p h s) \<noteq> 0" if "\<exists>a x. first_storing s p a x \<and> a \<noteq> h"
  proof -
    from that obtain a x where "find (\<lambda>e. pdev (conf (snd e)) = p) (xdev_list s) = Some (a, x)"
      and "a \<noteq> h" by (auto simp: find_first_storing)
    then show ?thesis by (simp add: xdev_check_hndl_rv EINVAL_def)
  qed
  show "fst (xdev_check_hndl p h s) \<noteq> 0"
    if "distinct (map fst (xdev_list s)) \<and> (\<exists>x. (h, x) \<in> set (xdev_list s) \<and> pdev (conf x) \<noteq> p)"
  proof
    assume "fst (xdev_check_hndl p h s) = 0"
    with iff obtain y where "first_storing s p h y" by blast
    then have y: "(h, y) \<in> set (xdev_list s)" and py: "pdev (conf y) = p"
      by (auto simp: first_storing_def)
    from that obtain x where x: "(h, x) \<in> set (xdev_list s)" and px: "pdev (conf x) \<noteq> p"
      by blast
    from that have "distinct (map fst (xdev_list s))" by simp
    with x y have "x = y" by (meson eq_key_imp_eq_value)
    with px py show False by simp
  qed
qed


theorem xdev_check_hndl_iff_witness:
  "fst (xdev_check_hndl 0x100 0x1000 two_devices) = 0
   \<and> fst (xdev_check_hndl 0 0x1000 two_devices) = - EINVAL
   \<and> fst (xdev_check_hndl 0x300 0x1000 two_devices) = - EINVAL
   \<and> fst (xdev_check_hndl 0x100 0x2000 two_devices) = - EINVAL
   \<and> fst (xdev_check_hndl 0x200 0x1000 two_devices) = - EINVAL"
proof -
  have f: "first_storing two_devices 0x100 0x1000 (xdev_of (conf_of 0x100))"
    unfolding first_storing_def
    by (rule exI [of _ "[]"], rule exI [of _ "[(0x2000, xdev_of (conf_of 0x200))]"])
       (simp add: two_devices_def bus_example_def xdev_of_def conf_of_def)
  have n: "\<forall>e\<in>set (xdev_list two_devices). pdev (conf (snd e)) \<noteq> 0x300"
    by (simp add: two_devices_def bus_example_def xdev_of_def conf_of_def)
  have d: "distinct (map fst (xdev_list two_devices))
     \<and> (\<exists>x. (0x1000, x) \<in> set (xdev_list two_devices) \<and> pdev (conf x) \<noteq> 0x200)"
    by (simp add: two_devices_def bus_example_def xdev_of_def conf_of_def)
  have m: "\<exists>a x. first_storing two_devices 0x100 a x \<and> a \<noteq> 0x2000"
    using f by (intro exI [of _ "0x1000"] exI [of _ "xdev_of (conf_of 0x100)"]) simp
  have 1: "fst (xdev_check_hndl 0x100 0x1000 two_devices) = 0"
    using xdev_check_hndl_iff [of "0x100" "0x1000" two_devices] f by auto
  have 2: "fst (xdev_check_hndl 0 0x1000 two_devices) = - EINVAL"
    using xdev_check_hndl_iff [of 0 "0x1000" two_devices] by auto
  have 3: "fst (xdev_check_hndl 0x300 0x1000 two_devices) = - EINVAL"
    using xdev_check_hndl_iff [of "0x300" "0x1000" two_devices] n by auto
  have 4: "fst (xdev_check_hndl 0x100 0x2000 two_devices) = - EINVAL"
    using xdev_check_hndl_iff [of "0x100" "0x2000" two_devices] m by auto
  have 5: "fst (xdev_check_hndl 0x200 0x1000 two_devices) = - EINVAL"
    using xdev_check_hndl_iff [of "0x200" "0x1000" two_devices] d by auto
  from 1 2 3 4 5 show ?thesis by blast
qed

text \<open>
  C5 as stated fails once two listed devices store the same bus reference, a state
  \<^verbatim>\<open>qdma_device_set_config\<close> produces. The second device is listed, stores the reference
  \<open>0x100\<close>, and \<open>0x2000\<close> is its handle; yet \<^verbatim>\<open>xdev_check_hndl\<close> with that reference and that
  handle returns \<open>- EINVAL\<close>, because the lookup stops at the first device, whose handle
  \<open>0x1000\<close> is the only one accepted.
\<close>

theorem xdev_check_hndl_counterexample:
  "after_set_config 0x2000 (conf_of 0x100) two_devices
       (\<lambda>s. (map (\<lambda>e. (fst e, pdev (conf (snd e)))) (xdev_list s),
              fst (xdev_check_hndl 0x100 0x2000 s), fst (xdev_check_hndl 0x100 0x1000 s)))
     = Inr (0, [(0x1000, 0x100), (0x2000, 0x100)], - EINVAL, 0)"
  by (simp add: after_set_config_def qdma_device_set_config_def xdev_check_hndl_def
        xdev_find_by_pdev_def xdev_deref_def xdev_store_def mutex_lock_def two_devices_def
        bus_example_def xdev_of_def conf_of_def EINVAL_def)

section \<open>Properties of the entry points\<close>

text \<open>
  C9. With a null handle \<^verbatim>\<open>qdma_device_online\<close> returns \<open>- EINVAL\<close>, and
  \<^verbatim>\<open>qdma_device_offline\<close> and \<^verbatim>\<open>qdma_device_close\<close> return, for every bus reference and in
  every state, and the state is the one they started in: the mutex has not been taken (no
  lookup), no device has changed and no call has been made.
\<close>

theorem null_handle_returns:
  "qdma_device_online B E p 0 s = Inr (- EINVAL, s) \<and> - EINVAL < 0
   \<and> qdma_device_offline B p 0 s = Inr s
   \<and> qdma_device_close B p 0 s = Inr s"
  by (simp add: qdma_device_online_def qdma_device_offline_def qdma_device_close_def EINVAL_def)

theorem null_handle_returns_witness:
  "qdma_device_online pf_build env_ok 0x100 0 two_devices = Inr (- EINVAL, two_devices)
   \<and> qdma_device_offline pf_build 0x100 0 two_devices = Inr two_devices
   \<and> qdma_device_close pf_build 0x100 0 two_devices = Inr two_devices"
  using null_handle_returns [of pf_build env_ok "0x100" two_devices] by simp

lemma xdev_deref_mutex_lock [simp]: "xdev_deref (mutex_lock s) h = xdev_deref s h"
  by (simp add: xdev_deref_def mutex_lock_def)

lemma xdev_deref_log_call [simp]: "xdev_deref (log_call c s) h = xdev_deref s h"
  by (simp add: xdev_deref_def log_call_def)

lemma map_of_store:
  "map_of (map (\<lambda>(a, x). if a = h then (a, f x) else (a, x)) l) k
     = (if k = h then map_option f (map_of l k) else map_of l k)"
  by (induction l) auto

lemma xdev_deref_store:
  "xdev_deref (xdev_store h f s) k
     = (if k = h then map_sum id f (xdev_deref s k) else xdev_deref s k)"
  by (simp add: xdev_deref_def xdev_store_def map_of_store split: option.splits)

text \<open>
  C6. \<^verbatim>\<open>qdma_device_set_cfg_state\<close> answers every state above \<open>CFG_USER\<close> with \<open>- EINVAL\<close>
  in an unchanged state, whatever the handle is, even one that points at no device: the
  handle is neither read nor checked (the check would take the mutex). The configuration
  state is an unsigned value and \<open>CFG_UNCONFIGURED\<close> is 0, so no value lies below the range.
  Every state up to \<open>CFG_USER\<close>, the two ends \<open>CFG_UNCONFIGURED\<close> and \<open>CFG_USER\<close> among
  them, is stored in the device when the handle passes the check, and 0 is returned.
\<close>

theorem set_cfg_state_range:
  "(CFG_USER B < st \<longrightarrow> qdma_device_set_cfg_state B h st s = Inr (- EINVAL, s))
   \<and> (st \<le> CFG_USER B \<and> xdev_deref s h = Inr x \<and> fst (xdev_check_hndl (pdev (conf x)) h s) = 0
        \<longrightarrow> (\<exists>s'. qdma_device_set_cfg_state B h st s = Inr (0, s')
               \<and> xdev_deref s' h = Inr (x\<lparr>conf := (conf x)\<lparr>cur_cfg_state := st\<rparr>\<rparr>)))
   \<and> CFG_UNCONFIGURED \<le> CFG_USER B \<and> CFG_USER B \<le> CFG_USER B"
proof (intro conjI impI)
  show "qdma_device_set_cfg_state B h st s = Inr (- EINVAL, s)" if "CFG_USER B < st"
    using that by (simp add: qdma_device_set_cfg_state_def)
  show "\<exists>s'. qdma_device_set_cfg_state B h st s = Inr (0, s')
               \<and> xdev_deref s' h = Inr (x\<lparr>conf := (conf x)\<lparr>cur_cfg_state := st\<rparr>\<rparr>)"
    if "st \<le> CFG_USER B \<and> xdev_deref s h = Inr x \<and> fst (xdev_check_hndl (pdev (conf x)) h s) = 0"
  proof -
    from that have p: "pdev (conf x) \<noteq> 0"
      by (auto simp: xdev_check_hndl_rv EINVAL_def split: if_splits)
    have c: "xdev_check_hndl (pdev (conf x)) h s = (0, mutex_lock s)"
      using that p xdev_check_hndl_state [of "pdev (conf x)" h s]
      by (simp add: prod_eq_iff)
    show ?thesis
      using that c by (simp add: qdma_device_set_cfg_state_def xdev_deref_store not_less [symmetric])
  qed
  show "CFG_UNCONFIGURED \<le> CFG_USER B"
    by (simp add: CFG_UNCONFIGURED_def)
qed simp


theorem set_cfg_state_range_witness:
  "qdma_device_set_cfg_state pf_build 0x1000 3 two_devices = Inr (- EINVAL, two_devices)
   \<and> (\<exists>s'. qdma_device_set_cfg_state pf_build 0x1000 (CFG_USER pf_build) two_devices = Inr (0, s')
         \<and> xdev_deref s' 0x1000
             = Inr (xdev_of ((conf_of 0x100)\<lparr>cur_cfg_state := CFG_USER pf_build\<rparr>)))
   \<and> (\<exists>s'. qdma_device_set_cfg_state pf_build 0x1000 CFG_UNCONFIGURED two_devices = Inr (0, s')
         \<and> xdev_deref s' 0x1000
             = Inr (xdev_of ((conf_of 0x100)\<lparr>cur_cfg_state := CFG_UNCONFIGURED\<rparr>)))"
proof -
  have big: "CFG_USER pf_build < 3"
    by (simp add: pf_build_def)
  have x: "xdev_deref two_devices 0x1000 = Inr (xdev_of (conf_of 0x100))"
    by (simp add: xdev_deref_def two_devices_def bus_example_def)
  have p: "pdev (conf (xdev_of (conf_of 0x100))) = 0x100"
    by (simp add: xdev_of_def conf_of_def)
  have ok: "fst (xdev_check_hndl (pdev (conf (xdev_of (conf_of 0x100)))) 0x1000 two_devices) = 0"
    by (simp add: p xdev_check_hndl_def xdev_find_by_pdev_def two_devices_def bus_example_def
          xdev_of_def conf_of_def)
  have u: "xdev_of (conf_of 0x100)\<lparr>conf := (conf (xdev_of (conf_of 0x100)))\<lparr>cur_cfg_state := v\<rparr>\<rparr>
             = xdev_of ((conf_of 0x100)\<lparr>cur_cfg_state := v\<rparr>)" for v
    by (simp add: xdev_of_def)
  have low: "CFG_UNCONFIGURED \<le> CFG_USER pf_build"
    using set_cfg_state_range [of pf_build] by blast
  have 1: "qdma_device_set_cfg_state pf_build 0x1000 3 two_devices = Inr (- EINVAL, two_devices)"
    using set_cfg_state_range [of pf_build 3 "0x1000" two_devices] big by blast
  have 2: "\<exists>s'. qdma_device_set_cfg_state pf_build 0x1000 (CFG_USER pf_build) two_devices = Inr (0, s')
         \<and> xdev_deref s' 0x1000
             = Inr (xdev_of ((conf_of 0x100)\<lparr>cur_cfg_state := CFG_USER pf_build\<rparr>))"
    using set_cfg_state_range [of pf_build "CFG_USER pf_build" "0x1000" two_devices
        "xdev_of (conf_of 0x100)"] x ok
    by (simp add: u)
  have 3: "\<exists>s'. qdma_device_set_cfg_state pf_build 0x1000 CFG_UNCONFIGURED two_devices = Inr (0, s')
         \<and> xdev_deref s' 0x1000
             = Inr (xdev_of ((conf_of 0x100)\<lparr>cur_cfg_state := CFG_UNCONFIGURED\<rparr>))"
    using set_cfg_state_range [of pf_build CFG_UNCONFIGURED "0x1000" two_devices
        "xdev_of (conf_of 0x100)"] x ok low
    by (simp add: u)
  from 1 2 3 show ?thesis by blast
qed

section \<open>Properties of configuration access\<close>

lemma map_of_split:
  "map_of l h = Some x \<Longrightarrow>
     l = takeWhile (\<lambda>e. fst e \<noteq> h) l @ (h, x) # tl (dropWhile (\<lambda>e. fst e \<noteq> h) l)"
  by (induction l) (auto split: if_splits)

lemma find_own:
  assumes "P (h, x)" and "\<forall>e\<in>set pre. fst e \<noteq> h"
  shows "(\<exists>y. find P (pre @ (h, x) # post) = Some (h, y)) \<longleftrightarrow> (\<forall>e\<in>set pre. \<not> P e)"
  using assms by (induction pre) auto

lemma xdev_check_hndl_own:
  assumes "xdev_deref s h = Inr x"
  shows "fst (xdev_check_hndl (pdev (conf x)) h s)
           = (if pdev (conf x) \<noteq> 0 \<and> \<not> stored_ahead (pdev (conf x)) h s then 0 else - EINVAL)"
proof -
  define pre where "pre = takeWhile (\<lambda>e. fst e \<noteq> h) (xdev_list s)"
  define post where "post = tl (dropWhile (\<lambda>e. fst e \<noteq> h) (xdev_list s))"
  from assms have "map_of (xdev_list s) h = Some x"
    by (auto simp: xdev_deref_def split: if_splits option.splits)
  then have l: "xdev_list s = pre @ (h, x) # post"
    unfolding pre_def post_def by (rule map_of_split)
  have keys: "\<forall>e\<in>set pre. fst e \<noteq> h"
    unfolding pre_def by (auto dest: set_takeWhileD)
  have "(\<exists>y. find (\<lambda>e. pdev (conf (snd e)) = pdev (conf x)) (pre @ (h, x) # post) = Some (h, y))
          \<longleftrightarrow> (\<forall>e\<in>set pre. \<not> pdev (conf (snd e)) = pdev (conf x))"
    using keys by (intro find_own) simp_all
  then have fnd: "(\<exists>y. find (\<lambda>e. pdev (conf (snd e)) = pdev (conf x)) (xdev_list s) = Some (h, y))
          \<longleftrightarrow> \<not> stored_ahead (pdev (conf x)) h s"
    unfolding stored_ahead_def pre_def [symmetric] by (simp only: l [symmetric]) simp
  show ?thesis
    by (simp only: xdev_check_hndl_rv fnd)
qed

lemma takeWhile_store:
  "takeWhile (\<lambda>e. fst e \<noteq> h) (map (\<lambda>(a, x). if a = h then (a, f x) else (a, x)) l)
     = takeWhile (\<lambda>e. fst e \<noteq> h) l"
  by (induction l) (auto split: if_splits)

lemma stored_ahead_store [simp]: "stored_ahead p h (xdev_store h f s) = stored_ahead p h s"
  by (simp add: stored_ahead_def xdev_store_def takeWhile_store)

lemma stored_ahead_mutex_lock [simp]: "stored_ahead p h (mutex_lock s) = stored_ahead p h s"
  by (simp add: stored_ahead_def mutex_lock_def)

lemma xdev_check_hndl_pair:
  "fst (xdev_check_hndl p h s) = rv \<Longrightarrow> p \<noteq> 0 \<Longrightarrow> xdev_check_hndl p h s = (rv, mutex_lock s)"
  by (simp add: prod_eq_iff xdev_check_hndl_state)

lemma xdev_check_hndl_null: "xdev_check_hndl 0 h s = (- EINVAL, s)"
  by (simp add: xdev_check_hndl_def)

lemma set_config_get_config_general:
  assumes "xdev_deref s h = Inr x" and "fst (xdev_check_hndl (pdev (conf x)) h s) = 0"
  shows "set_config_then_get_config h c c0 s =
           Inr (0, if pdev c \<noteq> 0 \<and> \<not> stored_ahead (pdev c) h s then (0, Some c)
                   else (- EINVAL, Some c0))"
proof -
  from assms have p: "pdev (conf x) \<noteq> 0"
    by (auto simp: xdev_check_hndl_rv EINVAL_def split: if_splits)
  define s1 where "s1 = xdev_store h (\<lambda>x. x\<lparr>conf := c\<rparr>) (mutex_lock s)"
  have set: "qdma_device_set_config h (Some c) s = Inr (0, s1)"
    using assms(1) xdev_check_hndl_pair [OF assms(2) p]
    by (simp add: qdma_device_set_config_def s1_def)
  have d1: "xdev_deref s1 h = Inr (x\<lparr>conf := c\<rparr>)"
    using assms by (simp add: s1_def xdev_deref_store)
  have c1: "fst (xdev_check_hndl (pdev c) h s1)
              = (if pdev c \<noteq> 0 \<and> \<not> stored_ahead (pdev c) h s then 0 else - EINVAL)"
    using xdev_check_hndl_own [OF d1] by (simp add: s1_def)
  show ?thesis
  proof (cases "pdev c = 0")
    case True
    then show ?thesis
      using set d1
      by (simp add: set_config_then_get_config_def qdma_device_get_config_def EINVAL_def
            xdev_check_hndl_null)
  next
    case False
    then show ?thesis
      using set d1 xdev_check_hndl_pair [OF c1 False]
      by (simp add: set_config_then_get_config_def qdma_device_get_config_def EINVAL_def)
  qed
qed

text \<open>
  C7 (as amended). Through a handle that passes validation, \<^verbatim>\<open>qdma_device_set_config\<close> with
  a snapshot \<open>c\<close> returns 0, and the \<^verbatim>\<open>qdma_device_get_config\<close> that follows returns 0 and
  a snapshot equal to \<open>c\<close> exactly when the bus reference of \<open>c\<close> is not null and no device
  listed ahead of the handle's device stores it; otherwise it returns \<open>- EINVAL\<close> and
  leaves the caller's buffer as it was. In particular the round trip holds for every
  snapshot that keeps the bus reference the device stores.
\<close>

theorem set_config_get_config_roundtrip:
  assumes "xdev_deref s h = Inr x" and "fst (xdev_check_hndl (pdev (conf x)) h s) = 0"
  shows "set_config_then_get_config h c c0 s =
           Inr (0, if pdev c \<noteq> 0 \<and> \<not> stored_ahead (pdev c) h s then (0, Some c)
                   else (- EINVAL, Some c0))
         \<and> (pdev c = pdev (conf x) \<longrightarrow>
               set_config_then_get_config h c c0 s = Inr (0, 0, Some c))"
proof (intro conjI impI)
  show g: "set_config_then_get_config h c c0 s =
           Inr (0, if pdev c \<noteq> 0 \<and> \<not> stored_ahead (pdev c) h s then (0, Some c)
                   else (- EINVAL, Some c0))"
    by (rule set_config_get_config_general [OF assms])
  assume same: "pdev c = pdev (conf x)"
  have "pdev (conf x) \<noteq> 0 \<and> \<not> stored_ahead (pdev (conf x)) h s"
    using assms(2) xdev_check_hndl_own [OF assms(1)]
    by (simp add: EINVAL_def split: if_splits)
  with same g show "set_config_then_get_config h c c0 s = Inr (0, 0, Some c)"
    by simp
qed

theorem set_config_get_config_roundtrip_witness:
  "set_config_then_get_config 0x2000 ((conf_of 0x200)\<lparr>qsets_max := 7\<rparr>) (conf_of 0) two_devices
     = Inr (0, 0, Some ((conf_of 0x200)\<lparr>qsets_max := 7\<rparr>))"
proof -
  have x: "xdev_deref two_devices 0x2000 = Inr (xdev_of (conf_of 0x200))"
    by (simp add: xdev_deref_def two_devices_def bus_example_def)
  have ok: "fst (xdev_check_hndl (pdev (conf (xdev_of (conf_of 0x200)))) 0x2000 two_devices) = 0"
    by (simp add: xdev_check_hndl_def xdev_find_by_pdev_def two_devices_def bus_example_def
          xdev_of_def conf_of_def)
  have na: "\<not> stored_ahead (pdev ((conf_of 0x200)\<lparr>qsets_max := 7\<rparr>)) 0x2000 two_devices"
    by (simp add: stored_ahead_def two_devices_def bus_example_def xdev_of_def conf_of_def)
  have nz: "pdev ((conf_of 0x200)\<lparr>qsets_max := 7\<rparr>) \<noteq> 0"
    by (simp add: conf_of_def)
  show ?thesis
    using set_config_get_config_roundtrip [OF x ok, of "(conf_of 0x200)\<lparr>qsets_max := 7\<rparr>" "conf_of 0"]
      na nz by simp
qed

text \<open>
  C7 as stated fails for the second of two attached devices and a snapshot that carries
  the bus reference of the first: the snapshot is stored, and then the handle no longer
  passes validation, so \<^verbatim>\<open>qdma_device_get_config\<close> returns \<open>- EINVAL\<close> and no snapshot.
\<close>

theorem set_config_get_config_counterexample:
  "set_config_then_get_config 0x2000 (conf_of 0x100) (conf_of 0) two_devices
     = Inr (0, - EINVAL, Some (conf_of 0))"
  by (simp add: set_config_then_get_config_def qdma_device_set_config_def
        qdma_device_get_config_def xdev_check_hndl_def xdev_find_by_pdev_def xdev_deref_def
        xdev_store_def mutex_lock_def two_devices_def bus_example_def xdev_of_def conf_of_def
        EINVAL_def)

lemma map_of_in_set: "map_of l h = Some x \<Longrightarrow> (h, x) \<in> set l"
  by (rule map_of_SomeD)

lemma not_stored_ahead_distinct:
  assumes "distinct (map (\<lambda>e. pdev (conf (snd e))) (xdev_list s))"
    and "xdev_deref s h = Inr x"
  shows "\<not> stored_ahead (pdev (conf x)) h s"
proof -
  define pre where "pre = takeWhile (\<lambda>e. fst e \<noteq> h) (xdev_list s)"
  define post where "post = tl (dropWhile (\<lambda>e. fst e \<noteq> h) (xdev_list s))"
  from assms(2) have "map_of (xdev_list s) h = Some x"
    by (auto simp: xdev_deref_def split: if_splits option.splits)
  then have l: "xdev_list s = pre @ (h, x) # post"
    unfolding pre_def post_def by (rule map_of_split)
  from assms(1) have "distinct (map (\<lambda>e. pdev (conf (snd e))) (pre @ (h, x) # post))"
    by (simp only: l)
  then have "pdev (conf x) \<notin> (\<lambda>e. pdev (conf (snd e))) ` set pre"
    by auto
  then show ?thesis
    unfolding stored_ahead_def pre_def [symmetric] by force
qed

text \<open>
  C10 (as amended). \<^verbatim>\<open>qdma_device_get_config\<close>, \<^verbatim>\<open>qdma_device_set_config\<close> and
  \<^verbatim>\<open>qdma_device_set_cfg_state\<close> read the bus reference they validate against from the
  handle's device. For a handle that names a listed device, validation in each of them
  succeeds if and only if that device stores a bus reference that is not null and that no
  device listed ahead of it stores; otherwise the call returns \<open>- EINVAL\<close>. A handle that
  names no listed device is read before anything is checked: the read is a fault. As long
  as the listed devices store distinct bus references, none of them null, validation
  succeeds for every listed device.
\<close>

theorem config_access_validation:
  "(xdev_deref s h = Inr x \<longrightarrow>
      rv_of (qdma_device_get_config h (Some c0) s)
        = Inr (if pdev (conf x) \<noteq> 0 \<and> \<not> stored_ahead (pdev (conf x)) h s then 0 else - EINVAL)
      \<and> rv_of (qdma_device_set_config h (Some c) s)
        = Inr (if pdev (conf x) \<noteq> 0 \<and> \<not> stored_ahead (pdev (conf x)) h s then 0 else - EINVAL)
      \<and> (st \<le> CFG_USER B \<longrightarrow> rv_of (qdma_device_set_cfg_state B h st s)
        = Inr (if pdev (conf x) \<noteq> 0 \<and> \<not> stored_ahead (pdev (conf x)) h s then 0 else - EINVAL)))
   \<and> (xdev_deref s h = Inl f \<longrightarrow>
        qdma_device_get_config h (Some c0) s = Inl f
        \<and> qdma_device_set_config h (Some c) s = Inl f
        \<and> (st \<le> CFG_USER B \<longrightarrow> qdma_device_set_cfg_state B h st s = Inl f))
   \<and> (distinct (map (\<lambda>e. pdev (conf (snd e))) (xdev_list s))
        \<and> (\<forall>e\<in>set (xdev_list s). pdev (conf (snd e)) \<noteq> 0) \<and> xdev_deref s h = Inr x
        \<longrightarrow> pdev (conf x) \<noteq> 0 \<and> \<not> stored_ahead (pdev (conf x)) h s)"
proof (intro conjI impI)
  assume x: "xdev_deref s h = Inr x"
  define v where "v = (if pdev (conf x) \<noteq> 0 \<and> \<not> stored_ahead (pdev (conf x)) h s then 0 else - EINVAL)"
  have own: "fst (xdev_check_hndl (pdev (conf x)) h s) = v"
    unfolding v_def by (rule xdev_check_hndl_own [OF x])
  have v: "v = 0 \<or> v = - EINVAL"
    by (simp add: v_def)
  obtain s1 where c: "xdev_check_hndl (pdev (conf x)) h s = (v, s1)"
    using own by (cases "xdev_check_hndl (pdev (conf x)) h s") simp
  show "rv_of (qdma_device_get_config h (Some c0) s) = Inr v"
    using x c v by (auto simp: rv_of_def qdma_device_get_config_def EINVAL_def)
  show "rv_of (qdma_device_set_config h (Some c) s) = Inr v"
    using x c v by (auto simp: rv_of_def qdma_device_set_config_def EINVAL_def)
  show "rv_of (qdma_device_set_cfg_state B h st s) = Inr v" if "st \<le> CFG_USER B"
    using x c v that
    by (auto simp: rv_of_def qdma_device_set_cfg_state_def EINVAL_def not_less [symmetric])
next
  assume f: "xdev_deref s h = Inl f"
  show "qdma_device_get_config h (Some c0) s = Inl f"
    using f by (simp add: qdma_device_get_config_def)
  show "qdma_device_set_config h (Some c) s = Inl f"
    using f by (simp add: qdma_device_set_config_def)
  show "qdma_device_set_cfg_state B h st s = Inl f" if "st \<le> CFG_USER B"
    using f that by (simp add: qdma_device_set_cfg_state_def not_less [symmetric])
next
  assume a: "distinct (map (\<lambda>e. pdev (conf (snd e))) (xdev_list s))
        \<and> (\<forall>e\<in>set (xdev_list s). pdev (conf (snd e)) \<noteq> 0) \<and> xdev_deref s h = Inr x"
  then have "map_of (xdev_list s) h = Some x"
    by (auto simp: xdev_deref_def split: if_splits option.splits)
  then have "(h, x) \<in> set (xdev_list s)"
    by (rule map_of_SomeD)
  with a show "pdev (conf x) \<noteq> 0" by auto
  from a show "\<not> stored_ahead (pdev (conf x)) h s"
    by (intro not_stored_ahead_distinct) simp_all
qed


theorem config_access_validation_witness:
  "rv_of (qdma_device_get_config 0x2000 (Some (conf_of 0)) two_devices) = Inr 0
   \<and> rv_of (qdma_device_set_config 0x2000 (Some (conf_of 0x200)) two_devices) = Inr 0
   \<and> rv_of (qdma_device_set_cfg_state pf_build 0x2000 1 two_devices) = Inr 0
   \<and> qdma_device_get_config 0x5000 (Some (conf_of 0)) two_devices = Inl Bad_pointer
   \<and> qdma_device_set_config 0x5000 (Some (conf_of 0x200)) two_devices = Inl Bad_pointer
   \<and> qdma_device_set_cfg_state pf_build 0x5000 1 two_devices = Inl Bad_pointer"
proof -
  have x: "xdev_deref two_devices 0x2000 = Inr (xdev_of (conf_of 0x200))"
    by (simp add: xdev_deref_def two_devices_def bus_example_def)
  have f: "xdev_deref two_devices 0x5000 = Inl Bad_pointer"
    by (simp add: xdev_deref_def two_devices_def bus_example_def)
  have st: "(1 :: 32 word) \<le> CFG_USER pf_build"
    by (simp add: pf_build_def)
  have inv: "distinct (map (\<lambda>e. pdev (conf (snd e))) (xdev_list two_devices))
        \<and> (\<forall>e\<in>set (xdev_list two_devices). pdev (conf (snd e)) \<noteq> 0)"
    by (simp add: two_devices_def bus_example_def xdev_of_def conf_of_def)
  note live = config_access_validation [of two_devices "0x2000" "xdev_of (conf_of 0x200)"
      "conf_of 0" "conf_of 0x200" 1 pf_build Bad_pointer]
  note dead = config_access_validation [of two_devices "0x5000" "xdev_of (conf_of 0x200)"
      "conf_of 0" "conf_of 0x200" 1 pf_build Bad_pointer]
  from live inv x have ok: "pdev (conf (xdev_of (conf_of 0x200))) \<noteq> 0
      \<and> \<not> stored_ahead (pdev (conf (xdev_of (conf_of 0x200)))) 0x2000 two_devices"
    by blast
  from live x ok st have 1: "rv_of (qdma_device_get_config 0x2000 (Some (conf_of 0)) two_devices) = Inr 0"
    and 2: "rv_of (qdma_device_set_config 0x2000 (Some (conf_of 0x200)) two_devices) = Inr 0"
    and 3: "rv_of (qdma_device_set_cfg_state pf_build 0x2000 1 two_devices) = Inr 0"
    by simp_all
  from dead f st have 4: "qdma_device_get_config 0x5000 (Some (conf_of 0)) two_devices = Inl Bad_pointer"
    and 5: "qdma_device_set_config 0x5000 (Some (conf_of 0x200)) two_devices = Inl Bad_pointer"
    and 6: "qdma_device_set_cfg_state pf_build 0x5000 1 two_devices = Inl Bad_pointer"
    by simp_all
  from 1 2 3 4 5 6 show ?thesis by blast
qed

text \<open>
  C10 as stated fails once two listed devices store the same bus reference, a state
  \<^verbatim>\<open>qdma_device_set_config\<close> produces: the second device is still listed under its handle,
  yet the lookup by its bus reference finds the first device, and the identity check
  rejects the handle in all three functions.
\<close>

theorem config_access_validation_counterexample:
  "after_set_config 0x2000 (conf_of 0x100) two_devices (\<lambda>s. map fst (xdev_list s))
     = Inr (0, [0x1000, 0x2000])
   \<and> after_set_config 0x2000 (conf_of 0x100) two_devices
        (\<lambda>s. rv_of (qdma_device_get_config 0x2000 (Some (conf_of 0)) s)) = Inr (0, Inr (- EINVAL))
   \<and> after_set_config 0x2000 (conf_of 0x100) two_devices
        (\<lambda>s. rv_of (qdma_device_set_config 0x2000 (Some (conf_of 0x200)) s)) = Inr (0, Inr (- EINVAL))
   \<and> after_set_config 0x2000 (conf_of 0x100) two_devices
        (\<lambda>s. rv_of (qdma_device_set_cfg_state pf_build 0x2000 1 s)) = Inr (0, Inr (- EINVAL))"
  by (simp add: after_set_config_def rv_of_def qdma_device_set_config_def
        qdma_device_get_config_def qdma_device_set_cfg_state_def xdev_check_hndl_def
        xdev_find_by_pdev_def xdev_deref_def xdev_store_def mutex_lock_def two_devices_def
        bus_example_def xdev_of_def conf_of_def pf_build_def EINVAL_def)

section \<open>Properties of xdev\_list\_dump\<close>

text \<open>
  C2 at a failing input. One device (bus 3, slot 1, function 0) is listed and the caller
  passes \<^verbatim>\<open>buflen = 10\<close>. \<^verbatim>\<open>xdev_list_dump\<close> returns 19 and has stored 20 bytes at \<^verbatim>\<open>buf\<close>:
  the whole line of 19 characters and the terminator. The text is null-terminated, but it
  is twice as long as the capacity given: \<^verbatim>\<open>sprintf\<close> writes each line in full and
  \<^verbatim>\<open>buflen\<close> is compared only after the line has been written.
\<close>

theorem xdev_list_dump_overruns:
  "dump_after_add pf_build 0x1000 (xdev_of (conf_of 0x100)) 10 bus_example
     = Inr (19, ''qdma03010'' @ [CHR 0x09] @ ''03:01.00'' @ [CHR 0x0A, CHR 0x00])
   \<and> length (''qdma03010'' @ [CHR 0x09] @ ''03:01.00'' @ [CHR 0x0A, CHR 0x00]) = 20"
  by (simp add: dump_after_add_def xdev_list_dump_def dump_line_def printf_0x_def
        hex_of.simps hex_digit_def
        xdev_list_add_def xdev_list_add_step_def pci_deref_def
        mutex_lock_def pf_build_def bus_example_def xdev_of_def conf_of_def pci_dev_at_def
        PCI_SLOT_def PCI_FUNC_def CFG_UNCONFIGURED_def Let_def)


section \<open>Properties of the offline flag\<close>

lemma offline_flags_log_call [simp]: "offline_flags (log_call c s) = offline_flags s"
  by (simp add: offline_flags_def log_call_def)

lemma offline_flags_mutex_lock [simp]: "offline_flags (mutex_lock s) = offline_flags s"
  by (simp add: offline_flags_def mutex_lock_def)

lemma find_Some_map_of:
  "find P l = Some (h, y) \<Longrightarrow> \<exists>x. map_of l h = Some x"
  by (induction l) (auto split: if_splits)

lemma xdev_check_hndl_live:
  assumes "fst (xdev_check_hndl p h s) = 0" and "h \<noteq> 0"
  shows "\<exists>x. xdev_deref s h = Inr x"
proof -
  from assms(1) obtain y where "find (\<lambda>e. pdev (conf (snd e)) = p) (xdev_list s) = Some (h, y)"
    by (auto simp: xdev_check_hndl_rv EINVAL_def split: if_splits)
  then obtain x where "map_of (xdev_list s) h = Some x"
    by (blast dest: find_Some_map_of)
  with assms(2) show ?thesis
    by (simp add: xdev_deref_def)
qed

lemma xdev_check_hndl_cases:
  obtains (reject) s1 where "xdev_check_hndl p h s = (- EINVAL, s1)"
      and "s1 = (if p = 0 then s else mutex_lock s)"
  | (accept) "xdev_check_hndl p h s = (0, mutex_lock s)" and "p \<noteq> 0"
  by (cases "fst (xdev_check_hndl p h s) = 0")
     (auto simp: prod_eq_iff xdev_check_hndl_state xdev_check_hndl_rv split: if_splits)

lemma qdma_device_online_flags:
  "online_flags B E p h s =
     Inr (if h = 0 \<or> fst (xdev_check_hndl p h s) \<noteq> 0 then (- EINVAL, offline_flags s)
          else if device_init_rv E < 0 then (device_init_rv E, offline_flags s)
          else (if QDMA_VF B then (if sriov_vf_online_rv E < 0 then sriov_vf_online_rv E else 0)
                else if CONFIG_PCI_IOV B
                        \<and> (\<exists>x. xdev_deref s h = Inr x \<and> vf_max (conf x) \<noteq> 0)
                        \<and> sriov_enable_rv E < 0
                then sriov_enable_rv E else 0,
                offline_flags (xdev_store h (\<lambda>x. x\<lparr>flag_offline := False\<rparr>) s)))"
proof (cases "h = 0")
  case True
  then show ?thesis
    by (simp add: online_flags_def qdma_device_online_def)
next
  case h: False
  show ?thesis
  proof (cases rule: xdev_check_hndl_cases [of p h s])
    case (reject s1)
    then show ?thesis
      using h by (simp add: online_flags_def qdma_device_online_def EINVAL_def)
  next
    case accept
    then have "fst (xdev_check_hndl p h s) = 0" by simp
    from xdev_check_hndl_live [OF this h] obtain x where x: "xdev_deref s h = Inr x" ..
    have f: "offline_flags (xdev_store h f (mutex_lock s)) = offline_flags (xdev_store h f s)" for f
      by (simp add: offline_flags_def xdev_store_def mutex_lock_def)
    have g: "offline_flags (xdev_store h f (log_call c s')) = offline_flags (xdev_store h f s')"
      for f c s'
      by (simp add: offline_flags_def xdev_store_def log_call_def)
    show ?thesis
      using h accept x
      by (simp add: online_flags_def qdma_device_online_def Let_def f g EINVAL_def)
  qed
qed


lemma offline_flags_store_conf [simp]:
  "offline_flags (xdev_store h (\<lambda>x. x\<lparr>conf := g x\<rparr>) s) = offline_flags s"
  by (auto simp: offline_flags_def xdev_store_def split: if_splits)

lemma open_register_flags:
  assumes "open_register B m a x s = Inr s1"
  shows "offline_flags s1 = offline_flags s @ [(a, True)]"
proof -
  from assms obtain v i where
    "s1 = s\<lparr>xdev_mutex := xdev_mutex s + 1,
           xdev_list := xdev_list s @
             [(a, x\<lparr>mod_name := take (QDMA_DEV_NAME_MAXLEN B - 1) m, flag_offline := True,
                    conf := (conf (x\<lparr>mod_name := take (QDMA_DEV_NAME_MAXLEN B - 1) m,
                                     flag_offline := True\<rparr>))
                      \<lparr>bdf := v, idx := i, cur_cfg_state := CFG_UNCONFIGURED\<rparr>\<rparr>)]\<rparr>"
    unfolding open_register_def by (blast dest: xdev_list_add_frame)
  then show ?thesis
    by (simp add: offline_flags_def)
qed

lemma qdma_device_offline_flags:
  assumes "qdma_device_offline B p h s = Inr s'"
  shows "offline_flags s' =
           (if h = 0 \<or> fst (xdev_check_hndl p h s) \<noteq> 0 then offline_flags s
            else offline_flags (xdev_store h (\<lambda>x. x\<lparr>flag_offline := True\<rparr>) s))"
proof (cases "h = 0")
  case True
  with assms show ?thesis
    by (simp add: qdma_device_offline_def)
next
  case h: False
  show ?thesis
  proof (cases rule: xdev_check_hndl_cases [of p h s])
    case (reject s1)
    with assms h show ?thesis
      by (auto simp: qdma_device_offline_def EINVAL_def)
  next
    case accept
    have f: "offline_flags (xdev_store h f (mutex_lock s)) = offline_flags (xdev_store h f s)" for f
      by (simp add: offline_flags_def xdev_store_def mutex_lock_def)
    from assms h accept show ?thesis
      by (auto simp: qdma_device_offline_def Let_def f split: sum.splits)
  qed
qed

text \<open>
  C8 (as amended). A device object is linked into the list by \<^verbatim>\<open>qdma_device_open\<close> with its
  offline flag set. \<^verbatim>\<open>qdma_device_online\<close> always returns; it clears the flag of the
  handle's device, and of no other, as soon as the handle has passed validation and
  \<^verbatim>\<open>qdma_device_init\<close> has succeeded, before the control channel and the role-specific
  steps, so the flag is clear after every online that returns 0. When the handle is
  null or rejected, or \<^verbatim>\<open>qdma_device_init\<close> fails, online returns a negative value and every
  flag is as it was. \<^verbatim>\<open>qdma_device_offline\<close> only sets flags, and
  \<^verbatim>\<open>qdma_device_set_config\<close> and \<^verbatim>\<open>qdma_device_set_cfg_state\<close> leave them as they are.
\<close>

theorem offline_flag_lifecycle:
  "(\<forall>s1. open_register B m a x s = Inr s1 \<longrightarrow> offline_flags s1 = offline_flags s @ [(a, True)])
   \<and> (\<exists>rv. online_flags B E p h s =
          Inr (rv, if h = 0 \<or> fst (xdev_check_hndl p h s) \<noteq> 0 \<or> device_init_rv E < 0
                   then offline_flags s
                   else offline_flags (xdev_store h (\<lambda>x. x\<lparr>flag_offline := False\<rparr>) s))
        \<and> (h = 0 \<or> fst (xdev_check_hndl p h s) \<noteq> 0 \<or> device_init_rv E < 0 \<longrightarrow> rv < 0))
   \<and> (\<forall>s'. qdma_device_offline B p h s = Inr s' \<longrightarrow>
         offline_flags s' =
           (if h = 0 \<or> fst (xdev_check_hndl p h s) \<noteq> 0 then offline_flags s
            else offline_flags (xdev_store h (\<lambda>x. x\<lparr>flag_offline := True\<rparr>) s)))
   \<and> (\<forall>rv s'. qdma_device_set_config h c s = Inr (rv, s') \<longrightarrow> offline_flags s' = offline_flags s)
   \<and> (\<forall>rv s'. qdma_device_set_cfg_state B h st s = Inr (rv, s') \<longrightarrow>
         offline_flags s' = offline_flags s)"
proof (intro conjI allI impI)
  fix s1 assume "open_register B m a x s = Inr s1"
  then show "offline_flags s1 = offline_flags s @ [(a, True)]"
    by (rule open_register_flags)
next
  show "\<exists>rv. online_flags B E p h s =
          Inr (rv, if h = 0 \<or> fst (xdev_check_hndl p h s) \<noteq> 0 \<or> device_init_rv E < 0
                   then offline_flags s
                   else offline_flags (xdev_store h (\<lambda>x. x\<lparr>flag_offline := False\<rparr>) s))
        \<and> (h = 0 \<or> fst (xdev_check_hndl p h s) \<noteq> 0 \<or> device_init_rv E < 0 \<longrightarrow> rv < 0)"
    by (simp add: qdma_device_online_flags EINVAL_def)
next
  fix s' assume "qdma_device_offline B p h s = Inr s'"
  then show "offline_flags s' =
           (if h = 0 \<or> fst (xdev_check_hndl p h s) \<noteq> 0 then offline_flags s
            else offline_flags (xdev_store h (\<lambda>x. x\<lparr>flag_offline := True\<rparr>) s))"
    by (rule qdma_device_offline_flags)
next
  fix rv s' assume "qdma_device_set_config h c s = Inr (rv, s')"
  then show "offline_flags s' = offline_flags s"
    by (cases rule: xdev_check_hndl_cases [of "pdev (conf (projr (xdev_deref s h)))" h s])
       (auto simp: qdma_device_set_config_def split: option.splits sum.splits if_splits)
next
  fix rv s' assume "qdma_device_set_cfg_state B h st s = Inr (rv, s')"
  then show "offline_flags s' = offline_flags s"
    by (cases rule: xdev_check_hndl_cases [of "pdev (conf (projr (xdev_deref s h)))" h s])
       (auto simp: qdma_device_set_cfg_state_def split: option.splits sum.splits if_splits)
qed

theorem offline_flag_lifecycle_witness:
  "(\<exists>s1. open_register pf_build ''qdma_pf'' 0x1000 (xdev_of (conf_of 0x100)) bus_example = Inr s1
        \<and> offline_flags s1 = [(0x1000, True)])
   \<and> online_flags pf_build env_ok 0x100 0x1000 two_devices
        = Inr (0, [(0x1000, False), (0x2000, True)])
   \<and> online_flags pf_build (env_ok\<lparr>device_init_rv := - 5\<rparr>) 0x100 0x1000 two_devices
        = Inr (- 5, [(0x1000, True), (0x2000, True)])
   \<and> (\<exists>s'. qdma_device_offline pf_build 0x100 0x1000 two_devices = Inr s'
        \<and> offline_flags s' = [(0x1000, True), (0x2000, True)])
   \<and> (\<exists>s'. qdma_device_set_config 0x1000 (Some (conf_of 0x100)) two_devices = Inr (0, s')
        \<and> offline_flags s' = [(0x1000, True), (0x2000, True)])
   \<and> (\<exists>s'. qdma_device_set_cfg_state pf_build 0x1000 1 two_devices = Inr (0, s')
        \<and> offline_flags s' = [(0x1000, True), (0x2000, True)])"
proof -
  note defs = xdev_check_hndl_def xdev_find_by_pdev_def xdev_deref_def xdev_store_def
    mutex_lock_def log_call_def two_devices_def bus_example_def xdev_of_def conf_of_def
    pf_build_def env_ok_def EINVAL_def offline_flags_def
  obtain s1 where r: "open_register pf_build ''qdma_pf'' 0x1000 (xdev_of (conf_of 0x100)) bus_example
      = Inr s1"
    by (simp add: open_register_def xdev_list_add_def xdev_list_add_step_def pci_deref_def
          pci_dev_at_def PCI_SLOT_def PCI_FUNC_def Let_def defs)
  have f0: "offline_flags bus_example = []"
    by (simp add: defs)
  have f2: "offline_flags two_devices = [(0x1000, True), (0x2000, True)]"
    by (simp add: defs)
  have ok: "fst (xdev_check_hndl 0x100 0x1000 two_devices) = 0"
    by (simp add: defs)
  have cl: "offline_flags (xdev_store 0x1000 (\<lambda>x. x\<lparr>flag_offline := False\<rparr>) two_devices)
      = [(0x1000, False), (0x2000, True)]"
    by (simp add: defs)
  have st: "offline_flags (xdev_store 0x1000 (\<lambda>x. x\<lparr>flag_offline := True\<rparr>) two_devices)
      = [(0x1000, True), (0x2000, True)]"
    by (simp add: defs)
  have i0: "device_init_rv env_ok = 0" and i5: "device_init_rv (env_ok\<lparr>device_init_rv := - 5\<rparr>) = - 5"
    by (simp_all add: env_ok_def)
  note reg = offline_flag_lifecycle [of pf_build "''qdma_pf''" "0x1000" "xdev_of (conf_of 0x100)"
      bus_example env_ok "0x100" "0x1000" "Some (conf_of 0x100)" 1]
  note good = offline_flag_lifecycle [of pf_build "''qdma_pf''" "0x1000" "xdev_of (conf_of 0x100)"
      two_devices env_ok "0x100" "0x1000" "Some (conf_of 0x100)" 1]
  note bad = offline_flag_lifecycle [of pf_build "''qdma_pf''" "0x1000" "xdev_of (conf_of 0x100)"
      two_devices "env_ok\<lparr>device_init_rv := - 5\<rparr>" "0x100" "0x1000" "Some (conf_of 0x100)" 1]
  have 1: "\<exists>s1. open_register pf_build ''qdma_pf'' 0x1000 (xdev_of (conf_of 0x100)) bus_example = Inr s1
        \<and> offline_flags s1 = [(0x1000, True)]"
    using reg r f0 by auto
  have on: "online_flags pf_build env_ok 0x100 0x1000 two_devices
        = Inr (0, [(0x1000, False), (0x2000, True)])"
    by (simp add: qdma_device_online_flags ok i0 cl) (simp add: defs)
  obtain rv where rv: "online_flags pf_build (env_ok\<lparr>device_init_rv := - 5\<rparr>) 0x100 0x1000 two_devices
      = Inr (rv, [(0x1000, True), (0x2000, True)])"
    using bad ok i5 f2 by auto
  have 3: "online_flags pf_build (env_ok\<lparr>device_init_rv := - 5\<rparr>) 0x100 0x1000 two_devices
        = Inr (- 5, [(0x1000, True), (0x2000, True)])"
    using rv by (simp add: qdma_device_online_flags ok i5)
  obtain s' where off: "qdma_device_offline pf_build 0x100 0x1000 two_devices = Inr s'"
    by (simp add: qdma_device_offline_def Let_def defs)
  have 4: "\<exists>s'. qdma_device_offline pf_build 0x100 0x1000 two_devices = Inr s'
        \<and> offline_flags s' = [(0x1000, True), (0x2000, True)]"
    using good off ok st by auto
  obtain s2 where sc: "qdma_device_set_config 0x1000 (Some (conf_of 0x100)) two_devices = Inr (0, s2)"
    by (simp add: qdma_device_set_config_def defs)
  have 5: "\<exists>s'. qdma_device_set_config 0x1000 (Some (conf_of 0x100)) two_devices = Inr (0, s')
        \<and> offline_flags s' = [(0x1000, True), (0x2000, True)]"
    using good sc f2 by auto
  obtain s3 where ss: "qdma_device_set_cfg_state pf_build 0x1000 1 two_devices = Inr (0, s3)"
    by (simp add: qdma_device_set_cfg_state_def defs)
  have 6: "\<exists>s'. qdma_device_set_cfg_state pf_build 0x1000 1 two_devices = Inr (0, s')
        \<and> offline_flags s' = [(0x1000, True), (0x2000, True)]"
    using good ss f2 by auto
  from 1 on 3 4 5 6 show ?thesis by blast
qed


text \<open>
  C8 as stated fails on a build for virtual functions when \<^verbatim>\<open>xdev_sriov_vf_online\<close> fails:
  \<^verbatim>\<open>qdma_device_online\<close> returns the error, and the flag of the device, set before the
  call, is clear after it.
\<close>

theorem offline_flag_lifecycle_counterexample:
  "online_flags vf_build (env_ok\<lparr>sriov_vf_online_rv := - 5\<rparr>) 0x100 0x1000 two_devices
     = Inr (- 5, [(0x1000, False), (0x2000, True)])
   \<and> offline_flags two_devices = [(0x1000, True), (0x2000, True)]"
  by (simp add: online_flags_def offline_flags_def qdma_device_online_def xdev_check_hndl_def
        xdev_find_by_pdev_def xdev_deref_def xdev_store_def mutex_lock_def log_call_def
        two_devices_def bus_example_def xdev_of_def conf_of_def vf_build_def pf_build_def
        env_ok_def EINVAL_def)

section \<open>Properties of open and close\<close>

lemma log_call_proj [simp]:
  "xdev_list (log_call c s) = xdev_list s" "claimed (log_call c s) = claimed s"
  "iomapped (log_call c s) = iomapped s" "pci_devs (log_call c s) = pci_devs s"
  "calls (log_call c s) = calls s @ [c]"
  by (simp_all add: log_call_def)

lemma mutex_lock_proj [simp]:
  "xdev_list (mutex_lock s) = xdev_list s" "claimed (mutex_lock s) = claimed s"
  "iomapped (mutex_lock s) = iomapped s" "pci_devs (mutex_lock s) = pci_devs s"
  "calls (mutex_lock s) = calls s"
  by (simp_all add: mutex_lock_def)

lemma xdev_store_proj [simp]:
  "claimed (xdev_store h f s) = claimed s" "iomapped (xdev_store h f s) = iomapped s"
  "pci_devs (xdev_store h f s) = pci_devs s" "calls (xdev_store h f s) = calls s"
  by (simp_all add: xdev_store_def)

lemma pci_iomap_proj [simp]:
  "xdev_list (pci_iomap p bar n k s) = xdev_list s" "claimed (pci_iomap p bar n k s) = claimed s"
  "iomapped (pci_iomap p bar n k s) = (if k = 0 then iomapped s else insert k (iomapped s))"
  "pci_devs (pci_iomap p bar n k s) = pci_devs s"
  "calls (pci_iomap p bar n k s) = calls s @ [Pci_iomap p bar n]"
  by (simp_all add: pci_iomap_def)

lemma pci_iounmap_proj [simp]:
  "xdev_list (pci_iounmap p k s) = xdev_list s" "claimed (pci_iounmap p k s) = claimed s"
  "iomapped (pci_iounmap p k s) = iomapped s - {k}"
  "pci_devs (pci_iounmap p k s) = pci_devs s"
  "calls (pci_iounmap p k s) = calls s @ [Pci_iounmap p k]"
  by (simp_all add: pci_iounmap_def)

lemma pci_request_regions_proj [simp]:
  "xdev_list (pci_request_regions E p s) = xdev_list s"
  "claimed (pci_request_regions E p s)
     = (if request_regions_rv E = 0 then insert p (claimed s) else claimed s)"
  "iomapped (pci_request_regions E p s) = iomapped s"
  "pci_devs (pci_request_regions E p s) = pci_devs s"
  "calls (pci_request_regions E p s) = calls s @ [Pci_request_regions p]"
  by (simp_all add: pci_request_regions_def)

lemma pci_release_regions_proj [simp]:
  "xdev_list (pci_release_regions p s) = xdev_list s"
  "claimed (pci_release_regions p s) = claimed s - {p}"
  "iomapped (pci_release_regions p s) = iomapped s"
  "pci_devs (pci_release_regions p s) = pci_devs s"
  "calls (pci_release_regions p s) = calls s @ [Pci_release_regions p]"
  by (simp_all add: pci_release_regions_def)

lemma xdev_list_remove_proj [simp]:
  "xdev_list (xdev_list_remove a s) = filter (\<lambda>e. fst e \<noteq> a) (xdev_list s)"
  "claimed (xdev_list_remove a s) = claimed s" "iomapped (xdev_list_remove a s) = iomapped s"
  "pci_devs (xdev_list_remove a s) = pci_devs s" "calls (xdev_list_remove a s) = calls s"
  by (simp_all add: xdev_list_remove_def)

lemma pci_deref_eq [simp]:
  "pci_deref (log_call c s) = pci_deref s" "pci_deref (xdev_store h f s) = pci_deref s"
  "pci_deref (pci_iomap p bar n k s) = pci_deref s" "pci_deref (pci_iounmap p k s) = pci_deref s"
  "pci_deref (pci_request_regions E p s) = pci_deref s"
  by (simp_all add: pci_deref_def fun_eq_iff)

lemma xdev_deref_eq [simp]:
  "xdev_deref (pci_iomap p bar n k s) = xdev_deref s"
  "xdev_deref (pci_iounmap p k s) = xdev_deref s"
  "xdev_deref (pci_request_regions E p s) = xdev_deref s"
  by (simp_all add: xdev_deref_def fun_eq_iff)

lemma store_tail:
  "a \<notin> fst ` set l \<Longrightarrow>
     map (\<lambda>(b, x). if b = a then (b, f x) else (b, x)) (l @ [(a, x)]) = l @ [(a, f x)]"
  by (induction l) auto

lemma xdev_list_store_tail:
  assumes "xdev_list s = l @ [(a, x)]" and "a \<notin> fst ` set l"
  shows "xdev_list (xdev_store a f s) = l @ [(a, f x)]"
  using assms by (simp add: xdev_store_def store_tail del: map_append)

lemma map_of_tail:
  "a \<notin> fst ` set l \<Longrightarrow> map_of (l @ [(a, x)]) a = Some x"
  by (induction l) auto

lemma xdev_deref_tail:
  assumes "xdev_list s = l @ [(a, x)]" and "a \<notin> fst ` set l" and "a \<noteq> 0"
  shows "xdev_deref s a = Inr x"
  using assms by (simp add: xdev_deref_def map_of_tail del: map_of_append)

lemma filter_tail:
  "a \<notin> fst ` set l \<Longrightarrow> filter (\<lambda>e. fst e \<noteq> a) (l @ [(a, x)]) = l"
  by (induction l) auto

lemma find_tail:
  "\<forall>e\<in>set l. pdev (conf (snd e)) \<noteq> p \<Longrightarrow> pdev (conf x) = p \<Longrightarrow>
     find (\<lambda>e. pdev (conf (snd e)) = p) (l @ [(a, x)]) = Some (a, x)"
  by (induction l) auto

lemma xdev_check_hndl_tail:
  assumes "xdev_list s = l @ [(a, x)]" and "\<forall>e\<in>set l. pdev (conf (snd e)) \<noteq> p"
    and "pdev (conf x) = p" and "p \<noteq> 0"
  shows "xdev_check_hndl p a s = (0, mutex_lock s)"
  using assms by (simp add: xdev_check_hndl_def xdev_find_by_pdev_def find_tail)

lemma attaching_deref:
  "fresh_attach s0 p a \<Longrightarrow> attaching s0 p a x s \<Longrightarrow> xdev_deref s a = Inr x"
  by (simp add: fresh_attach_def attaching_def xdev_deref_tail)

lemma attaching_pci_deref:
  "attaching s0 p a x s \<Longrightarrow> pci_deref s q = pci_deref s0 q"
  by (simp add: attaching_def pci_deref_def)

lemma attaching_check:
  "fresh_attach s0 p a \<Longrightarrow> attaching s0 p a x s \<Longrightarrow> xdev_check_hndl p a s = (0, mutex_lock s)"
  by (simp add: fresh_attach_def attaching_def xdev_check_hndl_tail)

lemma attaching_log:
  "attaching s0 p a x s \<Longrightarrow> attaching s0 p a x (log_call c s)"
  by (auto simp: attaching_def)

lemma attaching_lock [simp]:
  "attaching s0 p a x (mutex_lock s) = attaching s0 p a x s"
  by (simp add: attaching_def)

lemma attaching_store:
  assumes "fresh_attach s0 p a" and "attaching s0 p a x s"
    and "pdev (conf (f x)) = pdev (conf x)" and "regs (f x) = regs x"
    and "stm_regs (f x) = stm_regs x"
  shows "attaching s0 p a (f x) (xdev_store a f s)"
  using assms by (simp add: fresh_attach_def attaching_def xdev_list_store_tail)

lemma attaching_iomap_regs:
  assumes "fresh_attach s0 p a" and "attaching s0 p a x s" and "regs x = 0"
  shows "attaching s0 p a (x\<lparr>regs := k\<rparr>)
           (xdev_store a (\<lambda>x. x\<lparr>regs := k\<rparr>) (pci_iomap p bar n k s))"
  using assms
  by (auto simp: fresh_attach_def attaching_def xdev_list_store_tail [where l = "xdev_list s0"])

lemma attaching_iomap_stm:
  assumes "fresh_attach s0 p a" and "attaching s0 p a x s" and "stm_regs x = 0"
  shows "attaching s0 p a (x\<lparr>stm_regs := k\<rparr>)
           (xdev_store a (\<lambda>x. x\<lparr>stm_regs := k\<rparr>) (pci_iomap p bar n k s))"
  using assms
  by (auto simp: fresh_attach_def attaching_def xdev_list_store_tail [where l = "xdev_list s0"])

lemma attaching_unmap:
  assumes f: "fresh_attach s0 p a" and a: "attaching s0 p a x s"
  shows "\<exists>s'. xdev_unmap_bars a p s = Inr s'
           \<and> attaching s0 p a (x\<lparr>regs := 0, stm_regs := 0\<rparr>) s'
           \<and> calls s' = calls s @ unmap_calls p x"
proof -
  have d: "xdev_deref s a = Inr x"
    by (rule attaching_deref [OF f a])
  have l: "xdev_list s = xdev_list s0 @ [(a, x)]" and n: "a \<notin> fst ` set (xdev_list s0)"
    using f a by (simp_all add: fresh_attach_def attaching_def)
  define s1 where "s1 = (if regs x \<noteq> 0
                    then xdev_store a (\<lambda>x. x\<lparr>regs := 0\<rparr>) (pci_iounmap p (regs x) s)
                    else s)"
  define s2 where "s2 = (if stm_regs x \<noteq> 0
                    then xdev_store a (\<lambda>x. x\<lparr>stm_regs := 0\<rparr>) (pci_iounmap p (stm_regs x) s1)
                    else s1)"
  have r: "xdev_unmap_bars a p s = Inr s2"
    by (simp add: xdev_unmap_bars_def d s1_def s2_def Let_def)
  have l1: "xdev_list s1 = xdev_list s0 @ [(a, x\<lparr>regs := 0\<rparr>)]"
    using l n by (simp add: s1_def xdev_list_store_tail [where l = "xdev_list s0" and x = x])
  have l2: "xdev_list s2 = xdev_list s0 @ [(a, x\<lparr>regs := 0, stm_regs := 0\<rparr>)]"
    using l1 n
    by (simp add: s2_def xdev_list_store_tail [where l = "xdev_list s0" and x = "x\<lparr>regs := 0\<rparr>"])
  have i2: "iomapped s2 \<subseteq> iomapped s0"
    using a by (auto simp: s2_def s1_def attaching_def)
  have c2: "calls s2 = calls s @ unmap_calls p x"
    by (simp add: s2_def s1_def unmap_calls_def)
  have rest: "pci_devs s2 = pci_devs s0" "claimed s2 = insert p (claimed s0)"
    using a by (simp_all add: s2_def s1_def attaching_def)
  have "attaching s0 p a (x\<lparr>regs := 0, stm_regs := 0\<rparr>) s2"
    using l2 i2 c2 rest a by (auto simp: attaching_def)
  with r c2 show ?thesis by blast
qed

lemma unmap_calls_cong:
  "regs y = regs x \<Longrightarrow> stm_regs y = stm_regs x \<Longrightarrow> unmap_calls p y = unmap_calls p x"
  by (simp add: unmap_calls_def)

lemma open_unmap_bars_attaching:
  assumes f: "fresh_attach s0 p a" and a: "attaching s0 p a x s"
  shows "\<exists>s'. open_unmap_bars a p rv c s = Inr (rv, c, 0, s')
           \<and> xdev_list s' = xdev_list s0 \<and> claimed s' = claimed s0 - {p}
           \<and> iomapped s' \<subseteq> iomapped s0
           \<and> calls s' = calls s @ unmap_calls p x @ unwind_calls a p"
proof -
  from attaching_unmap [OF f a] obtain s1 where u: "xdev_unmap_bars a p s = Inr s1"
    and a1: "attaching s0 p a (x\<lparr>regs := 0, stm_regs := 0\<rparr>) s1"
    and c1: "calls s1 = calls s @ unmap_calls p x"
    by blast
  have n: "a \<notin> fst ` set (xdev_list s0)"
    using f by (simp add: fresh_attach_def)
  define s' where "s' = pci_release_regions p (log_call (Pci_disable_device p)
                          (log_call (Kfree a) (xdev_list_remove a s1)))"
  have r: "open_unmap_bars a p rv c s = Inr (rv, c, 0, s')"
    by (simp add: open_unmap_bars_def u open_disable_device_def open_release_regions_def s'_def)
  have "xdev_list s' = xdev_list s0"
    using a1 n by (simp add: s'_def attaching_def filter_tail del: filter_append)
  moreover have "claimed s' = claimed s0 - {p}"
    using a1 by (simp add: s'_def attaching_def)
  moreover have "iomapped s' \<subseteq> iomapped s0"
    using a1 by (auto simp: s'_def attaching_def)
  moreover have "calls s' = calls s @ unmap_calls p x @ unwind_calls a p"
    by (simp add: s'_def c1 unwind_calls_def)
  ultimately show ?thesis using r by blast
qed

lemma qdma_device_offline_attaching:
  assumes f: "fresh_attach s0 p a" and a: "attaching s0 p a x s"
  shows "\<exists>s'. qdma_device_offline B p a s = Inr s'
           \<and> attaching s0 p a (x\<lparr>flag_offline := True\<rparr>) s'
           \<and> calls s' = calls s @ offline_calls B a"
proof -
  have nz: "a \<noteq> 0" using f by (simp add: fresh_attach_def)
  have c: "xdev_check_hndl p a s = (0, mutex_lock s)"
    by (rule attaching_check [OF f a])
  have d: "xdev_deref s a = Inr x"
    by (rule attaching_deref [OF f a])
  define s2 where "s2 = xdev_store a (\<lambda>x. x\<lparr>flag_offline := True\<rparr>) (mutex_lock s)"
  have a2: "attaching s0 p a (x\<lparr>flag_offline := True\<rparr>) s2"
    unfolding s2_def using a by (intro attaching_store [OF f]) simp_all
  have c2: "calls s2 = calls s"
    by (simp add: s2_def)
  show ?thesis
    using nz c d a2 c2
    by (auto simp: qdma_device_offline_def Let_def s2_def [symmetric] offline_calls_def
          intro!: attaching_log)
qed

lemma open_cleanup_qdma_attaching:
  assumes f: "fresh_attach s0 p a" and a: "attaching s0 p a x s"
  shows "\<exists>s'. open_cleanup_qdma B a p rv c s = Inr (rv, c, 0, s')
           \<and> xdev_list s' = xdev_list s0 \<and> claimed s' = claimed s0 - {p}
           \<and> iomapped s' \<subseteq> iomapped s0
           \<and> calls s' = calls s @ offline_calls B a @ unmap_calls p x @ unwind_calls a p"
proof -
  from qdma_device_offline_attaching [OF f a, of B] obtain s1
    where o: "qdma_device_offline B p a s = Inr s1"
      and a1: "attaching s0 p a (x\<lparr>flag_offline := True\<rparr>) s1"
      and c1: "calls s1 = calls s @ offline_calls B a"
    by blast
  from open_unmap_bars_attaching [OF f a1, of rv c] obtain s'
    where u: "open_unmap_bars a p rv c s1 = Inr (rv, c, 0, s')"
      and r: "xdev_list s' = xdev_list s0" "claimed s' = claimed s0 - {p}"
        "iomapped s' \<subseteq> iomapped s0"
      and c': "calls s' = calls s1 @ unmap_calls p (x\<lparr>flag_offline := True\<rparr>) @ unwind_calls a p"
    by blast
  have "unmap_calls p (x\<lparr>flag_offline := True\<rparr>) = unmap_calls p x"
    by (simp add: unmap_calls_def)
  with o u r c1 c' show ?thesis
    by (simp add: open_cleanup_qdma_def)
qed

lemma qdma_device_online_attaching:
  assumes f: "fresh_attach s0 p a" and a: "attaching s0 p a x s"
  shows "\<exists>s' x'. qdma_device_online B E p a s = Inr (online_rv B E (conf x), s')
           \<and> attaching s0 p a x' s' \<and> regs x' = regs x \<and> stm_regs x' = stm_regs x
           \<and> conf x' = conf x"
proof -
  have nz: "a \<noteq> 0" using f by (simp add: fresh_attach_def)
  have c: "xdev_check_hndl p a s = (0, mutex_lock s)"
    by (rule attaching_check [OF f a])
  have d: "xdev_deref s a = Inr x"
    by (rule attaching_deref [OF f a])
  define s2 where "s2 = log_call (Qdma_device_init a) (mutex_lock s)"
  have a2: "attaching s0 p a x s2"
    unfolding s2_def using a by (intro attaching_log) simp
  define s3 where "s3 = xdev_store a (\<lambda>x. x\<lparr>flag_offline := False\<rparr>) s2"
  have a3: "attaching s0 p a (x\<lparr>flag_offline := False\<rparr>) s3"
    unfolding s3_def using a2 by (intro attaching_store [OF f]) simp_all
  show ?thesis
  proof (cases "device_init_rv E < 0")
    case True
    then have "qdma_device_online B E p a s
        = Inr (online_rv B E (conf x), log_call (Qdma_device_cleanup a) s2)"
      using nz c d by (simp add: qdma_device_online_def online_rv_def s2_def)
    moreover have "attaching s0 p a x (log_call (Qdma_device_cleanup a) s2)"
      using a2 by (rule attaching_log)
    ultimately show ?thesis by blast
  next
    case False
    then have "\<exists>s'. qdma_device_online B E p a s = Inr (online_rv B E (conf x), s')
        \<and> attaching s0 p a (x\<lparr>flag_offline := False\<rparr>) s'"
      using nz c d a3
      by (auto simp: qdma_device_online_def online_rv_def Let_def s2_def [symmetric]
            s3_def [symmetric] intro!: attaching_log)
    then show ?thesis by force
  qed
qed

lemma xdev_map_bars_attaching:
  assumes f: "fresh_attach s0 p a" and a: "attaching s0 p a x s"
    and r0: "regs x = 0" and t0: "stm_regs x = 0" and pd: "pci_deref s0 p = Inr pd"
  shows "\<exists>s' x'. xdev_map_bars B E a p s = Inr (if map_ok B E pd then 0 else - EINVAL, s')
           \<and> attaching s0 p a x' s' \<and> vf_max (conf x') = vf_max (conf x)
           \<and> (map_ok B E pd \<longrightarrow> regs x' = iomap_config E
                \<and> stm_regs x' = (if device pd = STM_ENABLED_DEVICE B then iomap_stm E else 0)
                \<and> stm_en x' = (device pd = STM_ENABLED_DEVICE B))"
proof -
  have d: "xdev_deref s a = Inr x"
    by (rule attaching_deref [OF f a])
  have pd': "pci_deref s p = Inr pd"
    using pd by (simp add: attaching_pci_deref [OF a])
  define x1 where "x1 = x\<lparr>conf := (conf x)\<lparr>bar_num_config := QDMA_CONFIG_BAR B\<rparr>\<rparr>"
  define s1 where "s1 = xdev_store a (\<lambda>x. x\<lparr>conf := (conf x)\<lparr>bar_num_config := QDMA_CONFIG_BAR B\<rparr>\<rparr>) s"
  have a1: "attaching s0 p a x1 s1"
    unfolding x1_def s1_def using a by (intro attaching_store [OF f]) (simp_all add: attaching_def)
  define map_len where "map_len = ulong_of_int
      (if int_of_resource_len (resource_len_config E) > QDMA_MAX_BAR_LEN_MAPPED B
       then QDMA_MAX_BAR_LEN_MAPPED B else int_of_resource_len (resource_len_config E))"
  define x2 where "x2 = x1\<lparr>regs := iomap_config E\<rparr>"
  define s2 where "s2 = xdev_store a (\<lambda>x. x\<lparr>regs := iomap_config E\<rparr>)
                     (pci_iomap p (QDMA_CONFIG_BAR B) map_len (iomap_config E) s1)"
  have a2: "attaching s0 p a x2 s2"
    unfolding x2_def s2_def using a1 r0 by (intro attaching_iomap_regs [OF f]) (simp_all add: x1_def)
  define s3 where "s3 = (if QDMA_VF B then s2 else log_call (Readl (iomap_config E)) s2)"
  have a3: "attaching s0 p a x2 s3"
    unfolding s3_def using a2 by (simp add: attaching_log)
  have x2r: "regs x2 = iomap_config E" "stm_regs x2 = 0" "vf_max (conf x2) = vf_max (conf x)"
    using t0 by (simp_all add: x2_def x1_def)
  have head: "xdev_map_bars B E a p s =
     (if iomap_config E = 0 then Inr (- EINVAL, s2)
      else if \<not> QDMA_VF B \<and> (readl_id E AND 0xFFFF0000) \<noteq> 0x1FD30000
      then (case xdev_unmap_bars a p s3 of Inl f \<Rightarrow> Inl f | Inr s4 \<Rightarrow> Inr (- EINVAL, s4))
      else if device pd = STM_ENABLED_DEVICE B
      then
        let s4 = xdev_store a (\<lambda>x. x\<lparr>stm_regs := iomap_stm E\<rparr>)
                   (pci_iomap p (STM_BAR B)
                      (ulong_of_int (int_of_resource_len (resource_len_stm E))) (iomap_stm E) s3)
        in if iomap_stm E = 0 then Inr (- EINVAL, s4)
           else
             let s5 = log_call (Readl (iomap_stm E + STM_REG_BASE B + STM_REG_REV B)) s4
             in if \<not> stm_rev_ok B (readl_stm_rev E)
                then (case xdev_unmap_bars a p s5 of Inl f \<Rightarrow> Inl f | Inr s6 \<Rightarrow> Inr (- EINVAL, s6))
                else Inr (0, xdev_store a
                       (\<lambda>x. x\<lparr>stm_en := True, stm_rev := readl_stm_rev E AND 0xFF\<rparr>) s5)
      else Inr (0, xdev_store a (\<lambda>x. x\<lparr>stm_en := False\<rparr>) s3))"
    by (simp add: xdev_map_bars_def d pd' Let_def s1_def s2_def s3_def map_len_def)
  show ?thesis
  proof (cases "iomap_config E = 0")
    case True
    with head a2 x2r show ?thesis by (auto simp: map_ok_def)
  next
    case k: False
    show ?thesis
    proof (cases "\<not> QDMA_VF B \<and> (readl_id E AND 0xFFFF0000) \<noteq> 0x1FD30000")
      case True
      from attaching_unmap [OF f a3] obtain s4 where "xdev_unmap_bars a p s3 = Inr s4"
        and "attaching s0 p a (x2\<lparr>regs := 0, stm_regs := 0\<rparr>) s4" by blast
      with head k True x2r show ?thesis
        by (intro exI [of _ s4] exI [of _ "x2\<lparr>regs := 0, stm_regs := 0\<rparr>"]) (auto simp: map_ok_def)
    next
      case idok: False
      show ?thesis
      proof (cases "device pd = STM_ENABLED_DEVICE B")
        case False
        have "attaching s0 p a (x2\<lparr>stm_en := False\<rparr>) (xdev_store a (\<lambda>x. x\<lparr>stm_en := False\<rparr>) s3)"
          using a3 by (intro attaching_store [OF f]) simp_all
        with head k idok False x2r show ?thesis
          by (intro exI [of _ "xdev_store a (\<lambda>x. x\<lparr>stm_en := False\<rparr>) s3"]
                exI [of _ "x2\<lparr>stm_en := False\<rparr>"]) (auto simp: map_ok_def)
      next
        case stm: True
        define x4 where "x4 = x2\<lparr>stm_regs := iomap_stm E\<rparr>"
        define s4 where "s4 = xdev_store a (\<lambda>x. x\<lparr>stm_regs := iomap_stm E\<rparr>)
                   (pci_iomap p (STM_BAR B)
                      (ulong_of_int (int_of_resource_len (resource_len_stm E))) (iomap_stm E) s3)"
        have a4: "attaching s0 p a x4 s4"
          unfolding x4_def s4_def using a3 x2r by (intro attaching_iomap_stm [OF f]) simp_all
        define s5 where "s5 = log_call (Readl (iomap_stm E + STM_REG_BASE B + STM_REG_REV B)) s4"
        have a5: "attaching s0 p a x4 s5"
          unfolding s5_def using a4 by (rule attaching_log)
        have x4r: "regs x4 = iomap_config E" "stm_regs x4 = iomap_stm E"
          "vf_max (conf x4) = vf_max (conf x)"
          using x2r by (simp_all add: x4_def)
        have head': "xdev_map_bars B E a p s =
            (if iomap_stm E = 0 then Inr (- EINVAL, s4)
             else if \<not> stm_rev_ok B (readl_stm_rev E)
                then (case xdev_unmap_bars a p s5 of Inl f \<Rightarrow> Inl f | Inr s6 \<Rightarrow> Inr (- EINVAL, s6))
                else Inr (0, xdev_store a
                       (\<lambda>x. x\<lparr>stm_en := True, stm_rev := readl_stm_rev E AND 0xFF\<rparr>) s5))"
          using head k idok stm by (simp add: Let_def s4_def s5_def)
        show ?thesis
        proof (cases "iomap_stm E = 0")
          case True
          with head' a4 stm x4r show ?thesis by (auto simp: map_ok_def)
        next
          case k2: False
          show ?thesis
          proof (cases "stm_rev_ok B (readl_stm_rev E)")
            case False
            from attaching_unmap [OF f a5] obtain s6 where "xdev_unmap_bars a p s5 = Inr s6"
              and "attaching s0 p a (x4\<lparr>regs := 0, stm_regs := 0\<rparr>) s6" by blast
            with head' k2 False stm x4r show ?thesis
              by (intro exI [of _ s6] exI [of _ "x4\<lparr>regs := 0, stm_regs := 0\<rparr>"])
                 (auto simp: map_ok_def)
          next
            case True
            have "attaching s0 p a (x4\<lparr>stm_en := True, stm_rev := readl_stm_rev E AND 0xFF\<rparr>)
                (xdev_store a (\<lambda>x. x\<lparr>stm_en := True, stm_rev := readl_stm_rev E AND 0xFF\<rparr>) s5)"
              using a5 by (intro attaching_store [OF f]) simp_all
            with head' k k2 idok True stm x4r show ?thesis
              by (intro exI [of _ "xdev_store a
                    (\<lambda>x. x\<lparr>stm_en := True, stm_rev := readl_stm_rev E AND 0xFF\<rparr>) s5"]
                  exI [of _ "x4\<lparr>stm_en := True, stm_rev := readl_stm_rev E AND 0xFF\<rparr>"])
                 (auto simp: map_ok_def)
          qed
        qed
      qed
    qed
  qed
qed

lemma open_bring_online_attaching:
  assumes f: "fresh_attach s0 p a" and a: "attaching s0 p a x s"
  shows "\<exists>rv c' h s'. open_bring_online B E a p c s = Inr (rv, c', h, s') \<and>
           (if interface_ok B E \<and> \<not> online_rv B E (conf x) < 0
            then rv = 0 \<and> h = a
            else h = 0 \<and> no_trace s0 p s'
              \<and> rv = (if interface_ok B E then online_rv B E (conf x)
                       else QDMA_ERR_INTERFACE_NOT_ENABLED_IN_DEVICE B)
              \<and> (\<exists>pre. calls s' = calls s0 @ pre
                    @ (if interface_ok B E then offline_calls B a else [])
                    @ unmap_calls p x @ unwind_calls a p))"
proof -
  have d: "xdev_deref s a = Inr x"
    by (rule attaching_deref [OF f a])
  define s1 where "s1 = (if stm_en x
                    then log_call
                           (Writel ((readl_h2c_mode E AND 0x0000FFFF) OR push_bit 16 (STM_PORT_MAP B))
                              (stm_regs x + STM_REG_BASE B + STM_REG_H2C_MODE B))
                           (log_call (Readl (stm_regs x + STM_REG_BASE B + STM_REG_H2C_MODE B)) s)
                    else s)"
  have a1: "attaching s0 p a x s1"
    unfolding s1_def using a by (simp add: attaching_log)
  define g :: "xlnx_dma_dev \<Rightarrow> xlnx_dma_dev" where "g = (\<lambda>x. x\<lparr>flr_prsnt := attr_flr_prsnt E, st_mode_en := attr_st_mode_en E,
                               mm_mode_en := attr_mm_mode_en E,
                               mm_channel_max := attr_mm_channel_max E\<rparr>)"
  define x2 where "x2 = (if QDMA_VF B then x else g x)"
  define s2 where "s2 = (if QDMA_VF B then s1 else qdma_device_attributes_get E a s1)"
  have a2: "attaching s0 p a x2 s2"
  proof (cases "QDMA_VF B")
    case True
    with a1 show ?thesis by (simp add: x2_def s2_def)
  next
    case False
    have "attaching s0 p a (g x) (xdev_store a g s1)"
      using a1 by (intro attaching_store [OF f]) (simp_all add: g_def)
    then show ?thesis
      using False by (simp add: x2_def s2_def qdma_device_attributes_get_def g_def attaching_log)
  qed
  have d2: "xdev_deref s2 a = Inr x2"
    by (rule attaching_deref [OF f a2])
  have x2c: "conf x2 = conf x" "regs x2 = regs x" "stm_regs x2 = stm_regs x"
    by (simp_all add: x2_def g_def)
  have iface: "(\<not> QDMA_VF B \<and> \<not> mm_mode_en x2 \<and> \<not> st_mode_en x2) = (\<not> interface_ok B E)"
    by (auto simp: x2_def g_def interface_ok_def)
  have head: "open_bring_online B E a p c s =
      (if \<not> interface_ok B E
       then open_unmap_bars a p (QDMA_ERR_INTERFACE_NOT_ENABLED_IN_DEVICE B) c s2
       else (case qdma_device_online B E p a s2 of
               Inl f \<Rightarrow> Inl f
             | Inr (rv, s3) \<Rightarrow>
                 if rv < 0 then open_cleanup_qdma B a p rv (conf x2) s3
                 else Inr (QDMA_OPERATION_SUCCESSFUL, conf x2, a, s3)))"
    unfolding open_bring_online_def
    by (simp add: d Let_def s1_def [symmetric] s2_def [symmetric] d2 iface)
  from a2 obtain cs2 where cs2: "calls s2 = calls s0 @ cs2"
    by (auto simp: attaching_def)
  show ?thesis
  proof (cases "interface_ok B E")
    case False
    from open_unmap_bars_attaching [OF f a2, of "QDMA_ERR_INTERFACE_NOT_ENABLED_IN_DEVICE B" c]
    obtain s' where "open_unmap_bars a p (QDMA_ERR_INTERFACE_NOT_ENABLED_IN_DEVICE B) c s2
          = Inr (QDMA_ERR_INTERFACE_NOT_ENABLED_IN_DEVICE B, c, 0, s')"
      and "xdev_list s' = xdev_list s0" "claimed s' = claimed s0 - {p}"
        "iomapped s' \<subseteq> iomapped s0"
      and "calls s' = calls s2 @ unmap_calls p x2 @ unwind_calls a p"
      by blast
    with head False cs2 x2c show ?thesis
      by (auto simp: no_trace_def unmap_calls_cong [of x2 x])
  next
    case True
    from qdma_device_online_attaching [OF f a2, of B E] obtain s3 x3
      where o: "qdma_device_online B E p a s2 = Inr (online_rv B E (conf x2), s3)"
        and a3: "attaching s0 p a x3 s3"
        and x3: "regs x3 = regs x2" "stm_regs x3 = stm_regs x2"
      by blast
    from a3 obtain cs3 where cs3: "calls s3 = calls s0 @ cs3"
      by (auto simp: attaching_def)
    show ?thesis
    proof (cases "online_rv B E (conf x) < 0")
      case False
      with head True o x2c show ?thesis
        by (simp add: QDMA_OPERATION_SUCCESSFUL_def)
    next
      case fail: True
      from open_cleanup_qdma_attaching [OF f a3, of B "online_rv B E (conf x2)" "conf x2"]
      obtain s' where "open_cleanup_qdma B a p (online_rv B E (conf x2)) (conf x2) s3
            = Inr (online_rv B E (conf x2), conf x2, 0, s')"
        and "xdev_list s' = xdev_list s0" "claimed s' = claimed s0 - {p}"
          "iomapped s' \<subseteq> iomapped s0"
        and "calls s' = calls s3 @ offline_calls B a @ unmap_calls p x3 @ unwind_calls a p"
        by blast
      with head True o fail cs3 x2c x3 show ?thesis
        by (auto simp: no_trace_def unmap_calls_cong [of x3 x])
    qed
  qed
qed

lemma online_rv_cong: "vf_max c' = vf_max c \<Longrightarrow> online_rv B E c' = online_rv B E c"
  by (simp add: online_rv_def)

lemma xdev_list_add_step_total:
  "\<not> isl (pci_deref s (pdev (conf x))) \<Longrightarrow> \<exists>st'. xdev_list_add_step B s npd x st = Inr st'"
  by (auto simp: xdev_list_add_step_def Let_def split: prod.splits sum.splits)

lemma xdev_list_add_loop_total:
  "\<forall>e\<in>set L. \<not> isl (pci_deref s (pdev (conf (snd e))))
     \<Longrightarrow> \<exists>st'. xdev_list_add_loop B s npd L st = Inr st'"
proof (induction L arbitrary: st)
  case Nil
  show ?case by (rule exI [of _ st]) simp
next
  case (Cons e L)
  then obtain st1 where "xdev_list_add_step B s npd (snd e) st = Inr st1"
    using xdev_list_add_step_total [of s "snd e" B npd st] by auto
  with Cons show ?case by simp
qed

lemma xdev_list_add_total:
  assumes "pdevs_live s" and "pci_deref s (pdev (conf x)) = Inr npd"
  shows "\<exists>s'. xdev_list_add B a x s = Inr s'"
proof -
  define b where "b = push_bit (PCI_SHIFT_BUS B) (ucast (bus_number npd))
                    OR push_bit (PCI_SHIFT_DEV B) (PCI_SLOT (devfn npd))
                    OR PCI_FUNC (devfn npd)"
  define x1 where "x1 = x\<lparr>conf := (conf x)\<lparr>bdf := b\<rparr>\<rparr>"
  have "\<forall>e\<in>set (xdev_list s @ [(a, x1)]). \<not> isl (pci_deref (mutex_lock s) (pdev (conf (snd e))))"
    using assms by (auto simp: pdevs_live_def x1_def)
  from xdev_list_add_loop_total [OF this, of B npd "(idx (conf x1), 0, 0)"]
  obtain st' where "xdev_list_add_loop B (mutex_lock s) npd (xdev_list s @ [(a, x1)])
      (idx (conf x1), 0, 0) = Inr st'" by blast
  moreover have "idx (conf x1) = idx (conf x)"
    by (simp add: x1_def)
  ultimately have "xdev_list_add_loop B (mutex_lock s) npd (xdev_list s @ [(a, x1)])
      (idx (conf x), 0, 0) = Inr st'" by simp
  then show ?thesis
    using assms(2)
    by (cases st') (simp add: xdev_list_add_def Let_def b_def [symmetric] x1_def [symmetric])
qed

lemma unmap_calls_mapped:
  assumes "map_ok B E pd" and "regs x = iomap_config E"
    and "stm_regs x = (if device pd = STM_ENABLED_DEVICE B then iomap_stm E else 0)"
  shows "unmap_calls p x = mapped_unmap_calls B E p pd"
  using assms by (auto simp: unmap_calls_def mapped_unmap_calls_def map_ok_def)

lemma open_attach_result:
  assumes f: "fresh_attach s0 p a" and live: "pdevs_live s0" and pd: "pci_deref s0 p = Inr pd"
    and s: "xdev_list s = xdev_list s0" "pci_devs s = pci_devs s0"
      "claimed s = insert p (claimed s0)" "iomapped s = iomapped s0"
      "\<exists>cs. calls s = calls s0 @ cs"
    and x: "pdev (conf x) = p" "regs x = 0" "stm_regs x = 0"
  shows "\<exists>rv c' h s'. open_attach B E m p a x c s = Inr (rv, c', h, s') \<and>
     (if map_ok B E pd \<and> interface_ok B E \<and> \<not> online_rv B E (conf x) < 0
      then rv = 0 \<and> h = a
      else h = 0 \<and> no_trace s0 p s'
        \<and> rv = (if \<not> map_ok B E pd then - EINVAL
                 else if \<not> interface_ok B E then QDMA_ERR_INTERFACE_NOT_ENABLED_IN_DEVICE B
                 else online_rv B E (conf x))
        \<and> (\<exists>pre. calls s' = calls s0 @ pre @ unwind_calls a p)
        \<and> (map_ok B E pd \<and> interface_ok B E \<longrightarrow>
             (\<exists>pre. calls s' = calls s0 @ pre @ offline_calls B a
                       @ mapped_unmap_calls B E p pd @ unwind_calls a p)))"
proof -
  define x2 where "x2 = x\<lparr>mod_name := take (QDMA_DEV_NAME_MAXLEN B - 1) m, flag_offline := True\<rparr>"
  have same: "pci_deref s = pci_deref s0"
    using s by (simp add: pci_deref_def fun_eq_iff)
  then have live_s: "pdevs_live s"
    using live s by (simp add: pdevs_live_def)
  have pd_s: "pci_deref s (pdev (conf x2)) = Inr pd"
    using pd x by (simp add: x2_def same)
  from xdev_list_add_total [OF live_s pd_s, of B a] obtain s1
    where reg: "xdev_list_add B a x2 s = Inr s1" by blast
  from xdev_list_add_frame [OF reg] obtain v i where s1: "s1 = s\<lparr>xdev_mutex := xdev_mutex s + 1,
           xdev_list := xdev_list s @
             [(a, x2\<lparr>conf := (conf x2)\<lparr>bdf := v, idx := i, cur_cfg_state := CFG_UNCONFIGURED\<rparr>\<rparr>)]\<rparr>"
    by blast
  define x3 where "x3 = x2\<lparr>conf := (conf x2)\<lparr>bdf := v, idx := i, cur_cfg_state := CFG_UNCONFIGURED\<rparr>\<rparr>"
  have a1: "attaching s0 p a x3 s1"
    using s x by (auto simp: attaching_def s1 x3_def x2_def)
  have d1: "xdev_deref s1 a = Inr x3"
    by (rule attaching_deref [OF f a1])
  have p1: "pci_deref s1 (pdev (conf x3)) = Inr pd"
    using pd x by (simp add: attaching_pci_deref [OF a1] x3_def x2_def)
  define nm where "nm = ''qdma'' @ printf_0x 5 (unat (bdf (conf x3))) @ ''-p'' @ dev_name pd"
  define x4 where "x4 = x3\<lparr>conf := (conf x3)\<lparr>name := nm\<rparr>\<rparr>"
  define s2 where "s2 = xdev_store a (\<lambda>x. x\<lparr>conf := (conf x)\<lparr>name := nm\<rparr>\<rparr>) s1"
  have a2: "attaching s0 p a x4 s2"
    unfolding x4_def s2_def using a1 by (intro attaching_store [OF f]) simp_all
  have x4: "regs x4 = 0" "stm_regs x4 = 0" "vf_max (conf x4) = vf_max (conf x)"
    using x by (simp_all add: x4_def x3_def x2_def)
  from xdev_map_bars_attaching [OF f a2 x4(1) x4(2) pd, of B E] obtain s3 x5
    where mb: "xdev_map_bars B E a p s2 = Inr (if map_ok B E pd then 0 else - EINVAL, s3)"
      and a3: "attaching s0 p a x5 s3"
      and v5: "vf_max (conf x5) = vf_max (conf x4)"
      and r5: "map_ok B E pd \<longrightarrow> regs x5 = iomap_config E
                \<and> stm_regs x5 = (if device pd = STM_ENABLED_DEVICE B then iomap_stm E else 0)
                \<and> stm_en x5 = (device pd = STM_ENABLED_DEVICE B)"
    by blast
  have head: "open_attach B E m p a x c s =
      (if \<not> map_ok B E pd then open_unmap_bars a p (- EINVAL) c s3
       else open_bring_online B E a p c s3)"
  proof -
    have "open_register B m a x s = Inr s1"
      unfolding open_register_def using reg by (simp only: x2_def)
    then have "open_attach B E m p a x c s =
        (case xdev_map_bars B E a p s2 of
           Inl f \<Rightarrow> Inl f
         | Inr (rv, s3) \<Rightarrow>
             if rv \<noteq> 0 then open_unmap_bars a p rv c s3
             else open_bring_online B E a p c s3)"
      unfolding open_attach_def by (simp add: d1 p1 Let_def nm_def s2_def)
    then show ?thesis
      by (simp add: mb EINVAL_def)
  qed
  have orv: "online_rv B E (conf x5) = online_rv B E (conf x)"
    using v5 x4(3) by (intro online_rv_cong) simp
  from a3 obtain cs3 where cs3: "calls s3 = calls s0 @ cs3"
    by (auto simp: attaching_def)
  show ?thesis
  proof (cases "map_ok B E pd")
    case False
    from open_unmap_bars_attaching [OF f a3, of "- EINVAL" c]
    obtain s' where "open_unmap_bars a p (- EINVAL) c s3 = Inr (- EINVAL, c, 0, s')"
      and "xdev_list s' = xdev_list s0" "claimed s' = claimed s0 - {p}"
        "iomapped s' \<subseteq> iomapped s0"
      and "calls s' = calls s3 @ unmap_calls p x5 @ unwind_calls a p"
      by blast
    with head False cs3 show ?thesis
      by (auto simp: no_trace_def)
  next
    case True
    with r5 have u: "unmap_calls p x5 = mapped_unmap_calls B E p pd"
      by (intro unmap_calls_mapped) simp_all
    from open_bring_online_attaching [OF f a3, of B E c]
    obtain rv c' h s' where r: "open_bring_online B E a p c s3 = Inr (rv, c', h, s')"
      and k: "if interface_ok B E \<and> \<not> online_rv B E (conf x5) < 0
            then rv = 0 \<and> h = a
            else h = 0 \<and> no_trace s0 p s'
              \<and> rv = (if interface_ok B E then online_rv B E (conf x5)
                       else QDMA_ERR_INTERFACE_NOT_ENABLED_IN_DEVICE B)
              \<and> (\<exists>pre. calls s' = calls s0 @ pre
                    @ (if interface_ok B E then offline_calls B a else [])
                    @ unmap_calls p x5 @ unwind_calls a p)"
      by blast
    show ?thesis
    proof (cases "interface_ok B E \<and> \<not> online_rv B E (conf x) < 0")
      case ok: True
      with head True r k orv show ?thesis by simp
    next
      case bad: False
      with k orv obtain pre where h0: "h = 0" and nt: "no_trace s0 p s'"
        and rv: "rv = (if interface_ok B E then online_rv B E (conf x)
                       else QDMA_ERR_INTERFACE_NOT_ENABLED_IN_DEVICE B)"
        and cl: "calls s' = calls s0 @ pre
                    @ (if interface_ok B E then offline_calls B a else [])
                    @ mapped_unmap_calls B E p pd @ unwind_calls a p"
        by (auto simp: u)
      have e1: "\<exists>pre. calls s' = calls s0 @ pre @ unwind_calls a p"
        by (rule exI [of _ "pre @ (if interface_ok B E then offline_calls B a else [])
                    @ mapped_unmap_calls B E p pd"]) (simp add: cl)
      have e2: "interface_ok B E \<longrightarrow> (\<exists>pre. calls s' = calls s0 @ pre @ offline_calls B a
                       @ mapped_unmap_calls B E p pd @ unwind_calls a p)"
        using cl by auto
      from head True r bad h0 nt rv e1 e2 show ?thesis
        by auto
    qed
  qed
qed

lemma pci_dma_mask_set_result:
  "\<exists>s'. pci_dma_mask_set E p s = (if mask_ok E then 0 else - EINVAL, s')
     \<and> xdev_list s' = xdev_list s \<and> pci_devs s' = pci_devs s \<and> claimed s' = claimed s
     \<and> iomapped s' = iomapped s \<and> (\<exists>cs. calls s' = calls s @ cs)"
  by (simp add: pci_dma_mask_set_def mask_ok_def Let_def)

lemma find_attached:
  "find (\<lambda>e. pdev (conf (snd e)) = p) (xdev_list s) = None \<longleftrightarrow> \<not> attached s p"
  by (simp add: find_none_storing attached_def)

lemma qdma_device_open_paths:
  assumes live: "pdevs_live s" and pd: "pci_deref s (pdev c0) = Inr pd"
    and fresh: "kzalloc_ret E \<notin> fst ` set (xdev_list s)"
  shows "\<exists>rv c' h s'. qdma_device_open B E (Some m) (Some c0) s = Inr (rv, c', h, s') \<and>
    (if attached s (pdev c0)
       then rv = QDMA_ERR_PCI_DEVICE_ALREADY_ATTACHED B \<and> h = 0 \<and> s' = mutex_lock s
     else if request_regions_rv E \<noteq> 0
       then rv = request_regions_rv E \<and> h = 0 \<and> xdev_list s' = xdev_list s
            \<and> claimed s' = claimed s \<and> iomapped s' = iomapped s
     else if enable_device_rv E \<noteq> 0
       then rv = enable_device_rv E \<and> h = 0 \<and> no_trace s (pdev c0) s'
     else if \<not> mask_ok E
       then rv = - EINVAL \<and> h = 0 \<and> no_trace s (pdev c0) s'
     else if kzalloc_ret E = 0
       then rv = 0 \<and> h = 0 \<and> no_trace s (pdev c0) s'
     else if map_ok B E pd \<and> interface_ok B E \<and> \<not> online_rv B E c0 < 0
       then rv = 0 \<and> h = kzalloc_ret E
     else h = 0 \<and> no_trace s (pdev c0) s'
        \<and> rv = (if \<not> map_ok B E pd then - EINVAL
                 else if \<not> interface_ok B E then QDMA_ERR_INTERFACE_NOT_ENABLED_IN_DEVICE B
                 else online_rv B E c0)
        \<and> (map_ok B E pd \<and> interface_ok B E \<longrightarrow>
             (\<exists>pre. calls s' = calls s @ pre @ offline_calls B (kzalloc_ret E)
                       @ mapped_unmap_calls B E (pdev c0) pd
                       @ unwind_calls (kzalloc_ret E) (pdev c0))))"
proof -
  define p where "p = pdev c0"
  define c where "c = c0\<lparr>bar_num_config := - 1, bar_num_user := - 1\<rparr>"
  have pnz: "p \<noteq> 0"
    using pd by (auto simp: p_def pci_deref_def split: if_splits)
  define s1 where "s1 = mutex_lock s"
  define s2 where "s2 = pci_request_regions E p s1"
  define s3 where "s3 = log_call (Pci_enable_device p) s2"
  define s4 where "s4 = log_call (Pci_set_master p) (log_call (Pci_enable_relaxed_ordering p) s3)"
  have head: "qdma_device_open B E (Some m) (Some c0) s =
      (case find (\<lambda>e. pdev (conf (snd e)) = p) (xdev_list s) of
         Some e \<Rightarrow> Inr (QDMA_ERR_PCI_DEVICE_ALREADY_ATTACHED B, c, 0, s1)
       | None \<Rightarrow>
           if request_regions_rv E \<noteq> 0 then Inr (request_regions_rv E, c, 0, s2)
           else if enable_device_rv E \<noteq> 0
           then Inr (open_release_regions p (enable_device_rv E) c s3)
           else (case pci_dma_mask_set E p s4 of
                   (rv, s5) \<Rightarrow>
                     if rv \<noteq> 0 then Inr (open_disable_device p rv c s5)
                     else (case xdev_alloc E c s5 of
                             (None, s6) \<Rightarrow> Inr (open_disable_device p rv c s6)
                           | (Some (a, x), s6) \<Rightarrow> open_attach B E m p a x c s6)))"
    using pd pnz unfolding p_def c_def s1_def s2_def s3_def s4_def
    by (simp add: qdma_device_open_def xdev_find_by_pdev_def Let_def split: option.splits)
  show ?thesis
  proof (cases "attached s p")
    case True
    then obtain e where "find (\<lambda>e. pdev (conf (snd e)) = p) (xdev_list s) = Some e"
      using find_attached [of p s] by (cases "find (\<lambda>e. pdev (conf (snd e)) = p) (xdev_list s)") auto
    with head True show ?thesis
      by (simp add: p_def [symmetric] s1_def)
  next
    case un: False
    then have none: "find (\<lambda>e. pdev (conf (snd e)) = p) (xdev_list s) = None"
      by (simp add: find_attached)
    show ?thesis
    proof (cases "request_regions_rv E \<noteq> 0")
      case True
      with head none un show ?thesis
        by (simp add: p_def [symmetric] s2_def s1_def)
    next
      case req: False
      show ?thesis
      proof (cases "enable_device_rv E \<noteq> 0")
        case True
        with head none un req show ?thesis
          by (auto simp: p_def [symmetric] open_release_regions_def no_trace_def
                s3_def s2_def s1_def)
      next
        case en: False
        from pci_dma_mask_set_result [of E p s4] obtain s5
          where ms: "pci_dma_mask_set E p s4 = (if mask_ok E then 0 else - EINVAL, s5)"
            and s5: "xdev_list s5 = xdev_list s4" "pci_devs s5 = pci_devs s4"
              "claimed s5 = claimed s4" "iomapped s5 = iomapped s4"
            and c5: "\<exists>cs. calls s5 = calls s4 @ cs"
          by blast
        have s4: "xdev_list s4 = xdev_list s" "pci_devs s4 = pci_devs s"
          "claimed s4 = insert p (claimed s)" "iomapped s4 = iomapped s"
          using req by (simp_all add: s4_def s3_def s2_def s1_def)
        have c4: "\<exists>cs. calls s4 = calls s @ cs"
          by (simp add: s4_def s3_def s2_def s1_def)
        show ?thesis
        proof (cases "mask_ok E")
          case False
          with head none un req en ms s5 s4 show ?thesis
            by (auto simp: p_def [symmetric] open_disable_device_def open_release_regions_def
                  no_trace_def EINVAL_def)
        next
          case mk: True
          define s6 where "s6 = log_call Kzalloc s5"
          show ?thesis
          proof (cases "kzalloc_ret E = 0")
            case True
            with head none un req en ms mk s5 s4 show ?thesis
              by (auto simp: p_def [symmetric] open_disable_device_def open_release_regions_def
                    no_trace_def xdev_alloc_def Let_def)
          next
            case kz: False
            define x where "x = xdev_zeroed\<lparr>conf := c, flr_prsnt := True, st_mode_en := True,
                                  mm_mode_en := True, mm_channel_max := 1\<rparr>"
            have al: "xdev_alloc E c s5 = (Some (kzalloc_ret E, x), s6)"
              using kz by (simp add: xdev_alloc_def Let_def x_def s6_def)
            have f: "fresh_attach s p (kzalloc_ret E)"
              using kz fresh pnz un by (simp add: fresh_attach_def attached_def)
            have pd': "pci_deref s p = Inr pd"
              using pd by (simp add: p_def)
            have s6: "xdev_list s6 = xdev_list s" "pci_devs s6 = pci_devs s"
              "claimed s6 = insert p (claimed s)" "iomapped s6 = iomapped s"
              using s5 s4 by (simp_all add: s6_def)
            have c6: "\<exists>cs. calls s6 = calls s @ cs"
              using c5 c4 by (auto simp: s6_def)
            have x: "pdev (conf x) = p" "regs x = 0" "stm_regs x = 0"
              by (simp_all add: x_def xdev_zeroed_def c_def p_def)
            have orv: "online_rv B E (conf x) = online_rv B E c0"
              by (intro online_rv_cong) (simp add: x_def c_def)
            have o: "qdma_device_open B E (Some m) (Some c0) s
                = open_attach B E m p (kzalloc_ret E) x c s6"
              using head none req en ms mk al by simp
            from open_attach_result [OF f live pd' s6 c6 x, of B E m c]
            obtain rv c' h s' where r: "open_attach B E m p (kzalloc_ret E) x c s6 = Inr (rv, c', h, s')"
              and k: "if map_ok B E pd \<and> interface_ok B E \<and> \<not> online_rv B E (conf x) < 0
                then rv = 0 \<and> h = kzalloc_ret E
                else h = 0 \<and> no_trace s p s'
                  \<and> rv = (if \<not> map_ok B E pd then - EINVAL
                           else if \<not> interface_ok B E then QDMA_ERR_INTERFACE_NOT_ENABLED_IN_DEVICE B
                           else online_rv B E (conf x))
                  \<and> (\<exists>pre. calls s' = calls s @ pre @ unwind_calls (kzalloc_ret E) p)
                  \<and> (map_ok B E pd \<and> interface_ok B E \<longrightarrow>
                       (\<exists>pre. calls s' = calls s @ pre @ offline_calls B (kzalloc_ret E)
                                 @ mapped_unmap_calls B E p pd @ unwind_calls (kzalloc_ret E) p))"
              by blast
            have "if map_ok B E pd \<and> interface_ok B E \<and> \<not> online_rv B E c0 < 0
                then rv = 0 \<and> h = kzalloc_ret E
                else h = 0 \<and> no_trace s p s'
                  \<and> rv = (if \<not> map_ok B E pd then - EINVAL
                           else if \<not> interface_ok B E then QDMA_ERR_INTERFACE_NOT_ENABLED_IN_DEVICE B
                           else online_rv B E c0)
                  \<and> (map_ok B E pd \<and> interface_ok B E \<longrightarrow>
                       (\<exists>pre. calls s' = calls s @ pre @ offline_calls B (kzalloc_ret E)
                                 @ mapped_unmap_calls B E p pd @ unwind_calls (kzalloc_ret E) p))"
              using k unfolding orv by (simp split: if_splits)
            with o r un req en mk kz show ?thesis
              unfolding p_def [symmetric]
              by (intro exI [of _ rv] exI [of _ c'] exI [of _ h] exI [of _ s']) simp
          qed
        qed
      qed
    qed
  qed
qed

lemmas open_eval =
  qdma_device_open_def open_attach_def open_register_def open_bring_online_def
  open_cleanup_qdma_def open_unmap_bars_def open_disable_device_def open_release_regions_def
  qdma_device_online_def qdma_device_offline_def xdev_map_bars_def xdev_unmap_bars_def
  xdev_alloc_def xdev_zeroed_def pci_dma_mask_set_def qdma_device_attributes_get_def
  pci_request_regions_def pci_release_regions_def pci_iomap_def pci_iounmap_def
  xdev_list_add_def xdev_list_add_step_def xdev_list_remove_def xdev_check_hndl_def
  xdev_find_by_pdev_def xdev_deref_def xdev_store_def pci_deref_def mutex_lock_def log_call_def
  PCI_SLOT_def PCI_FUNC_def CFG_UNCONFIGURED_def EINVAL_def QDMA_OPERATION_SUCCESSFUL_def
  stm_rev_ok_def int_of_resource_len_def ulong_of_int_def pf_build_def env_ok_def bus_example_def two_devices_def xdev_of_def conf_of_def
  pci_dev_at_def Let_def






text \<open>
  The failure paths of \<^verbatim>\<open>qdma_device_open\<close>, for a configuration whose bus reference \<open>p\<close>
  points at a live bus device, in a state whose listed devices all store live bus
  references, with \<^verbatim>\<open>kzalloc\<close> answering null or an address that names no listed device. Open
  returns, and whenever it leaves the handle null the list is the one it started with, and
  neither the claimed regions nor the mappings hold anything they did not hold before. If
  \<open>p\<close> was not attached before, it is not attached afterwards, and the regions open claimed
  for it are released again. When \<open>p\<close> was attached already, the result is
  \<^verbatim>\<open>QDMA_ERR_PCI_DEVICE_ALREADY_ATTACHED\<close> and the existing entry, its claim and its mappings
  stay. The result is negative on each of these paths but one, when the kernel answers 0 or
  a negative errno and the two error codes are negative: when the allocation fails, the
  result need not be negative. With a null module name, or a null bus reference in the
  configuration, open returns \<^verbatim>\<open>QDMA_ERR_INVALID_INPUT_PARAM\<close> or \<^verbatim>\<open>QDMA_ERR_INVALID_PCI_DEV\<close>
  in an unchanged state.
\<close>

lemma open_failure_leaves_no_trace:
  assumes live: "pdevs_live s" and pd: "pci_deref s (pdev c0) = Inr pd"
    and fresh: "kzalloc_ret E \<notin> fst ` set (xdev_list s)"
    and errno: "request_regions_rv E \<le> 0" "enable_device_rv E \<le> 0"
    and codes: "QDMA_ERR_PCI_DEVICE_ALREADY_ATTACHED B < 0"
      "QDMA_ERR_INTERFACE_NOT_ENABLED_IN_DEVICE B < 0"
  shows "(\<exists>rv c' h s'. qdma_device_open B E (Some m) (Some c0) s = Inr (rv, c', h, s')
            \<and> (h \<noteq> 0 \<longrightarrow> rv = 0)
            \<and> (h = 0 \<longrightarrow>
                 xdev_list s' = xdev_list s \<and> claimed s' \<subseteq> claimed s
                 \<and> iomapped s' \<subseteq> iomapped s
                 \<and> (rv < 0 \<or> (kzalloc_ret E = 0 \<and> \<not> attached s (pdev c0)
                       \<and> request_regions_rv E = 0 \<and> enable_device_rv E = 0 \<and> mask_ok E))
                 \<and> (\<not> attached s (pdev c0) \<longrightarrow> \<not> attached s' (pdev c0))
                 \<and> (\<not> attached s (pdev c0) \<and> request_regions_rv E = 0
                       \<longrightarrow> pdev c0 \<notin> claimed s')
                 \<and> (attached s (pdev c0) \<longrightarrow>
                       rv = QDMA_ERR_PCI_DEVICE_ALREADY_ATTACHED B \<and> attached s' (pdev c0)
                       \<and> claimed s' = claimed s \<and> iomapped s' = iomapped s)))
         \<and> qdma_device_open B E None (Some c0) s = Inr (QDMA_ERR_INVALID_INPUT_PARAM B, c0, 0, s)
         \<and> (pdev c1 = 0 \<longrightarrow>
               qdma_device_open B E (Some m) (Some c1) s
                 = Inr (QDMA_ERR_INVALID_PCI_DEV B, c1, 0, s))"
proof (intro conjI impI)
  from qdma_device_open_paths [OF live pd fresh, where B = B and m = m]
  obtain rv c' h s' where r: "qdma_device_open B E (Some m) (Some c0) s = Inr (rv, c', h, s')"
    and k: "if attached s (pdev c0)
       then rv = QDMA_ERR_PCI_DEVICE_ALREADY_ATTACHED B \<and> h = 0 \<and> s' = mutex_lock s
     else if request_regions_rv E \<noteq> 0
       then rv = request_regions_rv E \<and> h = 0 \<and> xdev_list s' = xdev_list s
            \<and> claimed s' = claimed s \<and> iomapped s' = iomapped s
     else if enable_device_rv E \<noteq> 0
       then rv = enable_device_rv E \<and> h = 0 \<and> no_trace s (pdev c0) s'
     else if \<not> mask_ok E
       then rv = - EINVAL \<and> h = 0 \<and> no_trace s (pdev c0) s'
     else if kzalloc_ret E = 0
       then rv = 0 \<and> h = 0 \<and> no_trace s (pdev c0) s'
     else if map_ok B E pd \<and> interface_ok B E \<and> \<not> online_rv B E c0 < 0
       then rv = 0 \<and> h = kzalloc_ret E
     else h = 0 \<and> no_trace s (pdev c0) s'
        \<and> rv = (if \<not> map_ok B E pd then - EINVAL
                 else if \<not> interface_ok B E then QDMA_ERR_INTERFACE_NOT_ENABLED_IN_DEVICE B
                 else online_rv B E c0)
        \<and> (map_ok B E pd \<and> interface_ok B E \<longrightarrow>
             (\<exists>pre. calls s' = calls s @ pre @ offline_calls B (kzalloc_ret E)
                       @ mapped_unmap_calls B E (pdev c0) pd
                       @ unwind_calls (kzalloc_ret E) (pdev c0)))"
    by blast
  have nt: "no_trace s (pdev c0) s' \<Longrightarrow>
      xdev_list s' = xdev_list s \<and> claimed s' \<subseteq> claimed s \<and> iomapped s' \<subseteq> iomapped s
      \<and> pdev c0 \<notin> claimed s'"
    by (auto simp: no_trace_def)
  have at: "xdev_list s' = xdev_list s \<Longrightarrow> attached s' (pdev c0) = attached s (pdev c0)"
    by (simp add: attached_def)
  have "(h \<noteq> 0 \<longrightarrow> rv = 0)
            \<and> (h = 0 \<longrightarrow>
                 xdev_list s' = xdev_list s \<and> claimed s' \<subseteq> claimed s
                 \<and> iomapped s' \<subseteq> iomapped s
                 \<and> (rv < 0 \<or> (kzalloc_ret E = 0 \<and> \<not> attached s (pdev c0)
                       \<and> request_regions_rv E = 0 \<and> enable_device_rv E = 0 \<and> mask_ok E))
                 \<and> (\<not> attached s (pdev c0) \<longrightarrow> \<not> attached s' (pdev c0))
                 \<and> (\<not> attached s (pdev c0) \<and> request_regions_rv E = 0
                       \<longrightarrow> pdev c0 \<notin> claimed s')
                 \<and> (attached s (pdev c0) \<longrightarrow>
                       rv = QDMA_ERR_PCI_DEVICE_ALREADY_ATTACHED B \<and> attached s' (pdev c0)
                       \<and> claimed s' = claimed s \<and> iomapped s' = iomapped s))"
  proof (cases "attached s (pdev c0)")
    case True
    with k codes show ?thesis by (simp add: attached_def)
  next
    case un: False
    show ?thesis
    proof (cases "request_regions_rv E \<noteq> 0")
      case True
      with k un errno at show ?thesis by auto
    next
      case req: False
      show ?thesis
      proof (cases "enable_device_rv E \<noteq> 0")
        case True
        with k un req errno nt at show ?thesis by auto
      next
        case en: False
        show ?thesis
        proof (cases "mask_ok E")
          case False
          with k un req en nt at show ?thesis by (auto simp: EINVAL_def)
        next
          case mk: True
          show ?thesis
          proof (cases "kzalloc_ret E = 0")
            case True
            with k un req en mk nt at show ?thesis by auto
          next
            case kz: False
            show ?thesis
            proof (cases "map_ok B E pd \<and> interface_ok B E \<and> \<not> online_rv B E c0 < 0")
              case True
              with k un req en mk kz show ?thesis by auto
            next
              case False
              with k un req en mk kz have h: "h = 0" and n: "no_trace s (pdev c0) s'"
                and rv: "rv = (if \<not> map_ok B E pd then - EINVAL
                 else if \<not> interface_ok B E then QDMA_ERR_INTERFACE_NOT_ENABLED_IN_DEVICE B
                 else online_rv B E c0)"
                by simp_all
              from rv False codes have "rv < 0"
                by (auto simp: EINVAL_def split: if_splits)
              with h nt [OF n] at un show ?thesis by auto
            qed
          qed
        qed
      qed
    qed
  qed
  with r show "\<exists>rv c' h s'. qdma_device_open B E (Some m) (Some c0) s = Inr (rv, c', h, s')
            \<and> (h \<noteq> 0 \<longrightarrow> rv = 0)
            \<and> (h = 0 \<longrightarrow>
                 xdev_list s' = xdev_list s \<and> claimed s' \<subseteq> claimed s
                 \<and> iomapped s' \<subseteq> iomapped s
                 \<and> (rv < 0 \<or> (kzalloc_ret E = 0 \<and> \<not> attached s (pdev c0)
                       \<and> request_regions_rv E = 0 \<and> enable_device_rv E = 0 \<and> mask_ok E))
                 \<and> (\<not> attached s (pdev c0) \<longrightarrow> \<not> attached s' (pdev c0))
                 \<and> (\<not> attached s (pdev c0) \<and> request_regions_rv E = 0
                       \<longrightarrow> pdev c0 \<notin> claimed s')
                 \<and> (attached s (pdev c0) \<longrightarrow>
                       rv = QDMA_ERR_PCI_DEVICE_ALREADY_ATTACHED B \<and> attached s' (pdev c0)
                       \<and> claimed s' = claimed s \<and> iomapped s' = iomapped s))"
    by blast
next
  show "qdma_device_open B E None (Some c0) s = Inr (QDMA_ERR_INVALID_INPUT_PARAM B, c0, 0, s)"
    by (simp add: qdma_device_open_def)
next
  assume "pdev c1 = 0"
  then show "qdma_device_open B E (Some m) (Some c1) s
                 = Inr (QDMA_ERR_INVALID_PCI_DEV B, c1, 0, s)"
    by (simp add: qdma_device_open_def)
qed


lemma open_failure_leaves_no_trace_example:
  "(\<exists>c' s'. qdma_device_open pf_build (env_ok\<lparr>enable_device_rv := - 19\<rparr>) (Some ''qdma_pf'')
          (Some (conf_of 0x100)) bus_example = Inr (- 19, c', 0, s')
      \<and> xdev_list s' = [] \<and> \<not> attached s' 0x100 \<and> 0x100 \<notin> claimed s' \<and> iomapped s' \<subseteq> {})
   \<and> (\<exists>c' s'. qdma_device_open pf_build env_ok (Some ''qdma_pf'') (Some (conf_of 0x100))
          two_devices = Inr (QDMA_ERR_PCI_DEVICE_ALREADY_ATTACHED pf_build, c', 0, s')
      \<and> attached s' 0x100 \<and> claimed s' = {0x100, 0x200})
   \<and> qdma_device_open pf_build env_ok None (Some (conf_of 0x100)) bus_example
        = Inr (QDMA_ERR_INVALID_INPUT_PARAM pf_build, conf_of 0x100, 0, bus_example)
   \<and> qdma_device_open pf_build env_ok (Some ''qdma_pf'') (Some (conf_of 0)) bus_example
        = Inr (QDMA_ERR_INVALID_PCI_DEV pf_build, conf_of 0, 0, bus_example)"
proof -
  define E where "E = env_ok\<lparr>enable_device_rv := - 19\<rparr>"
  have live0: "pdevs_live bus_example"
    by (simp add: pdevs_live_def bus_example_def)
  have live2: "pdevs_live two_devices"
    by (simp add: pdevs_live_def pci_deref_def two_devices_def bus_example_def xdev_of_def
          conf_of_def)
  have pd0: "pci_deref bus_example (pdev (conf_of 0x100)) = Inr (pci_dev_at 3 8)"
    by (simp add: pci_deref_def bus_example_def conf_of_def)
  have pd2: "pci_deref two_devices (pdev (conf_of 0x100)) = Inr (pci_dev_at 3 8)"
    by (simp add: pci_deref_def two_devices_def bus_example_def conf_of_def)
  have fr0: "kzalloc_ret E \<notin> fst ` set (xdev_list bus_example)"
    by (simp add: bus_example_def)
  have fr2: "kzalloc_ret env_ok \<notin> fst ` set (xdev_list two_devices)"
    by (simp add: two_devices_def bus_example_def env_ok_def)
  have e0: "request_regions_rv E \<le> 0" "enable_device_rv E \<le> 0"
    by (simp_all add: E_def env_ok_def)
  have e2: "request_regions_rv env_ok \<le> 0" "enable_device_rv env_ok \<le> 0"
    by (simp_all add: env_ok_def)
  have cd: "QDMA_ERR_PCI_DEVICE_ALREADY_ATTACHED pf_build < 0"
    "QDMA_ERR_INTERFACE_NOT_ENABLED_IN_DEVICE pf_build < 0"
    by (simp_all add: pf_build_def)
  have p0: "pdev (conf_of 0) = 0" and p1: "pdev (conf_of 0x100) = 0x100"
    by (simp_all add: conf_of_def)
  have un0: "\<not> attached bus_example 0x100"
    by (simp add: attached_def bus_example_def)
  have at2: "attached two_devices 0x100"
    by (simp add: attached_def two_devices_def bus_example_def xdev_of_def conf_of_def)
  have rq: "request_regions_rv E = 0"
    by (simp add: E_def env_ok_def)
  have fr3: "kzalloc_ret env_ok \<notin> fst ` set (xdev_list bus_example)"
    by (simp add: bus_example_def)
  note t0 = open_failure_leaves_no_trace [OF live0 pd0 fr0 e0 cd, where m = "''qdma_pf''"
      and ?c1.0 = "conf_of 0", unfolded p1]
  note t2 = open_failure_leaves_no_trace [OF live2 pd2 fr2 e2 cd, where m = "''qdma_pf''"
      and ?c1.0 = "conf_of 0", unfolded p1]
  note t3 = open_failure_leaves_no_trace [OF live0 pd0 fr3 e2 cd, where m = "''qdma_pf''"
      and ?c1.0 = "conf_of 0"]
  have ev0: "\<exists>c' s'. qdma_device_open pf_build E (Some ''qdma_pf'') (Some (conf_of 0x100))
      bus_example = Inr (- 19, c', 0, s')"
    by (simp add: E_def open_eval)
  have ev2: "\<exists>c' s'. qdma_device_open pf_build env_ok (Some ''qdma_pf'') (Some (conf_of 0x100))
      two_devices = Inr (QDMA_ERR_PCI_DEVICE_ALREADY_ATTACHED pf_build, c', 0, s')"
    by (simp add: open_eval)
  have 1: "\<exists>c' s'. qdma_device_open pf_build E (Some ''qdma_pf'')
          (Some (conf_of 0x100)) bus_example = Inr (- 19, c', 0, s')
      \<and> xdev_list s' = [] \<and> \<not> attached s' 0x100 \<and> 0x100 \<notin> claimed s' \<and> iomapped s' \<subseteq> {}"
    using t0 ev0 un0 rq by (auto simp: bus_example_def)
  have 2: "\<exists>c' s'. qdma_device_open pf_build env_ok (Some ''qdma_pf'') (Some (conf_of 0x100))
          two_devices = Inr (QDMA_ERR_PCI_DEVICE_ALREADY_ATTACHED pf_build, c', 0, s')
      \<and> attached s' 0x100 \<and> claimed s' = {0x100, 0x200}"
    using t2 ev2 at2 by (auto simp: two_devices_def bus_example_def)
  have 3: "qdma_device_open pf_build env_ok None (Some (conf_of 0x100)) bus_example
        = Inr (QDMA_ERR_INVALID_INPUT_PARAM pf_build, conf_of 0x100, 0, bus_example)"
    using t3 by blast
  have 4: "qdma_device_open pf_build env_ok (Some ''qdma_pf'') (Some (conf_of 0)) bus_example
        = Inr (QDMA_ERR_INVALID_PCI_DEV pf_build, conf_of 0, 0, bus_example)"
    using t3 p0 by blast
  from 1 2 3 4 show ?thesis
    unfolding E_def by blast
qed


text \<open>
  C3 at two failing inputs. With \<^verbatim>\<open>kzalloc\<close> answering \<^verbatim>\<open>NULL\<close>, \<^verbatim>\<open>xdev_alloc\<close> fails and
  \<^verbatim>\<open>qdma_device_open\<close> jumps to \<^verbatim>\<open>disable_device\<close> with \<^verbatim>\<open>rv\<close> still 0 from
  \<^verbatim>\<open>pci_dma_mask_set\<close>: it disables the device, releases the regions and returns 0, the value
  of \<^verbatim>\<open>QDMA_OPERATION_SUCCESSFUL\<close>, with a null handle. With \<^verbatim>\<open>conf\<close> null, the initialiser of
  \<^verbatim>\<open>pdev\<close> reads \<^verbatim>\<open>conf->pdev\<close> before \<^verbatim>\<open>conf\<close> is tested: the call faults and never returns
  \<^verbatim>\<open>QDMA_ERR_INVALID_INPUT_PARAM\<close>.
\<close>

theorem qdma_device_open_alloc_failure:
  "open_observed (qdma_device_open pf_build (env_ok\<lparr>kzalloc_ret := 0\<rparr>)
       (Some ''qdma_pf'') (Some (conf_of 0x100)) bus_example)
     = Inr (0, 0,
         [Pci_request_regions 0x100, Pci_enable_device 0x100, Pci_enable_relaxed_ordering 0x100,
          Pci_set_master 0x100, Pci_set_dma_mask 0x100 64, Pci_set_consistent_dma_mask 0x100 32,
          Kzalloc, Pci_disable_device 0x100, Pci_release_regions 0x100],
         {})
   \<and> QDMA_OPERATION_SUCCESSFUL = 0
   \<and> qdma_device_open pf_build env_ok (Some ''qdma_pf'') None bus_example = Inl Null_pointer"
  by (simp add: open_observed_def open_eval)

end
